theory Spec2Isabelle
  imports Main "HOL-Library.Sublist"
begin

section \<open>The IR module as the composition layer of builtins.cpp sees it\<close>

text \<open>
  The composition layer (src/src/builtins.cpp) works on \<^verbatim>\<open>llvm::Module\<close> objects through
  the backend toolkit's interface. The embedding keeps of a module what the code reads
  and writes: the ordered list of functions (name, function type, attributes, linkage,
  and a body or none), the ordered list of global variables (name, linkage, section and an
  initializer or none), the target triple, the data layout and the named metadata.
  A body is kept as the list of the operands of its instructions that are constants or
  global values, each list position being one use of the operand; an initializer is the
  constant the variable is initialized with. Pointers are untyped, as they are for the
  code's branch for LLVM 17 and later; the model has the one address space 0.
\<close>

datatype linkage = ExternalLinkage | InternalLinkage | AppendingLinkage

datatype llvm_type =
    VoidTy
  | IntegerTy nat
  | HalfTy
  | FloatTy
  | DoubleTy
  | VectorTy llvm_type nat
  | OpaquePointerTy
  | FunctionTy llvm_type "llvm_type list"

text \<open>
  Values that occur as operands: a function or a global variable (by name: a module's
  symbol table gives every global value its own name), a constant expression with its
  operand 0 (a cast), a constant array with its elements (the array without elements is
  the zero aggregate), and any other constant, by the text it is printed as. Constants
  are unique objects of the context: equal constants are one object.
\<close>

datatype llvm_value =
    VFunction string
  | VGlobalVariable string
  | VConstantExpr llvm_value
  | VConstantArray "llvm_value list"
  | VConstantData string

record func =
  fn_name :: string
  fn_ret :: llvm_type
  fn_params :: "llvm_type list"
  fn_attrs :: "string list"
  fn_linkage :: linkage
  fn_body :: "llvm_value list option"

record gvar =
  gv_name :: string
  gv_linkage :: linkage
  gv_section :: string
  gv_init :: "llvm_value option"

record llvm_module =
  mod_functions :: "func list"
  mod_globals :: "gvar list"
  mod_triple :: string
  mod_datalayout :: string
  mod_named_md :: "string list"


text \<open>\<^verbatim>\<open>F.isDeclaration()\<close>: the function has no body.\<close>

definition isDeclaration :: "func \<Rightarrow> bool" where
  "isDeclaration F = (fn_body F = None)"

text \<open>\<^verbatim>\<open>M->getFunction(name)\<close>: the function of that name, or null.\<close>

definition getFunction :: "llvm_module \<Rightarrow> string \<Rightarrow> func option" where
  "getFunction M name = find (\<lambda>F. fn_name F = name) (mod_functions M)"

text \<open>\<^verbatim>\<open>M->getNamedGlobal(name)\<close>: the global variable of that name, or null.\<close>

definition getNamedGlobal :: "llvm_module \<Rightarrow> string \<Rightarrow> gvar option" where
  "getNamedGlobal M name = find (\<lambda>G. gv_name G = name) (mod_globals M)"

text \<open>
  The two ways the code aborts: \<^verbatim>\<open>FATAL(msg)\<close> and a failed \<^verbatim>\<open>Assert(cond)\<close>.
  Neither returns.
\<close>

datatype fatal = FATAL string | AssertFailed string

text \<open>\<^verbatim>\<open>std::to_string\<close> and \<^verbatim>\<open>%d\<close>: the decimal digits of a number.\<close>

definition digit_char :: "nat \<Rightarrow> char" where
  "digit_char d = ''0123456789'' ! (d mod 10)"

fun decimal :: "nat \<Rightarrow> string" where
  "decimal n =
     (if 10 \<le> n then decimal (n div 10) @ [digit_char (n mod 10)] else [digit_char n])"

declare decimal.simps [simp del]

definition to_string :: "int \<Rightarrow> string" where
  "to_string i = (if 0 \<le> i then decimal (nat i) else CHR ''-'' # decimal (nat (- i)))"

section \<open>Linkage normalizer: lSetAsInternal\<close>

text \<open>
  \<^verbatim>\<open>
  static void lSetAsInternal(llvm::Module *module, llvm::StringSet<> &functions) {
      for (llvm::Function &F : module->functions()) {
          if (!F.isDeclaration() && functions.find(F.getName()) != functions.end()) {
              F.setLinkage(llvm::GlobalValue::InternalLinkage);
          }
      }
  }
  \<close>
\<close>

definition lSetAsInternal :: "llvm_module \<Rightarrow> string set \<Rightarrow> llvm_module" where
  "lSetAsInternal module functions =
     module\<lparr>mod_functions :=
       map (\<lambda>F. if \<not> isDeclaration F \<and> fn_name F \<in> functions
                then F\<lparr>fn_linkage := InternalLinkage\<rparr> else F)
           (mod_functions module)\<rparr>"

section \<open>Intrinsic signature checker: lCheckModuleIntrinsics\<close>

text \<open>
  What the checker takes from the backend toolkit: the intrinsic identifier the backend
  resolves a function name to (0 when it knows none), and the canonical function type of
  an identifier.
\<close>

record backend =
  lookupIntrinsicID :: "string \<Rightarrow> nat"
  Intrinsic_getType :: "nat \<Rightarrow> llvm_type"

text \<open>
  \<^verbatim>\<open>llvm::PointerType::get(ElementType, 0)\<close>: the pointer type of address space 0. With
  untyped pointers there is one such type, whatever the element type asked for.
\<close>

definition PointerType_get :: "llvm_type \<Rightarrow> llvm_type" where
  "PointerType_get ElementType = OpaquePointerTy"

text \<open>
  \<^verbatim>\<open>func->isIntrinsic()\<close>: the backend reserves the names that start with \<^verbatim>\<open>llvm.\<close>;
  \<^verbatim>\<open>func->getIntrinsicID()\<close> is the identifier the backend resolved the name to;
  \<^verbatim>\<open>func->getType()\<close> is the type of the function as a value, the pointer type of
  its address space (the function type is \<^verbatim>\<open>func->getFunctionType()\<close>).
\<close>

definition isIntrinsic :: "func \<Rightarrow> bool" where
  "isIntrinsic func = prefix ''llvm.'' (fn_name func)"

definition getIntrinsicID :: "backend \<Rightarrow> func \<Rightarrow> nat" where
  "getIntrinsicID be func = lookupIntrinsicID be (fn_name func)"

definition getType :: "func \<Rightarrow> llvm_type" where
  "getType func = OpaquePointerTy"

text \<open>
  The body of the loop of lCheckModuleIntrinsics for one function: \<open>Inr ()\<close> when the
  loop goes on to the next function, \<open>Inl\<close> when the run is aborted.
\<close>

definition lCheckFunction :: "backend \<Rightarrow> func \<Rightarrow> fatal + unit" where
  "lCheckFunction be func =
     (if \<not> isIntrinsic func then Inr ()
      else
        let funcName = fn_name func; llvm_x86 = ''llvm.x86.'' in
        if length funcName \<ge> length llvm_x86 \<and> take (length llvm_x86) funcName = llvm_x86
        then
          let iid = getIntrinsicID be func in
          if iid = 0 then Inl (FATAL (''Intrinsic is not found: '' @ funcName))
          else
            let intrinsicType = PointerType_get (Intrinsic_getType be iid) in
            if getType func = intrinsicType then Inr ()
            else Inl (AssertFailed ''func->getType() == intrinsicType'')
        else Inr ())"

text \<open>The loop over the functions of the module, in order; the first abort ends it.\<close>

primrec lCheckFunctions :: "backend \<Rightarrow> func list \<Rightarrow> fatal + unit" where
  "lCheckFunctions be [] = Inr ()"
| "lCheckFunctions be (func # rest) =
     (case lCheckFunction be func of
        Inl e \<Rightarrow> Inl e
      | Inr _ \<Rightarrow> lCheckFunctions be rest)"

definition lCheckModuleIntrinsics :: "backend \<Rightarrow> llvm_module \<Rightarrow> fatal + unit" where
  "lCheckModuleIntrinsics be module = lCheckFunctions be (mod_functions module)"



section \<open>Uses, and the backend's whole-module dead-code elimination\<close>

text \<open>
  A value together with the constants it is built of, down to the global values and the
  plain constants; and the operands of a constant that has operands.
\<close>

fun subvalues :: "llvm_value \<Rightarrow> llvm_value list" where
  "subvalues (VConstantExpr v) = VConstantExpr v # subvalues v"
| "subvalues (VConstantArray vs) = VConstantArray vs # concat (map subvalues vs)"
| "subvalues v = [v]"

fun constant_operands :: "llvm_value \<Rightarrow> llvm_value list" where
  "constant_operands (VConstantExpr v) = [v]"
| "constant_operands (VConstantArray vs) = vs"
| "constant_operands v = []"

text \<open>
  The operands of the instructions of a function, the operand of a global variable (its
  initializer), and the constants of a module: every constant that an instruction or a
  global variable reaches, each once.
\<close>

definition fn_operands :: "func \<Rightarrow> llvm_value list" where
  "fn_operands F = (case fn_body F of None \<Rightarrow> [] | Some ops \<Rightarrow> ops)"

definition gv_operands :: "gvar \<Rightarrow> llvm_value list" where
  "gv_operands G = (case gv_init G of None \<Rightarrow> [] | Some c \<Rightarrow> [c])"

definition all_operands :: "llvm_module \<Rightarrow> llvm_value list" where
  "all_operands M =
     concat (map fn_operands (mod_functions M)) @ concat (map gv_operands (mod_globals M))"

definition constants :: "llvm_module \<Rightarrow> llvm_value list" where
  "constants M = remdups (concat (map subvalues (all_operands M)))"

text \<open>
  \<^verbatim>\<open>val->getNumUses()\<close>: the length of the use list of a value. Every operand position
  that holds the value is one use: of an instruction, of a global variable, and of a
  constant of the module. A constant is one user however many instructions and variables
  hold it: two variables initialized with equal arrays share the array, whose elements
  have one use each by it. (Constants that nothing holds any more are not counted: the
  pruning pass destroys them, and the code reads the counts of a module as it is loaded,
  linked or pruned.)
\<close>

definition numUses :: "llvm_module \<Rightarrow> llvm_value \<Rightarrow> nat" where
  "numUses M val =
     count_list (all_operands M) val +
     sum_list (map (\<lambda>c. count_list (constant_operands c) val) (constants M))"

text \<open>
  Modelled from the spec: whole-module dead-code elimination, a pass of the backend
  toolkit (\<^verbatim>\<open>llvm::GlobalDCEPass\<close>), which the sources only call. The spec (4.2, pruning
  phase): ``every function reachable from the marker, from other external symbols, or
  transitively from either, survives; everything else is removed''. The roots are the
  global values that have a definition and a linkage that may not be discarded when
  unused (external and appending linkage; internal linkage may be discarded); a
  declaration is never a root. The model covers functions and global variables; it has
  no aliases, ifuncs or comdats.
\<close>

definition isDiscardableIfUnused :: "linkage \<Rightarrow> bool" where
  "isDiscardableIfUnused lk = (lk = InternalLinkage)"

definition dce_roots :: "llvm_module \<Rightarrow> llvm_value list" where
  "dce_roots M =
     map (\<lambda>F. VFunction (fn_name F))
         (filter (\<lambda>F. \<not> isDeclaration F \<and> \<not> isDiscardableIfUnused (fn_linkage F))
                 (mod_functions M)) @
     map (\<lambda>G. VGlobalVariable (gv_name G))
         (filter (\<lambda>G. gv_init G \<noteq> None \<and> \<not> isDiscardableIfUnused (gv_linkage G))
                 (mod_globals M))"

text \<open>The global values that operands refer to, through the constants around them.\<close>

definition isGlobalValue :: "llvm_value \<Rightarrow> bool" where
  "isGlobalValue v = (case v of VFunction n \<Rightarrow> True | VGlobalVariable n \<Rightarrow> True | _ \<Rightarrow> False)"

definition value_refs :: "llvm_value list \<Rightarrow> llvm_value list" where
  "value_refs ops = filter isGlobalValue (concat (map subvalues ops))"

definition dependencies :: "llvm_module \<Rightarrow> (llvm_value \<times> llvm_value) list" where
  "dependencies M =
     concat (map (\<lambda>F. map (Pair (VFunction (fn_name F))) (value_refs (fn_operands F)))
                 (mod_functions M)) @
     concat (map (\<lambda>G. map (Pair (VGlobalVariable (gv_name G))) (value_refs (gv_operands G)))
                 (mod_globals M))"

definition alive :: "llvm_module \<Rightarrow> llvm_value set" where
  "alive M = set (dce_roots M) \<union> (set (dependencies M))\<^sup>+ `` set (dce_roots M)"

definition GlobalDCE :: "llvm_module \<Rightarrow> llvm_module" where
  "GlobalDCE M =
     M\<lparr>mod_functions := filter (\<lambda>F. VFunction (fn_name F) \<in> alive M) (mod_functions M),
       mod_globals := filter (\<lambda>G. VGlobalVariable (gv_name G) \<in> alive M) (mod_globals M)\<rparr>"

text \<open>
  \<^verbatim>\<open>
  void lRemoveUnused(llvm::Module *M) {
      ...
      PM.addPass(llvm::GlobalDCEPass());
      PM.run(*M, MAM);
  }
  \<close>
\<close>

definition lRemoveUnused :: "llvm_module \<Rightarrow> llvm_module" where
  "lRemoveUnused M = GlobalDCE M"

section \<open>Names of new global values\<close>

definition all_names :: "llvm_module \<Rightarrow> string list" where
  "all_names M = map fn_name (mod_functions M) @ map gv_name (mod_globals M)"

text \<open>
  A module's symbol table keeps names unique: a global value created under a name that
  is taken gets that name followed by a dot and a number that makes it free.
\<close>

definition unique_name :: "string list \<Rightarrow> string \<Rightarrow> string" where
  "unique_name taken base =
     (if base \<notin> set taken then base
      else case find (\<lambda>n. n \<notin> set taken)
                     (map (\<lambda>k. base @ ''.'' @ decimal k) [1 ..< Suc (Suc (length taken))]) of
             Some n \<Rightarrow> n
           | None \<Rightarrow> base)"

section \<open>The preservation registry and the preservation marker\<close>

text \<open>
  \<^verbatim>\<open>builtin::persistentGroups\<close> and \<^verbatim>\<open>builtin::persistentFuncs\<close> are declared in
  builtins.h, which is not among the sources: the code only iterates over them. They are
  parameters here, in the order the iteration visits them: the groups as pairs of a
  group key and the names of its members, the persistent functions as pairs of a name
  and a value.
\<close>

type_synonym PersistentGroup = string

record registry =
  persistentGroups :: "(PersistentGroup \<times> string list) list"
  persistentFuncs :: "(string \<times> int) list"

text \<open>
  \<^verbatim>\<open>
  llvm::Constant *lFuncAsConstInt8Ptr(llvm::Module &M, const char *name) {
      llvm::Function *F = M.getFunction(name);
      llvm::Type *type = llvm::PointerType::getUnqual(Context);
      if (F) { return llvm::ConstantExpr::getBitCast(F, type); }
      return nullptr;
  }
  \<close>
  With untyped pointers the type of a function is already the pointer type asked for,
  and the cast of a value to its own type is the value itself.
\<close>

definition lFuncAsConstInt8Ptr :: "llvm_module \<Rightarrow> string \<Rightarrow> llvm_value option" where
  "lFuncAsConstInt8Ptr M name =
     (case getFunction M name of Some F \<Rightarrow> Some (VFunction name) | None \<Rightarrow> None)"

text \<open>
  lCreateLLVMUsed: a new global variable \<^verbatim>\<open>llvm.compiler.used\<close> with appending linkage
  in section \<^verbatim>\<open>llvm.metadata\<close>, initialized with the array of the pointers.
\<close>

definition lCreateLLVMUsed :: "llvm_module \<Rightarrow> llvm_value list \<Rightarrow> llvm_module" where
  "lCreateLLVMUsed M ConstPtrs =
     M\<lparr>mod_globals := mod_globals M @
        [\<lparr>gv_name = unique_name (all_names M) ''llvm.compiler.used'',
          gv_linkage = AppendingLinkage,
          gv_section = ''llvm.metadata'',
          gv_init = Some (VConstantArray ConstPtrs)\<rparr>]\<rparr>"

text \<open>\<^verbatim>\<open>llvmUsed->eraseFromParent()\<close>: the variable leaves the module.\<close>

definition eraseFromParent :: "llvm_module \<Rightarrow> gvar \<Rightarrow> llvm_module" where
  "eraseFromParent M G = M\<lparr>mod_globals := remove1 G (mod_globals M)\<rparr>"

definition lUpdateLLVMUsed :: "llvm_module \<Rightarrow> gvar \<Rightarrow> llvm_value list \<Rightarrow> llvm_module" where
  "lUpdateLLVMUsed M llvmUsed newElements =
     lCreateLLVMUsed (eraseFromParent M llvmUsed) newElements"

text \<open>
  The inner loops of lAddPersistentToLLVMUsed, over the names of one group: whether a
  member is a function of the module with a use, and the pointers to the members that
  are functions of the module.
\<close>

definition isGroupUsed :: "llvm_module \<Rightarrow> string list \<Rightarrow> bool" where
  "isGroupUsed M functions =
     list_ex (\<lambda>name. case getFunction M name of
                        Some F \<Rightarrow> numUses M (VFunction name) > 0
                      | None \<Rightarrow> False) functions"

definition lFuncsAsConstPtrs :: "llvm_module \<Rightarrow> string list \<Rightarrow> llvm_value list" where
  "lFuncsAsConstPtrs M names = List.map_filter (lFuncAsConstInt8Ptr M) names"

definition lAnchorConstPtrs :: "registry \<Rightarrow> llvm_module \<Rightarrow> llvm_value list" where
  "lAnchorConstPtrs reg M =
     concat (map (\<lambda>(group, functions).
                    if isGroupUsed M functions then lFuncsAsConstPtrs M functions else [])
                 (persistentGroups reg)) @
     lFuncsAsConstPtrs M (map fst (persistentFuncs reg))"

definition lAddPersistentToLLVMUsed :: "registry \<Rightarrow> llvm_module \<Rightarrow> llvm_module" where
  "lAddPersistentToLLVMUsed reg M =
     (let ConstPtrs = lAnchorConstPtrs reg M in
      if ConstPtrs = [] then M else lCreateLLVMUsed M ConstPtrs)"

text \<open>
  lExtractUsedFunctions, one operand of the initializer at a time. The set of functions
  is kept as the set of their names.
  \<^verbatim>\<open>
      auto *C = initList->getOperand(i);
      llvm::ConstantExpr *CE = llvm::dyn_cast<llvm::ConstantExpr>(C);
      llvm::Value *val = CE ? CE->getOperand(0) : C;
      Assert(val);
      if (val->getNumUses() > 1) {
          Assert(llvm::isa<llvm::Function>(val));
          usedFunctions.insert(llvm::cast<llvm::Function>(val));
      }
  \<close>
\<close>

fun lExtractOperands :: "llvm_module \<Rightarrow> llvm_value list \<Rightarrow> string set \<Rightarrow> fatal + string set" where
  "lExtractOperands M [] usedFunctions = Inr usedFunctions"
| "lExtractOperands M (C # rest) usedFunctions =
     (let val = (case C of VConstantExpr op0 \<Rightarrow> op0 | _ \<Rightarrow> C) in
      if numUses M val > 1 then
        (case val of
           VFunction name \<Rightarrow> lExtractOperands M rest (insert name usedFunctions)
         | _ \<Rightarrow> Inl (AssertFailed ''llvm::isa<llvm::Function>(val)''))
      else lExtractOperands M rest usedFunctions)"

text \<open>
  The initializer of the marker is read as a constant array, over whose operands the
  loop runs; a variable without an initializer, or with one that is no array, fails the
  cast.
\<close>

definition lExtractUsedFunctions :: "llvm_module \<Rightarrow> gvar \<Rightarrow> string set \<Rightarrow> fatal + string set" where
  "lExtractUsedFunctions M llvmUsed usedFunctions =
     (case gv_init llvmUsed of
        Some (VConstantArray initList) \<Rightarrow> lExtractOperands M initList usedFunctions
      | _ \<Rightarrow> Inl (AssertFailed ''llvm::cast<llvm::ConstantArray>''))"

text \<open>
  lFindUsedPersistentGroups: the groups with a member whose function in the module is in
  the set. The set of groups is kept as the list of their keys.
\<close>

definition lFindUsedPersistentGroups ::
  "registry \<Rightarrow> llvm_module \<Rightarrow> string set \<Rightarrow> PersistentGroup list" where
  "lFindUsedPersistentGroups reg M usedFunctions =
     map fst (filter (\<lambda>(group, functions).
                        list_ex (\<lambda>name. getFunction M name \<noteq> None \<and> name \<in> usedFunctions) functions)
                     (persistentGroups reg))"

definition lCollectPreservedFunctions ::
  "registry \<Rightarrow> llvm_module \<Rightarrow> PersistentGroup list \<Rightarrow> llvm_value list" where
  "lCollectPreservedFunctions reg M usedPersistentGroups =
     concat (map (\<lambda>(group, functions).
                    if group \<in> set usedPersistentGroups then lFuncsAsConstPtrs M functions else [])
                 (persistentGroups reg)) @
     lFuncsAsConstPtrs M (map fst (persistentFuncs reg))"

definition lRemoveUnusedPersistentFunctions :: "registry \<Rightarrow> llvm_module \<Rightarrow> fatal + llvm_module" where
  "lRemoveUnusedPersistentFunctions reg M =
     (case getNamedGlobal M ''llvm.compiler.used'' of
        None \<Rightarrow> Inr M
      | Some llvmUsed \<Rightarrow>
          (case lExtractUsedFunctions M llvmUsed {} of
             Inl e \<Rightarrow> Inl e
           | Inr usedFunctions \<Rightarrow>
               let usedPersistentGroups = lFindUsedPersistentGroups reg M usedFunctions;
                   newElements = lCollectPreservedFunctions reg M usedPersistentGroups
               in Inr (lRemoveUnused (lUpdateLLVMUsed M llvmUsed newElements))))"

text \<open>
  The Protect-Prune Engine as LinkStandardLibraries runs it after the standard library
  is linked: anchor, dead-code elimination, re-closure with its second prune.
\<close>

definition protect_prune :: "registry \<Rightarrow> llvm_module \<Rightarrow> fatal + llvm_module" where
  "protect_prune reg M =
     lRemoveUnusedPersistentFunctions reg (lRemoveUnused (lAddPersistentToLLVMUsed reg M))"

section \<open>Source-language symbols for LLVM intrinsics\<close>

text \<open>
  The source language's types, as far as lLLVMTypeToISPCType produces them: the atomic
  types, uniform pointers to them, and function types.
\<close>

datatype AtomicType =
    Void
  | UniformBool | UniformInt8 | UniformUInt8 | UniformInt16 | UniformUInt16
  | UniformInt32 | UniformUInt32 | UniformFloat16 | UniformFloat | UniformDouble
  | UniformInt64 | UniformUInt64
  | VaryingBool | VaryingInt8 | VaryingUInt8 | VaryingInt16 | VaryingUInt16
  | VaryingInt32 | VaryingUInt32 | VaryingFloat16 | VaryingFloat | VaryingDouble
  | VaryingInt64 | VaryingUInt64

datatype ispc_type =
    Atomic AtomicType
  | PointerType_GetUniform AtomicType
  | FunctionType ispc_type "ispc_type list"

text \<open>
  \<^verbatim>\<open>LLVMTypes::...\<close> are the type objects the compiler sets up for the target
  (llvmutil.h is not among the sources). lLLVMTypeToISPCType compares its argument with
  each of them in turn, so they are a parameter: a record of the types by name. Which of
  them coincide depends on the target (the mask type, and all pointer types where
  pointers are untyped); the first comparison that holds decides.
\<close>

record LLVMTypes =
  VoidType :: llvm_type
  BoolType :: llvm_type
  Int8Type :: llvm_type
  Int16Type :: llvm_type
  Int32Type :: llvm_type
  Int64Type :: llvm_type
  Float16Type :: llvm_type
  FloatType :: llvm_type
  DoubleType :: llvm_type
  Int8VectorType :: llvm_type
  Int16VectorType :: llvm_type
  Int32VectorType :: llvm_type
  Int64VectorType :: llvm_type
  Float16VectorType :: llvm_type
  FloatVectorType :: llvm_type
  DoubleVectorType :: llvm_type
  MaskType :: llvm_type
  Int8PointerType :: llvm_type
  Int16PointerType :: llvm_type
  Int32PointerType :: llvm_type
  Int64PointerType :: llvm_type
  Float16PointerType :: llvm_type
  FloatPointerType :: llvm_type
  DoublePointerType :: llvm_type
  Int8VectorPointerType :: llvm_type
  Int16VectorPointerType :: llvm_type
  Int32VectorPointerType :: llvm_type
  Int64VectorPointerType :: llvm_type
  Float16VectorPointerType :: llvm_type
  FloatVectorPointerType :: llvm_type
  DoubleVectorPointerType :: llvm_type

text \<open>lLLVMTypeToISPCType, branch by branch; \<open>None\<close> is the null pointer it ends with.\<close>

definition lLLVMTypeToISPCType :: "LLVMTypes \<Rightarrow> llvm_type \<Rightarrow> bool \<Rightarrow> ispc_type option" where
  "lLLVMTypeToISPCType T t intAsUnsigned =
    (if t = VoidType T then Some (Atomic Void)
     else if t = BoolType T then Some (Atomic UniformBool)
     else if t = Int8Type T then Some (Atomic (if intAsUnsigned then UniformUInt8 else UniformInt8))
     else if t = Int16Type T then Some (Atomic (if intAsUnsigned then UniformUInt16 else UniformInt16))
     else if t = Int32Type T then Some (Atomic (if intAsUnsigned then UniformUInt32 else UniformInt32))
     else if t = Float16Type T then Some (Atomic UniformFloat16)
     else if t = FloatType T then Some (Atomic UniformFloat)
     else if t = DoubleType T then Some (Atomic UniformDouble)
     else if t = Int64Type T then Some (Atomic (if intAsUnsigned then UniformUInt64 else UniformInt64))
     else if t = Int8VectorType T then Some (Atomic (if intAsUnsigned then VaryingUInt8 else VaryingInt8))
     else if t = Int16VectorType T then Some (Atomic (if intAsUnsigned then VaryingUInt16 else VaryingInt16))
     else if t = Int32VectorType T then Some (Atomic (if intAsUnsigned then VaryingUInt32 else VaryingInt32))
     else if t = Float16VectorType T then Some (Atomic VaryingFloat16)
     else if t = FloatVectorType T then Some (Atomic VaryingFloat)
     else if t = DoubleVectorType T then Some (Atomic VaryingDouble)
     else if t = Int64VectorType T then Some (Atomic (if intAsUnsigned then VaryingUInt64 else VaryingInt64))
     else if t = MaskType T then Some (Atomic VaryingBool)
     else if t = Int8PointerType T
       then Some (PointerType_GetUniform (if intAsUnsigned then UniformUInt8 else UniformInt8))
     else if t = Int16PointerType T
       then Some (PointerType_GetUniform (if intAsUnsigned then UniformUInt16 else UniformInt16))
     else if t = Int32PointerType T
       then Some (PointerType_GetUniform (if intAsUnsigned then UniformUInt32 else UniformInt32))
     else if t = Int64PointerType T
       then Some (PointerType_GetUniform (if intAsUnsigned then UniformUInt64 else UniformInt64))
     else if t = Float16PointerType T then Some (PointerType_GetUniform UniformFloat16)
     else if t = FloatPointerType T then Some (PointerType_GetUniform UniformFloat)
     else if t = DoublePointerType T then Some (PointerType_GetUniform UniformDouble)
     else if t = Int8VectorPointerType T
       then Some (PointerType_GetUniform (if intAsUnsigned then VaryingUInt8 else VaryingInt8))
     else if t = Int16VectorPointerType T
       then Some (PointerType_GetUniform (if intAsUnsigned then VaryingUInt16 else VaryingInt16))
     else if t = Int32VectorPointerType T
       then Some (PointerType_GetUniform (if intAsUnsigned then VaryingUInt32 else VaryingInt32))
     else if t = Int64VectorPointerType T
       then Some (PointerType_GetUniform (if intAsUnsigned then VaryingUInt64 else VaryingInt64))
     else if t = Float16VectorPointerType T then Some (PointerType_GetUniform VaryingFloat16)
     else if t = FloatVectorPointerType T then Some (PointerType_GetUniform VaryingFloat)
     else if t = DoubleVectorPointerType T then Some (PointerType_GetUniform VaryingDouble)
     else None)"

text \<open>
  A symbol as CreateISPCSymbolForLLVMIntrinsic makes it: name, the name of its source
  position, kind, type, and the LLVM function it stands for.
\<close>

datatype SymbolKind = Default | FunctionKind | FunctionParm | TemplateKind

record Symbol =
  sym_name :: string
  sym_pos :: string
  sym_kind :: SymbolKind
  sym_type :: ispc_type
  sym_function :: "func option"

text \<open>
  The symbol table and the diagnostics the call can add to. Of the symbol table
  (sym.cpp is not among the sources) the call uses LookupIntrinsics and AddIntrinsics:
  the table of intrinsic symbols is kept as the list of the symbols added, looked up by
  the function a symbol stands for. \<^verbatim>\<open>Error(pos, fmt, ...)\<close> reports a diagnostic to the
  user and returns; the diagnostics are kept as the list of the messages.
\<close>

record frontend =
  intrinsics :: "Symbol list"
  diagnostics :: "string list"

definition LookupIntrinsics :: "frontend \<Rightarrow> func \<Rightarrow> Symbol option" where
  "LookupIntrinsics st func = find (\<lambda>s. sym_function s = Some func) (intrinsics st)"

definition AddIntrinsics :: "Symbol \<Rightarrow> frontend \<Rightarrow> frontend" where
  "AddIntrinsics symb st = st\<lparr>intrinsics := intrinsics st @ [symb]\<rparr>"

definition Error :: "string \<Rightarrow> frontend \<Rightarrow> frontend" where
  "Error msg st = st\<lparr>diagnostics := diagnostics st @ [msg]\<rparr>"

text \<open>
  The loop over the parameter types: \<open>Inl j\<close> when parameter \<open>j\<close> is the first that has
  no type in the source language, the list of the translated types otherwise.
\<close>

fun lParamTypes :: "LLVMTypes \<Rightarrow> llvm_type list \<Rightarrow> nat \<Rightarrow> ispc_type list \<Rightarrow> nat + ispc_type list" where
  "lParamTypes T [] j argTypes = Inr argTypes"
| "lParamTypes T (llvmArgType # rest) j argTypes =
     (case lLLVMTypeToISPCType T llvmArgType False of
        None \<Rightarrow> Inl j
      | Some type \<Rightarrow> lParamTypes T rest (Suc j) (argTypes @ [type]))"

definition CreateISPCSymbolForLLVMIntrinsic ::
  "LLVMTypes \<Rightarrow> func \<Rightarrow> frontend \<Rightarrow> Symbol option \<times> frontend" where
  "CreateISPCSymbolForLLVMIntrinsic T func symbolTable =
     (case LookupIntrinsics symbolTable func of
        Some existingSym \<Rightarrow> (Some existingSym, symbolTable)
      | None \<Rightarrow>
          let name = fn_name func in
          (case lLLVMTypeToISPCType T (fn_ret func) False of
             None \<Rightarrow>
               (None, Error (''Return type not representable for Intrinsic '' @ name @ ''.'')
                            symbolTable)
           | Some returnType \<Rightarrow>
               (case lParamTypes T (fn_params func) 0 [] of
                  Inl j \<Rightarrow>
                    (None, Error (''Type of parameter '' @ decimal j @
                                  '' not representable for Intrinsic '' @ name) symbolTable)
                | Inr argTypes \<Rightarrow>
                    let funcType = FunctionType returnType argTypes;
                        symb = \<lparr>sym_name = name, sym_pos = ''LLVM Intrinsic'',
                               sym_kind = FunctionKind, sym_type = funcType,
                               sym_function = Some func\<rparr>
                    in (Some symb, AddIntrinsics symb symbolTable))))"

section \<open>Linking a precompiled library into the target module\<close>

text \<open>
  \<^verbatim>\<open>module->getOrInsertFunction(name, type, attributes)\<close> looks the name up in the
  module's symbol table. When a function or a global variable has the name, that value
  is what the call gives and the module stays as it is; otherwise a new declaration with
  external linkage is appended to the module's functions.
\<close>

definition getOrInsertFunction ::
  "llvm_module \<Rightarrow> string \<Rightarrow> llvm_type \<Rightarrow> llvm_type list \<Rightarrow> string list \<Rightarrow> llvm_module" where
  "getOrInsertFunction M name ret params attrs =
     (case getFunction M name of
        Some F \<Rightarrow> M
      | None \<Rightarrow>
          (case getNamedGlobal M name of
             Some G \<Rightarrow> M
           | None \<Rightarrow>
               M\<lparr>mod_functions := mod_functions M @
                  [\<lparr>fn_name = name, fn_ret = ret, fn_params = params,
                    fn_attrs = attrs, fn_linkage = ExternalLinkage, fn_body = None\<rparr>]\<rparr>))"

text \<open>
  Modelled from the spec: the backend toolkit's module linking under the flag
  \<^verbatim>\<open>LinkOnlyNeeded\<close>, which the sources only call. The spec (6): ``IR module linking
  (merge module B into module A, keeping only needed declarations)''. Needed from the
  source module are the non-internal definitions of what the destination declares
  without defining, the variables with appending linkage, and whatever these refer to,
  directly or indirectly. A needed definition takes the place of the destination's
  declaration of the same name; a needed global value whose name the destination does
  not have is appended; what the destination defines stays as it is, and nothing of the
  destination is removed. A variable with appending linkage on both sides gets the
  elements of both. The link fails when an appending variable of the source meets a
  variable of the destination that has another linkage or section; the destination is
  then taken to be as before. The model covers libraries whose internal names do not
  occur in the destination (the toolkit would rename such a copy).
\<close>

definition link_roots :: "llvm_module \<Rightarrow> llvm_module \<Rightarrow> llvm_value list" where
  "link_roots dst src =
     map (\<lambda>F. VFunction (fn_name F))
         (filter (\<lambda>F. \<not> isDeclaration F \<and> fn_linkage F \<noteq> InternalLinkage \<and>
                       (case getFunction dst (fn_name F) of
                          Some D \<Rightarrow> isDeclaration D
                        | None \<Rightarrow> False))
                 (mod_functions src)) @
     map (\<lambda>G. VGlobalVariable (gv_name G))
         (filter (\<lambda>G. gv_linkage G = AppendingLinkage \<or>
                       (gv_init G \<noteq> None \<and> gv_linkage G \<noteq> InternalLinkage \<and>
                        (case getNamedGlobal dst (gv_name G) of
                           Some D \<Rightarrow> gv_init D = None
                         | None \<Rightarrow> False)))
                 (mod_globals src))"

definition link_needed :: "llvm_module \<Rightarrow> llvm_module \<Rightarrow> llvm_value set" where
  "link_needed dst src =
     set (link_roots dst src) \<union> (set (dependencies src))\<^sup>+ `` set (link_roots dst src)"

definition link_fails :: "llvm_module \<Rightarrow> llvm_module \<Rightarrow> bool" where
  "link_fails dst src =
     list_ex (\<lambda>G. gv_linkage G = AppendingLinkage \<and>
                   (case getNamedGlobal dst (gv_name G) of
                      Some D \<Rightarrow> gv_linkage D \<noteq> AppendingLinkage \<or> gv_section D \<noteq> gv_section G
                    | None \<Rightarrow> False))
             (mod_globals src)"

definition link_function :: "llvm_module \<Rightarrow> llvm_value set \<Rightarrow> func \<Rightarrow> func" where
  "link_function src needed D =
     (if isDeclaration D then
        (case find (\<lambda>F. fn_name F = fn_name D \<and> \<not> isDeclaration F \<and>
                         VFunction (fn_name F) \<in> needed) (mod_functions src) of
           Some F \<Rightarrow> F
         | None \<Rightarrow> D)
      else D)"

definition array_elements :: "gvar \<Rightarrow> llvm_value list" where
  "array_elements G = (case gv_init G of Some (VConstantArray vs) \<Rightarrow> vs | _ \<Rightarrow> [])"

definition link_global :: "llvm_module \<Rightarrow> llvm_value set \<Rightarrow> gvar \<Rightarrow> gvar" where
  "link_global src needed D =
     (case find (\<lambda>G. gv_name G = gv_name D \<and> gv_init G \<noteq> None \<and>
                      VGlobalVariable (gv_name G) \<in> needed) (mod_globals src) of
        Some G \<Rightarrow>
          if gv_init D = None then G
          else if gv_linkage D = AppendingLinkage \<and> gv_linkage G = AppendingLinkage
               then D\<lparr>gv_init := Some (VConstantArray (array_elements D @ array_elements G))\<rparr>
               else D
      | None \<Rightarrow> D)"

definition linkModules :: "llvm_module \<Rightarrow> llvm_module \<Rightarrow> llvm_module \<times> bool" where
  "linkModules dst src =
     (if link_fails dst src then (dst, True)
      else
        let needed = link_needed dst src in
        (dst\<lparr>mod_functions :=
               map (link_function src needed) (mod_functions dst) @
               filter (\<lambda>F. VFunction (fn_name F) \<in> needed \<and> getFunction dst (fn_name F) = None)
                      (mod_functions src),
             mod_globals :=
               map (link_global src needed) (mod_globals dst) @
               filter (\<lambda>G. VGlobalVariable (gv_name G) \<in> needed \<and>
                            getNamedGlobal dst (gv_name G) = None)
                      (mod_globals src)\<rparr>,
         False))"

text \<open>
  \<^verbatim>\<open>
  static void lUpdateIntrinsicsAttributes(llvm::Module *module) {
  #ifdef ISPC_XE_ENABLED
      ...
  #endif
  }
  \<close>
  The model is of the compiler built without the Xe back-end: the function has no effect.
\<close>

definition lUpdateIntrinsicsAttributes :: "llvm_module \<Rightarrow> llvm_module" where
  "lUpdateIntrinsicsAttributes module = module"

text \<open>
  The loop of lAddBitcodeToModule over the functions of the library module: a
  declaration without uses is declared in the target module by hand.
  \<^verbatim>\<open>
      for (llvm::Function &f : *bcModule) {
          if (f.isDeclaration()) {
              // Declarations with uses will be moved by Linker.
              if (f.getNumUses() > 0) { continue; }
              // Declarations with 0 uses are moved by hands.
              module->getOrInsertFunction(f.getName(), f.getFunctionType(), f.getAttributes());
          }
      }
  \<close>
\<close>

fun lMoveUnusedDeclarations :: "llvm_module \<Rightarrow> func list \<Rightarrow> llvm_module \<Rightarrow> llvm_module" where
  "lMoveUnusedDeclarations bcModule [] module = module"
| "lMoveUnusedDeclarations bcModule (f # rest) module =
     lMoveUnusedDeclarations bcModule rest
       (if isDeclaration f then
          (if numUses bcModule (VFunction (fn_name f)) > 0 then module
           else getOrInsertFunction module (fn_name f) (fn_ret f) (fn_params f) (fn_attrs f))
        else module)"

text \<open>
  The part of lAddBitcodeToModule that works on the two modules, for a library module
  that is there: the attributes (on an Xe target), the declarations without uses, the
  \<^verbatim>\<open>llvm.ident\<close> metadata of the library module, the link. The result is the target
  module and whether the link failed; the library module is consumed by the link.
\<close>

definition lLinkBitcode :: "bool \<Rightarrow> llvm_module \<Rightarrow> llvm_module \<Rightarrow> llvm_module \<times> bool" where
  "lLinkBitcode xe bcModule module =
     (let bc1 = (if xe then lUpdateIntrinsicsAttributes bcModule else bcModule);
          module1 = lMoveUnusedDeclarations bc1 (mod_functions bc1) module;
          bc2 = bc1\<lparr>mod_named_md := filter (\<lambda>md. md \<noteq> ''llvm.ident'') (mod_named_md bc1)\<rparr>
      in linkModules module1 bc2)"

section \<open>The composer: libraries, stages and their order\<close>

text \<open>
  The composition works on the target module and on the modules of the precompiled
  libraries, through pointers. The world of a composition is the target module, the store
  of the other module objects (a cell per object, \<open>None\<close> once the object is destroyed),
  the diagnostics reported by \<^verbatim>\<open>Error\<close>, and the dumps written by debugDumpModule. A
  pointer to a module is the index of its cell, or \<open>None\<close> for the null pointer; a
  pointer to a cell that holds no module counts as null.
\<close>

record world =
  the_module :: llvm_module
  store :: "llvm_module option list"
  reported :: "string list"
  dumped :: "(string \<times> llvm_module) list"

definition deref :: "world \<Rightarrow> nat option \<Rightarrow> llvm_module option" where
  "deref w ptr =
     (case ptr of
        None \<Rightarrow> None
      | Some p \<Rightarrow> if p < length (store w) then store w ! p else None)"

definition report :: "string \<Rightarrow> world \<Rightarrow> world" where
  "report msg w = w\<lparr>reported := reported w @ [msg]\<rparr>"

definition on_module :: "(llvm_module \<Rightarrow> llvm_module) \<Rightarrow> world \<Rightarrow> world" where
  "on_module f w = w\<lparr>the_module := f (the_module w)\<rparr>"

definition on_module_fatal :: "(llvm_module \<Rightarrow> fatal + llvm_module) \<Rightarrow> world \<Rightarrow> fatal + world" where
  "on_module_fatal f w =
     (case f (the_module w) of Inl e \<Rightarrow> Inl e | Inr M \<Rightarrow> Inr (w\<lparr>the_module := M\<rparr>))"

definition and_then :: "fatal + 'a \<Rightarrow> ('a \<Rightarrow> fatal + 'b) \<Rightarrow> fatal + 'b" where
  "and_then r f = (case r of Inl e \<Rightarrow> Inl e | Inr x \<Rightarrow> f x)"

text \<open>
  A precompiled library, as the registry hands it out: the handle of its IR module, which
  the registry keeps in the store.
\<close>

record BitcodeLib =
  lib_module :: nat

text \<open>
  What the stages read of the global state \<^verbatim>\<open>g\<close>: the options, what the target says of
  itself, the debug configuration, the registry's answers for the target at hand (the
  library, or none), the preservation tables and the backend's intrinsic table.
\<close>

record Globals =
  includeStdlib :: bool
  isMultiTargetCompilation :: bool
  isXeTarget :: bool
  TargetSuffix :: string
  TargetDataLayout :: string
  ISAString :: string
  off_stages :: "int set"
  debug_stages :: "int set"
  dumpFile :: bool
  dumpFilePath :: string
  ISPCStdLib :: "BitcodeLib option"
  BuiltinsCLib :: "BitcodeLib option"
  ISPCTargetLib :: "BitcodeLib option"
  DispatchLib :: "BitcodeLib option"
  preservation :: registry
  toolkit :: backend

text \<open>
  Modelled from the spec: \<^verbatim>\<open>BitcodeLib::getLLVMModule()\<close>, of bitcode_lib.cpp, which is
  not among the sources. The spec (3, 6): the registry's getters return ``a handle
  exposing the library's IR module''; libraries are ``borrowed read-only and never
  mutated; any per-composition adaptation (target triple, data layout, renaming) is
  applied to a private copy merged into the Target Module''. The call gives a pointer to
  a new module object that is a copy of the library's module (the null pointer where the
  library has none); the callers own it, and lAddBitcodeToModule hands it to the linker,
  which destroys it.
\<close>

definition getLLVMModule :: "BitcodeLib \<Rightarrow> world \<Rightarrow> nat option \<times> world" where
  "getLLVMModule lib w =
     (case deref w (Some (lib_module lib)) of
        None \<Rightarrow> (None, w)
      | Some M \<Rightarrow> (Some (length (store w)), w\<lparr>store := store w @ [Some M]\<rparr>))"

text \<open>
  lAddBitcodeToModule: the null check, the work on the two modules, the end of the
  library module in the linker, the diagnostic when the link fails.
\<close>

definition lAddBitcodeToModule :: "Globals \<Rightarrow> nat option \<Rightarrow> world \<Rightarrow> world" where
  "lAddBitcodeToModule g bcModule w =
     (case deref w bcModule of
        None \<Rightarrow> report ''Error library module is nullptr'' w
      | Some bc \<Rightarrow>
          let (module', failed) = lLinkBitcode (isXeTarget g) bc (the_module w);
              w1 = w\<lparr>the_module := module', store := (store w)[the bcModule := None]\<rparr>
          in if failed then report ''Error linking stdlib bitcode.'' w1 else w1)"

text \<open>
  The loop of lAddDeclarationsToModule:
  \<^verbatim>\<open>
      for (llvm::Function &f : *bcModule) {
          if (!module->getFunction(f.getName())) {
              module->getOrInsertFunction(f.getName(), f.getFunctionType(), f.getAttributes());
          }
      }
  \<close>
\<close>

fun lDeclareFunctions :: "func list \<Rightarrow> llvm_module \<Rightarrow> llvm_module" where
  "lDeclareFunctions [] module = module"
| "lDeclareFunctions (f # rest) module =
     lDeclareFunctions rest
       (if getFunction module (fn_name f) = None
        then getOrInsertFunction module (fn_name f) (fn_ret f) (fn_params f) (fn_attrs f)
        else module)"

definition lAddDeclarationsToModule :: "Globals \<Rightarrow> nat option \<Rightarrow> world \<Rightarrow> world" where
  "lAddDeclarationsToModule g bcModule w =
     (case deref w bcModule of
        None \<Rightarrow> report ''Error library module is nullptr'' w
      | Some bc \<Rightarrow>
          let bc1 = bc\<lparr>mod_triple := mod_triple (the_module w),
                      mod_datalayout := mod_datalayout (the_module w)\<rparr>;
              bc2 = (if isXeTarget g then lUpdateIntrinsicsAttributes bc1 else bc1)
          in w\<lparr>the_module := lDeclareFunctions (mod_functions bc2) (the_module w),
               store := (store w)[the bcModule := Some bc2]\<rparr>)"

text \<open>
  \<^verbatim>\<open>GV->setLinkage(InternalLinkage)\<close> on the global variable of a name, if there is one.
\<close>

fun lSetFirstInternal :: "string \<Rightarrow> gvar list \<Rightarrow> gvar list" where
  "lSetFirstInternal name [] = []"
| "lSetFirstInternal name (G # rest) =
     (if gv_name G = name then G\<lparr>gv_linkage := InternalLinkage\<rparr> # rest
      else G # lSetFirstInternal name rest)"

definition lSetInternalLinkageGlobal :: "llvm_module \<Rightarrow> string \<Rightarrow> llvm_module" where
  "lSetInternalLinkageGlobal module name =
     module\<lparr>mod_globals := lSetFirstInternal name (mod_globals module)\<rparr>"

definition lSetInternalLinkageGlobals :: "llvm_module \<Rightarrow> llvm_module" where
  "lSetInternalLinkageGlobals module =
     lSetInternalLinkageGlobal
       (lSetInternalLinkageGlobal
          (lSetInternalLinkageGlobal module ''__fast_masked_vload'') ''__math_lib'')
       ''__memory_alignment''"

text \<open>
  debugDumpModule: nothing unless the stage is asked for and not switched off; else the
  module is printed, to a file of the dump directory or to the standard output. The
  dumps are kept as pairs of the destination and the module printed; the failures of the
  file system are outside the model.
\<close>

definition debugDumpModule :: "Globals \<Rightarrow> string \<Rightarrow> int \<Rightarrow> world \<Rightarrow> world" where
  "debugDumpModule g name stage w =
     (if \<not> (stage \<notin> off_stages g \<and> stage \<in> debug_stages g) then w
      else
        let name1 = ''pre_'' @ to_string stage @ ''_'' @ name @ ''.ll'' in
        if dumpFile g \<and> dumpFilePath g \<noteq> [] then
          let name2 = (if isMultiTargetCompilation g then name1 @ ''_'' @ ISAString g else name1)
          in w\<lparr>dumped := dumped w @ [(dumpFilePath g @ ''/'' @ name2, the_module w)]\<rparr>
        else w\<lparr>dumped := dumped w @ [(''stdout'', the_module w)]\<rparr>)"

definition lStartsWithLLVM :: "string \<Rightarrow> bool" where
  "lStartsWithLLVM name = prefix ''llvm.'' name"

text \<open>
  \<^verbatim>\<open>F.setName(name)\<close> for the function at a position of the module: the symbol table
  makes the name unique; every operand that refers to the function refers to it under
  its new name.
\<close>

fun rename_value :: "string \<Rightarrow> string \<Rightarrow> llvm_value \<Rightarrow> llvm_value" where
  "rename_value old new (VFunction n) = VFunction (if n = old then new else n)"
| "rename_value old new (VConstantExpr v) = VConstantExpr (rename_value old new v)"
| "rename_value old new (VConstantArray vs) = VConstantArray (map (rename_value old new) vs)"
| "rename_value old new v = v"

definition setName :: "llvm_module \<Rightarrow> nat \<Rightarrow> string \<Rightarrow> llvm_module" where
  "setName M i name =
     (let F = mod_functions M ! i;
          old = fn_name F;
          new = unique_name (remove1 old (all_names M)) name
      in M\<lparr>mod_functions :=
             map (\<lambda>F'. F'\<lparr>fn_body := map_option (map (rename_value old new)) (fn_body F')\<rparr>)
                 ((mod_functions M)[i := F\<lparr>fn_name := new\<rparr>]),
           mod_globals :=
             map (\<lambda>G. G\<lparr>gv_init := map_option (rename_value old new) (gv_init G)\<rparr>)
                 (mod_globals M)\<rparr>)"

text \<open>
  The renaming loop of lLinkStdlib, over the positions of the library module's functions:
  \<^verbatim>\<open>
      for (llvm::Function &F : stdlibBCModule->functions()) {
          if (!F.isDeclaration() && !lStartsWithLLVM(F.getName())) {
              F.setName(F.getName() + g->target->GetTargetSuffix());
          }
      }
  \<close>
\<close>

fun lRenameForTarget :: "string \<Rightarrow> nat list \<Rightarrow> llvm_module \<Rightarrow> llvm_module" where
  "lRenameForTarget sfx [] M = M"
| "lRenameForTarget sfx (i # rest) M =
     lRenameForTarget sfx rest
       (let F = mod_functions M ! i in
        if \<not> isDeclaration F \<and> \<not> lStartsWithLLVM (fn_name F)
        then setName M i (fn_name F @ sfx) else M)"

text \<open>
  lLinkStdlib. The assertion fails when the registry has no library; a library without a
  module ends the run at the first dereference of the null pointer.
\<close>

definition lLinkStdlib :: "Globals \<Rightarrow> world \<Rightarrow> fatal + world" where
  "lLinkStdlib g w =
     (case ISPCStdLib g of
        None \<Rightarrow> Inl (AssertFailed ''stdlib'')
      | Some stdlib \<Rightarrow>
          let (stdlibBCModule, w1) = getLLVMModule stdlib w in
          (case deref w1 stdlibBCModule of
             None \<Rightarrow> Inl (FATAL ''null pointer dereference: stdlibBCModule'')
           | Some bc \<Rightarrow>
               let bc1 = (if isMultiTargetCompilation g
                          then lRenameForTarget (TargetSuffix g) [0 ..< length (mod_functions bc)] bc
                          else bc);
                   w2 = w1\<lparr>store := (store w1)[the stdlibBCModule := Some bc1]\<rparr>;
                   stdlibFunctions = set (map fn_name (mod_functions bc1));
                   w3 = lAddBitcodeToModule g stdlibBCModule w2
               in Inr (on_module (\<lambda>module. lSetAsInternal module stdlibFunctions) w3)))"

text \<open>
  lLinkCommonBuiltins. \<^verbatim>\<open>builtin::__do_print\<close> and \<^verbatim>\<open>builtin::__num_cores\<close> are the names
  of these two functions (builtins-decl.h is not among the sources).
\<close>

definition lLinkCommonBuiltins :: "Globals \<Rightarrow> world \<Rightarrow> fatal + world" where
  "lLinkCommonBuiltins g w =
     (case BuiltinsCLib g of
        None \<Rightarrow> Inl (AssertFailed ''builtins'')
      | Some builtins \<Rightarrow>
          let (builtinsBCModule, w1) = getLLVMModule builtins w;
              w2 = lAddBitcodeToModule g builtinsBCModule w1;
              commonBuiltins = {''__do_print'', ''__num_cores''}
          in Inr (on_module (\<lambda>module. lSetAsInternal module commonBuiltins) w2))"

definition lLinkTargetBuiltins :: "Globals \<Rightarrow> world \<Rightarrow> fatal + world" where
  "lLinkTargetBuiltins g w =
     (case ISPCTargetLib g of
        None \<Rightarrow> Inl (AssertFailed ''target'')
      | Some target \<Rightarrow>
          let (targetBCModule, w1) = getLLVMModule target w in
          (case deref w1 targetBCModule of
             None \<Rightarrow> Inl (FATAL ''null pointer dereference: targetBCModule'')
           | Some bc \<Rightarrow>
               let targetBuiltins =
                     set (filter (\<lambda>name. \<not> lStartsWithLLVM name) (map fn_name (mod_functions bc)));
                   w2 = w1\<lparr>store := (store w1)[the targetBCModule :=
                                      Some (bc\<lparr>mod_datalayout := TargetDataLayout g\<rparr>)]\<rparr>;
                   w3 = lAddBitcodeToModule g targetBCModule w2
               in Inr (on_module (\<lambda>module. lSetAsInternal module targetBuiltins) w3)))"

definition LinkDispatcher :: "Globals \<Rightarrow> world \<Rightarrow> fatal + world" where
  "LinkDispatcher g w =
     (case DispatchLib g of
        None \<Rightarrow> Inl (AssertFailed ''dispatch'')
      | Some dispatch \<Rightarrow>
          let (dispatchBCModule, w1) = getLLVMModule dispatch w;
              w2 = lAddDeclarationsToModule g dispatchBCModule w1
          in Inr (lAddBitcodeToModule g dispatchBCModule w2))"

text \<open>
  LinkStandardLibraries, with the counter \<^verbatim>\<open>debug_num\<close> it is given by reference.
  \<^verbatim>\<open>
  void ispc::LinkStandardLibraries(llvm::Module *module, int &debug_num) {
      if (g->includeStdlib) {
          lLinkStdlib(module);
          lAddPersistentToLLVMUsed(*module);
          lRemoveUnused(module);
          lRemoveUnusedPersistentFunctions(module);
          debugDumpModule(module, "LinkStdlib", debug_num++);
      } else {
          lAddPersistentToLLVMUsed(*module);
      }
      lLinkCommonBuiltins(module);
      lRemoveUnused(module);
      debugDumpModule(module, "LinkCommonBuiltins", debug_num++);
      lLinkTargetBuiltins(module);
      lRemoveUnused(module);
      debugDumpModule(module, "LinkTargetBuiltins", debug_num++);
      lSetInternalLinkageGlobals(module);
      lCheckModuleIntrinsics(module);
  }
  \<close>
\<close>

definition LinkStandardLibraries :: "Globals \<Rightarrow> world \<Rightarrow> int \<Rightarrow> fatal + world \<times> int" where
  "LinkStandardLibraries g w debug_num =
     and_then
       (if includeStdlib g then
          and_then (lLinkStdlib g w) (\<lambda>w1.
          and_then (Inr (on_module (lAddPersistentToLLVMUsed (preservation g)) w1)) (\<lambda>w2.
          and_then (Inr (on_module lRemoveUnused w2)) (\<lambda>w3.
          and_then (on_module_fatal (lRemoveUnusedPersistentFunctions (preservation g)) w3) (\<lambda>w4.
          Inr (debugDumpModule g ''LinkStdlib'' debug_num w4, debug_num + 1)))))
        else Inr (on_module (lAddPersistentToLLVMUsed (preservation g)) w, debug_num))
       (\<lambda>(w5, debug_num1).
          and_then (lLinkCommonBuiltins g w5) (\<lambda>w6.
          and_then (Inr (on_module lRemoveUnused w6)) (\<lambda>w7.
          and_then (Inr (debugDumpModule g ''LinkCommonBuiltins'' debug_num1 w7)) (\<lambda>w8.
          and_then (lLinkTargetBuiltins g w8) (\<lambda>w9.
          and_then (Inr (on_module lRemoveUnused w9)) (\<lambda>w10.
          and_then (Inr (debugDumpModule g ''LinkTargetBuiltins'' (debug_num1 + 1) w10)) (\<lambda>w11.
          and_then (Inr (on_module lSetInternalLinkageGlobals w11)) (\<lambda>w12.
          and_then (lCheckModuleIntrinsics (toolkit g) (the_module w12)) (\<lambda>u.
          Inr (w12, debug_num1 + 2))))))))))"

section \<open>Notions the properties are stated with\<close>

text \<open>
  What an operand of the marker resolves to: the operand 0 of a constant expression (the
  bitcast wrapper), the operand itself otherwise; and whether a value is a function.
\<close>

definition marker_operand_value :: "llvm_value \<Rightarrow> llvm_value" where
  "marker_operand_value C = (case C of VConstantExpr op0 \<Rightarrow> op0 | _ \<Rightarrow> C)"

definition isa_Function :: "llvm_value \<Rightarrow> bool" where
  "isa_Function val = (case val of VFunction name \<Rightarrow> True | _ \<Rightarrow> False)"

text \<open>
  An LLVM type can be represented in the source language when lLLVMTypeToISPCType gives a
  type for it. The translated type of a function is the function type of the translated
  return and parameter types, when all of them can be represented. The table of
  intrinsic symbols holds what the adaptation registered when each of its symbols is the
  one the adaptation makes for the function the symbol stands for.
\<close>

definition representable :: "LLVMTypes \<Rightarrow> llvm_type \<Rightarrow> bool" where
  "representable T t = (lLLVMTypeToISPCType T t False \<noteq> None)"

definition translated_type :: "LLVMTypes \<Rightarrow> func \<Rightarrow> ispc_type option" where
  "translated_type T func =
     (case lLLVMTypeToISPCType T (fn_ret func) False of
        None \<Rightarrow> None
      | Some returnType \<Rightarrow>
          if list_all (representable T) (fn_params func)
          then Some (FunctionType returnType
                       (map (\<lambda>t. the (lLLVMTypeToISPCType T t False)) (fn_params func)))
          else None)"

definition adapted_symbol :: "LLVMTypes \<Rightarrow> func \<Rightarrow> Symbol option" where
  "adapted_symbol T func =
     (case translated_type T func of
        None \<Rightarrow> None
      | Some ty \<Rightarrow> Some \<lparr>sym_name = fn_name func, sym_pos = ''LLVM Intrinsic'',
                          sym_kind = FunctionKind, sym_type = ty, sym_function = Some func\<rparr>)"

definition registered_by_adaptation :: "LLVMTypes \<Rightarrow> frontend \<Rightarrow> bool" where
  "registered_by_adaptation T st =
     list_all (\<lambda>s. case sym_function s of
                      None \<Rightarrow> False
                    | Some func \<Rightarrow> adapted_symbol T func = Some s) (intrinsics st)"

text \<open>
  A member of a group is used by live code when an operand of a function or of a global
  variable of the module that the prune after the anchor keeps holds it: as the operand
  itself, or as an operand of a constant the operand is built of. The constant array
  that the anchor builds for its marker is left out: an equal array in the module is the
  same constant, and its use of the member is the marker's own.
\<close>

definition holds_besides :: "llvm_value \<Rightarrow> llvm_value \<Rightarrow> llvm_value \<Rightarrow> bool" where
  "holds_besides A val op =
     (op = val \<or> list_ex (\<lambda>c. c \<noteq> A \<and> val \<in> set (constant_operands c)) (subvalues op))"

definition used_by_live :: "registry \<Rightarrow> llvm_module \<Rightarrow> llvm_value \<Rightarrow> bool" where
  "used_by_live reg M val =
     (let M1 = lAddPersistentToLLVMUsed reg M;
          A = VConstantArray (lAnchorConstPtrs reg M)
      in list_ex (\<lambda>F. VFunction (fn_name F) \<in> alive M1 \<and>
                       list_ex (holds_besides A val) (fn_operands F)) (mod_functions M) \<or>
         list_ex (\<lambda>G. VGlobalVariable (gv_name G) \<in> alive M1 \<and>
                       list_ex (holds_besides A val) (gv_operands G)) (mod_globals M))"

text \<open>
  A module is pruned when dead-code elimination would keep every function and global
  variable it has. A name is persistent when it is a persistent function or a member of
  a persistent group. The marker of a module is in order when every global variable
  named \<^verbatim>\<open>llvm.compiler.used\<close> is initialized with pointers to functions of the module
  that have persistent names.
\<close>

definition all_alive :: "llvm_module \<Rightarrow> bool" where
  "all_alive M =
     (list_all (\<lambda>F. VFunction (fn_name F) \<in> alive M) (mod_functions M) \<and>
      list_all (\<lambda>G. VGlobalVariable (gv_name G) \<in> alive M) (mod_globals M))"

definition persistent_name :: "registry \<Rightarrow> string \<Rightarrow> bool" where
  "persistent_name reg n =
     (n \<in> fst ` set (persistentFuncs reg) \<or>
      list_ex (\<lambda>(g, fs). n \<in> set fs) (persistentGroups reg))"

definition good_operands :: "registry \<Rightarrow> llvm_module \<Rightarrow> llvm_value list \<Rightarrow> bool" where
  "good_operands reg M P =
     list_all (\<lambda>op. case op of
                 VFunction n \<Rightarrow> persistent_name reg n \<and> getFunction M n \<noteq> None
               | _ \<Rightarrow> False) P"

definition marker_in_order :: "registry \<Rightarrow> llvm_module \<Rightarrow> bool" where
  "marker_in_order reg M =
     list_all (\<lambda>G. gv_name G \<noteq> ''llvm.compiler.used'' \<or>
                    (case gv_init G of
                       Some (VConstantArray P) \<Rightarrow> good_operands reg M P
                     | _ \<Rightarrow> False))
              (mod_globals M)"

text \<open>
  The stages of LinkStandardLibraries in the spec's words (4.1): step 1 with the standard
  library is the link of the library followed by the Protect-Prune Engine; steps 2 to 5
  are the common-builtins stage, the target-builtins stage, the demotion of the global
  variables and the intrinsic check.
\<close>

definition stdlib_stage :: "Globals \<Rightarrow> world \<Rightarrow> int \<Rightarrow> fatal + world \<times> int" where
  "stdlib_stage g w debug_num =
     and_then (lLinkStdlib g w) (\<lambda>w1.
     and_then (on_module_fatal (protect_prune (preservation g)) w1) (\<lambda>w4.
     Inr (debugDumpModule g ''LinkStdlib'' debug_num w4, debug_num + 1)))"

definition builtin_stages :: "Globals \<Rightarrow> world \<times> int \<Rightarrow> fatal + world \<times> int" where
  "builtin_stages g =
     (\<lambda>(w, debug_num).
        and_then (lLinkCommonBuiltins g w) (\<lambda>w1.
        and_then (lLinkTargetBuiltins g
                    (debugDumpModule g ''LinkCommonBuiltins'' debug_num (on_module lRemoveUnused w1)))
          (\<lambda>w2.
             let w3 = on_module lSetInternalLinkageGlobals
                        (debugDumpModule g ''LinkTargetBuiltins'' (debug_num + 1)
                           (on_module lRemoveUnused w2))
             in and_then (lCheckModuleIntrinsics (toolkit g) (the_module w3))
                         (\<lambda>u. Inr (w3, debug_num + 2)))))"

text \<open>
  The module objects that were there before a call are untouched by it when the store
  afterwards begins with the store before: the call has only made new objects.
\<close>

definition objects_untouched :: "world \<Rightarrow> world \<Rightarrow> bool" where
  "objects_untouched w w' =
     (length (store w) \<le> length (store w') \<and> take (length (store w)) (store w') = store w)"

text \<open>
  What the link of lAddBitcodeToModule brings into the target module from the library:
  nothing when the link fails, and otherwise the global values the needed-only link
  needs, seen from the target module with the declarations moved by hand.
\<close>

definition needed_by_link :: "bool \<Rightarrow> llvm_module \<Rightarrow> llvm_module \<Rightarrow> llvm_value set" where
  "needed_by_link xe bcModule module =
     (let bc1 = (if xe then lUpdateIntrinsicsAttributes bcModule else bcModule);
          module1 = lMoveUnusedDeclarations bc1 (mod_functions bc1) module;
          bc2 = bc1\<lparr>mod_named_md := filter (\<lambda>md. md \<noteq> ''llvm.ident'') (mod_named_md bc1)\<rparr>
      in if link_fails module1 bc2 then {} else link_needed module1 bc2)"

section \<open>Concrete modules for the instances below\<close>

definition mk_module :: "func list \<Rightarrow> gvar list \<Rightarrow> llvm_module" where
  "mk_module fs gs =
     \<lparr>mod_functions = fs, mod_globals = gs, mod_triple = ''x86_64-unknown-linux-gnu'',
      mod_datalayout = ''e-m:e-i64:64'', mod_named_md = []\<rparr>"

definition mk_decl :: "string \<Rightarrow> func" where
  "mk_decl name =
     \<lparr>fn_name = name, fn_ret = VoidTy, fn_params = [], fn_attrs = [],
      fn_linkage = ExternalLinkage, fn_body = None\<rparr>"

definition mk_def :: "string \<Rightarrow> linkage \<Rightarrow> llvm_value list \<Rightarrow> func" where
  "mk_def name lk ops =
     \<lparr>fn_name = name, fn_ret = VoidTy, fn_params = [], fn_attrs = [],
      fn_linkage = lk, fn_body = Some ops\<rparr>"

definition mk_marker :: "string \<Rightarrow> llvm_value list \<Rightarrow> gvar" where
  "mk_marker name ops =
     \<lparr>gv_name = name, gv_linkage = AppendingLinkage, gv_section = ''llvm.metadata'',
      gv_init = Some (VConstantArray ops)\<rparr>"

definition mk_var :: "string \<Rightarrow> linkage \<Rightarrow> gvar" where
  "mk_var name lk =
     \<lparr>gv_name = name, gv_linkage = lk, gv_section = '''', gv_init = Some (VConstantData ''i32 0'')\<rparr>"

text \<open>A module with two definitions and a declaration, for the linkage normalizer.\<close>

definition ex_linkage_module :: llvm_module where
  "ex_linkage_module =
     mk_module [mk_def ''__do_print'' ExternalLinkage [], mk_decl ''__num_cores'',
                mk_def ''main'' ExternalLinkage [VFunction ''__do_print'']] []"

text \<open>
  A backend that knows one x86 intrinsic, and declarations of it with the right and
  with a wrong parameter count, next to an intrinsic outside the x86 namespace whose
  declaration the backend would not accept either.
\<close>

definition ex_backend :: backend where
  "ex_backend =
     \<lparr>lookupIntrinsicID = (\<lambda>n. if n = ''llvm.x86.sse.sqrt.ss'' then 7 else 0),
      Intrinsic_getType = (\<lambda>i. FunctionTy (VectorTy FloatTy 4) [VectorTy FloatTy 4])\<rparr>"

definition ex_sqrt_good :: func where
  "ex_sqrt_good = (mk_decl ''llvm.x86.sse.sqrt.ss'')
     \<lparr>fn_ret := VectorTy FloatTy 4, fn_params := [VectorTy FloatTy 4]\<rparr>"



text \<open>
  A module whose marker holds a global variable and a function, each with the marker as
  its only use.
\<close>

definition ex_marker_with_variable :: gvar where
  "ex_marker_with_variable =
     mk_marker ''llvm.compiler.used'' [VGlobalVariable ''__math_lib'', VFunction ''__keep'']"

definition ex_marker_module :: llvm_module where
  "ex_marker_module =
     mk_module [mk_def ''__keep'' InternalLinkage [], mk_def ''main'' ExternalLinkage []]
               [mk_var ''__math_lib'' ExternalLinkage, ex_marker_with_variable]"

text \<open>The same module with a second use of the variable and of the function.\<close>

definition ex_marker_module_used :: llvm_module where
  "ex_marker_module_used =
     mk_module [mk_def ''__keep'' InternalLinkage [],
                mk_def ''main'' ExternalLinkage [VFunction ''__keep'']]
               [mk_var ''__math_lib'' ExternalLinkage, ex_marker_with_variable]"

text \<open>
  The type objects of a target with four lanes, 32-bit masks and untyped pointers, and
  three intrinsic declarations: one whose types all have a source-language type, one
  with a 128-bit integer as its return type, one with a 128-bit integer as its second
  parameter.
\<close>

definition ex_types :: LLVMTypes where
  "ex_types =
     \<lparr>VoidType = VoidTy, BoolType = IntegerTy 1, Int8Type = IntegerTy 8,
      Int16Type = IntegerTy 16, Int32Type = IntegerTy 32, Int64Type = IntegerTy 64,
      Float16Type = HalfTy, FloatType = FloatTy, DoubleType = DoubleTy,
      Int8VectorType = VectorTy (IntegerTy 8) 4, Int16VectorType = VectorTy (IntegerTy 16) 4,
      Int32VectorType = VectorTy (IntegerTy 32) 4, Int64VectorType = VectorTy (IntegerTy 64) 4,
      Float16VectorType = VectorTy HalfTy 4, FloatVectorType = VectorTy FloatTy 4,
      DoubleVectorType = VectorTy DoubleTy 4, MaskType = VectorTy (IntegerTy 32) 4,
      Int8PointerType = OpaquePointerTy, Int16PointerType = OpaquePointerTy,
      Int32PointerType = OpaquePointerTy, Int64PointerType = OpaquePointerTy,
      Float16PointerType = OpaquePointerTy, FloatPointerType = OpaquePointerTy,
      DoublePointerType = OpaquePointerTy,
      Int8VectorPointerType = OpaquePointerTy, Int16VectorPointerType = OpaquePointerTy,
      Int32VectorPointerType = OpaquePointerTy, Int64VectorPointerType = OpaquePointerTy,
      Float16VectorPointerType = OpaquePointerTy, FloatVectorPointerType = OpaquePointerTy,
      DoubleVectorPointerType = OpaquePointerTy\<rparr>"

definition ex_intr_ok :: func where
  "ex_intr_ok = (mk_decl ''llvm.x86.sse.max.ps'')
     \<lparr>fn_ret := VectorTy FloatTy 4, fn_params := [VectorTy FloatTy 4, VectorTy FloatTy 4]\<rparr>"

definition ex_intr_bad_ret :: func where
  "ex_intr_bad_ret = (mk_decl ''llvm.bad.ret'')
     \<lparr>fn_ret := IntegerTy 128, fn_params := [IntegerTy 32]\<rparr>"

definition ex_intr_bad_param :: func where
  "ex_intr_bad_param = (mk_decl ''llvm.bad.param'')
     \<lparr>fn_ret := VoidTy, fn_params := [IntegerTy 32, IntegerTy 128, IntegerTy 128]\<rparr>"

definition ex_frontend :: frontend where
  "ex_frontend = \<lparr>intrinsics = [], diagnostics = []\<rparr>"

text \<open>
  A registry with two persistent groups and no persistent function, and a module after
  the standard library is linked: \<^verbatim>\<open>main\<close> calls one member of the first group; no member
  of the second group is referenced. In the second module the member \<^verbatim>\<open>__scatter32\<close> is an
  externally visible definition.
\<close>

definition ex_registry :: registry where
  "ex_registry =
     \<lparr>persistentGroups = [(''masked_32'', [''__masked_load_32'', ''__masked_store_32'']),
                          (''gather_32'', [''__gather32'', ''__scatter32''])],
      persistentFuncs = []\<rparr>"

definition ex_pp_module :: llvm_module where
  "ex_pp_module =
     mk_module [mk_def ''main'' ExternalLinkage [VFunction ''__masked_load_32''],
                mk_decl ''__masked_load_32'', mk_decl ''__masked_store_32'',
                mk_decl ''__gather32'', mk_def ''__scatter32'' InternalLinkage []] []"

definition ex_pp_result :: llvm_module where
  "ex_pp_result =
     mk_module [mk_def ''main'' ExternalLinkage [VFunction ''__masked_load_32''],
                mk_decl ''__masked_load_32'', mk_decl ''__masked_store_32'']
               [mk_marker ''llvm.compiler.used''
                  [VFunction ''__masked_load_32'', VFunction ''__masked_store_32'']]"

definition ex_pp_module_ext :: llvm_module where
  "ex_pp_module_ext =
     mk_module [mk_def ''main'' ExternalLinkage [VFunction ''__masked_load_32''],
                mk_decl ''__masked_load_32'', mk_decl ''__masked_store_32'',
                mk_decl ''__gather32'', mk_def ''__scatter32'' ExternalLinkage []] []"

definition ex_pp_result_ext :: llvm_module where
  "ex_pp_result_ext =
     mk_module [mk_def ''main'' ExternalLinkage [VFunction ''__masked_load_32''],
                mk_decl ''__masked_load_32'', mk_decl ''__masked_store_32'',
                mk_def ''__scatter32'' ExternalLinkage []]
               [mk_marker ''llvm.compiler.used''
                  [VFunction ''__masked_load_32'', VFunction ''__masked_store_32'']]"

text \<open>
  Two modules in which a member of the first group has a use that the re-closure does
  not count: its only user is an internal function that nothing calls; its only user, a
  member of the second group that the anchor keeps for the first prune, holds it in an
  array equal to the one the anchor builds.
\<close>

definition ex_pp_module_dead_user :: llvm_module where
  "ex_pp_module_dead_user =
     mk_module [mk_def ''main'' ExternalLinkage [],
                mk_def ''__caller'' InternalLinkage [VFunction ''__masked_load_32''],
                mk_decl ''__masked_load_32'', mk_decl ''__masked_store_32''] []"

definition ex_pp_module_equal_array :: llvm_module where
  "ex_pp_module_equal_array =
     mk_module [mk_def ''main'' ExternalLinkage [],
                mk_def ''__caller'' InternalLinkage [VFunction ''__gather32''],
                mk_def ''__gather32'' InternalLinkage
                  [VConstantArray [VFunction ''__masked_load_32'', VFunction ''__masked_store_32'',
                                   VFunction ''__gather32'']],
                mk_decl ''__masked_load_32'', mk_decl ''__masked_store_32''] []"

text \<open>
  A module that already has a marker, with the persistent function it holds, and the
  registry that names this function.
\<close>

definition ex_keep_registry :: registry where
  "ex_keep_registry = \<lparr>persistentGroups = [], persistentFuncs = [(''__keep'', 0)]\<rparr>"

definition ex_module_with_marker :: llvm_module where
  "ex_module_with_marker =
     mk_module [mk_def ''__keep'' InternalLinkage []]
               [mk_marker ''llvm.compiler.used'' [VFunction ''__keep'']]"

text \<open>
  The module with the persistent function alone, before any run of the engine, and the
  module a second run of the engine ends with.
\<close>

definition ex_keep_module :: llvm_module where
  "ex_keep_module = mk_module [mk_def ''__keep'' InternalLinkage []] []"

definition ex_module_with_two_markers :: llvm_module where
  "ex_module_with_two_markers =
     mk_module [mk_def ''__keep'' InternalLinkage []]
               [mk_marker ''llvm.compiler.used.1'' [VFunction ''__keep''],
                mk_marker ''llvm.compiler.used'' [VFunction ''__keep'']]"

text \<open>
  A global state for a single-target composition without debug dumps, whose registry has
  one library, kept in cell 0 of the store, for every stage; and a library module with a
  helper that the target module does not ask for, the intrinsic the helper uses, and a
  declaration nobody uses.
\<close>

definition ex_globals :: Globals where
  "ex_globals =
     \<lparr>includeStdlib = False, isMultiTargetCompilation = False, isXeTarget = False,
      TargetSuffix = ''_sse4'', TargetDataLayout = ''e-m:e-i64:64'', ISAString = ''sse4'',
      off_stages = {}, debug_stages = {}, dumpFile = False, dumpFilePath = '''',
      ISPCStdLib = Some \<lparr>lib_module = 0\<rparr>, BuiltinsCLib = Some \<lparr>lib_module = 0\<rparr>,
      ISPCTargetLib = Some \<lparr>lib_module = 0\<rparr>, DispatchLib = Some \<lparr>lib_module = 0\<rparr>,
      preservation = ex_registry, toolkit = ex_backend\<rparr>"

definition ex_library :: llvm_module where
  "ex_library =
     mk_module [mk_decl ''llvm.sqrt.f32'',
                mk_def ''__helper'' ExternalLinkage [VFunction ''llvm.sqrt.f32''],
                mk_decl ''__unused_decl''] []"

definition ex_world :: world where
  "ex_world =
     \<lparr>the_module = mk_module [mk_def ''main'' ExternalLinkage []] [],
      store = [Some ex_library], reported = [], dumped = []\<rparr>"

text \<open>
  The scenario of the spec: a library that defines the members of the two groups, and the
  world of a composition whose target module is the example module above.
\<close>

definition ex_builtins_library :: llvm_module where
  "ex_builtins_library =
     mk_module [mk_def ''__masked_load_32'' ExternalLinkage [],
                mk_def ''__masked_store_32'' ExternalLinkage [],
                mk_def ''__gather32'' ExternalLinkage [VFunction ''llvm.x86.sse.sqrt.ss''],
                ex_sqrt_good] []"

definition ex_compose_world :: world where
  "ex_compose_world =
     \<lparr>the_module = ex_pp_module, store = [Some ex_builtins_library], reported = [], dumped = []\<rparr>"

definition ex_composed_module :: llvm_module where
  "ex_composed_module =
     mk_module [mk_def ''main'' ExternalLinkage [VFunction ''__masked_load_32''],
                mk_def ''__masked_load_32'' InternalLinkage [],
                mk_def ''__masked_store_32'' InternalLinkage []]
               [mk_marker ''llvm.compiler.used''
                  [VFunction ''__masked_load_32'', VFunction ''__masked_store_32'']]"

text \<open>
  The same library for a target module that declares and calls the helper.
\<close>

definition ex_world_with_call :: world where
  "ex_world_with_call =
     \<lparr>the_module = mk_module [mk_def ''main'' ExternalLinkage [VFunction ''__helper''],
                              mk_decl ''__helper''] [],
      store = [Some ex_library], reported = [], dumped = []\<rparr>"

section \<open>Uses, liveness and dead-code elimination: basic facts\<close>

subsection \<open>Operands and uses\<close>

lemma subvalues_self: "op \<in> set (subvalues op)"
  by (cases op) simp_all

lemma subvalues_trans:
  "c \<in> set (subvalues op) \<Longrightarrow> v \<in> set (subvalues c) \<Longrightarrow> v \<in> set (subvalues op)"
  by (induction op) auto

lemma constant_operands_subvalues: "v \<in> set (constant_operands c) \<Longrightarrow> v \<in> set (subvalues c)"
  by (cases c) (auto intro: subvalues_self)

lemma subvalues_operand:
  "c \<in> set (subvalues op) \<Longrightarrow> v \<in> set (constant_operands c) \<Longrightarrow> v \<in> set (subvalues op)"
  by (blast intro: subvalues_trans constant_operands_subvalues)

lemma subvalues_user:
  "val \<in> set (subvalues op) \<Longrightarrow> val \<noteq> op \<Longrightarrow>
   \<exists>c \<in> set (subvalues op). val \<in> set (constant_operands c)"
proof (induction op)
  case (VConstantExpr v)
  then have v: "val \<in> set (subvalues v)" by simp
  show ?case
  proof (cases "val = v")
    case True
    then show ?thesis by (intro bexI[of _ "VConstantExpr v"]) simp_all
  next
    case False
    from VConstantExpr.IH[OF v False] show ?thesis by auto
  qed
next
  case (VConstantArray vs)
  then obtain x where x: "x \<in> set vs" "val \<in> set (subvalues x)" by auto
  show ?case
  proof (cases "val = x")
    case True
    with x(1) show ?thesis by (intro bexI[of _ "VConstantArray vs"]) simp_all
  next
    case False
    from VConstantArray.IH[OF x(1) x(2) False] x(1) show ?thesis by auto
  qed
qed simp_all

lemma value_refs_set:
  "set (value_refs ops) = {r. isGlobalValue r \<and> (\<exists>op \<in> set ops. r \<in> set (subvalues op))}"
  by (auto simp: value_refs_def)

lemma isGlobalValue_simps [simp]:
  "isGlobalValue (VFunction n)" "isGlobalValue (VGlobalVariable n)"
  "\<not> isGlobalValue (VConstantExpr v)" "\<not> isGlobalValue (VConstantArray vs)"
  "\<not> isGlobalValue (VConstantData d)"
  by (simp_all add: isGlobalValue_def)

lemma set_map_filter_eq: "set (List.map_filter f xs) = {y. \<exists>x \<in> set xs. f x = Some y}"
  by (induction xs) (auto split: option.splits)

text \<open>The uses by constants, as a sum over the set of the constants of the module.\<close>

lemma numUses_alt:
  "numUses M val =
     count_list (all_operands M) val +
     (\<Sum>c \<in> set (concat (map subvalues (all_operands M))). count_list (constant_operands c) val)"
proof -
  have "sum_list (map (\<lambda>c. count_list (constant_operands c) val) (constants M)) =
        (\<Sum>c \<in> set (constants M). count_list (constant_operands c) val)"
    unfolding constants_def by (rule sum_list_distinct_conv_sum_set) simp
  then show ?thesis by (simp add: numUses_def constants_def)
qed

lemma numUses_pos_iff:
  "(numUses M val > 0) = (\<exists>op \<in> set (all_operands M). val \<in> set (subvalues op))"
proof
  assume "numUses M val > 0"
  then consider "count_list (all_operands M) val > 0"
    | "(\<Sum>c \<in> set (concat (map subvalues (all_operands M))).
          count_list (constant_operands c) val) > 0"
    by (auto simp: numUses_alt)
  then show "\<exists>op \<in> set (all_operands M). val \<in> set (subvalues op)"
  proof cases
    case 1
    then have "val \<in> set (all_operands M)"
      using count_list_0_iff[of "all_operands M" val] by auto
    then show ?thesis by (auto intro: subvalues_self)
  next
    case 2
    then obtain c where c: "c \<in> set (concat (map subvalues (all_operands M)))"
      "count_list (constant_operands c) val > 0"
      by (metis (no_types, lifting) sum.neutral not_gr_zero)
    from c(2) have "val \<in> set (constant_operands c)"
      using count_list_0_iff[of "constant_operands c" val] by auto
    with c(1) show ?thesis by (auto intro: subvalues_operand)
  qed
next
  assume "\<exists>op \<in> set (all_operands M). val \<in> set (subvalues op)"
  then obtain op where op: "op \<in> set (all_operands M)" "val \<in> set (subvalues op)" by blast
  show "numUses M val > 0"
  proof (cases "val = op")
    case True
    with op(1) have "count_list (all_operands M) val > 0"
      using count_list_0_iff[of "all_operands M" val] by auto
    then show ?thesis by (simp add: numUses_alt)
  next
    case False
    from subvalues_user[OF op(2) False] obtain c where
      c: "c \<in> set (subvalues op)" "val \<in> set (constant_operands c)" by blast
    from c(2) have pos: "count_list (constant_operands c) val > 0"
      using count_list_0_iff[of "constant_operands c" val] by auto
    from c(1) op(1) have mem: "c \<in> set (concat (map subvalues (all_operands M)))" by auto
    have "(\<Sum>c \<in> set (concat (map subvalues (all_operands M))).
             count_list (constant_operands c) val) > 0"
      using pos mem by (subst sum_pos2[of _ c]) auto
    then show ?thesis by (simp add: numUses_alt)
  qed
qed

lemma numUses_pos:
  assumes "op \<in> set (all_operands M)" "val \<in> set (subvalues op)"
  shows "numUses M val > 0"
  using assms numUses_pos_iff by blast

subsection \<open>The dependency graph\<close>

lemma dependencies_iff:
  "((x, y) \<in> set (dependencies M)) =
   ((\<exists>F \<in> set (mod_functions M). x = VFunction (fn_name F) \<and> y \<in> set (value_refs (fn_operands F))) \<or>
    (\<exists>G \<in> set (mod_globals M). x = VGlobalVariable (gv_name G) \<and> y \<in> set (value_refs (gv_operands G))))"
  by (auto simp: dependencies_def)

lemma dce_roots_iff:
  "(x \<in> set (dce_roots M)) =
   ((\<exists>F \<in> set (mod_functions M). x = VFunction (fn_name F) \<and> \<not> isDeclaration F \<and>
        \<not> isDiscardableIfUnused (fn_linkage F)) \<or>
    (\<exists>G \<in> set (mod_globals M). x = VGlobalVariable (gv_name G) \<and> gv_init G \<noteq> None \<and>
        \<not> isDiscardableIfUnused (gv_linkage G)))"
  by (auto simp: dce_roots_def)

lemma alive_root: "x \<in> set (dce_roots M) \<Longrightarrow> x \<in> alive M"
  by (simp add: alive_def)

lemma alive_step: "x \<in> alive M \<Longrightarrow> (x, y) \<in> set (dependencies M) \<Longrightarrow> y \<in> alive M"
  unfolding alive_def by (auto intro: trancl_into_trancl r_into_trancl)

lemma alive_subsetI:
  assumes "set (dce_roots M) \<subseteq> S"
    and "\<And>x y. x \<in> S \<Longrightarrow> (x, y) \<in> set (dependencies M) \<Longrightarrow> y \<in> S"
  shows "alive M \<subseteq> S"
proof
  fix y assume "y \<in> alive M"
  then consider "y \<in> set (dce_roots M)"
    | r where "r \<in> set (dce_roots M)" "(r, y) \<in> (set (dependencies M))\<^sup>+"
    by (auto simp: alive_def)
  then show "y \<in> S"
  proof cases
    case 1
    with assms(1) show ?thesis by auto
  next
    case 2
    from 2(2) 2(1) show ?thesis
      by (induction rule: trancl_induct) (use assms in auto)
  qed
qed

lemma alive_cases:
  assumes "y \<in> alive M"
  shows "y \<in> set (dce_roots M) \<or> (\<exists>x. x \<in> alive M \<and> (x, y) \<in> set (dependencies M))"
proof -
  from assms consider "y \<in> set (dce_roots M)"
    | r where "r \<in> set (dce_roots M)" "(r, y) \<in> (set (dependencies M))\<^sup>+"
    by (auto simp: alive_def)
  then show ?thesis
  proof cases
    case 1 then show ?thesis by simp
  next
    case 2
    from 2(2) obtain x where rx: "(r, x) \<in> (set (dependencies M))\<^sup>*"
      and xy: "(x, y) \<in> set (dependencies M)"
      by (meson tranclD2)
    from rx 2(1) have "x \<in> alive M"
      unfolding alive_def by (auto simp: rtrancl_eq_or_trancl)
    with xy show ?thesis by blast
  qed
qed

lemma alive_mono:
  assumes "set (dce_roots M) \<subseteq> set (dce_roots M')"
    and "set (dependencies M) \<subseteq> set (dependencies M')"
  shows "alive M \<subseteq> alive M'"
  by (rule alive_subsetI) (use assms alive_root alive_step in blast)+

subsection \<open>Dead-code elimination\<close>

lemma GlobalDCE_simps:
  "mod_functions (GlobalDCE M) = filter (\<lambda>F. VFunction (fn_name F) \<in> alive M) (mod_functions M)"
  "mod_globals (GlobalDCE M) = filter (\<lambda>G. VGlobalVariable (gv_name G) \<in> alive M) (mod_globals M)"
  by (simp_all add: GlobalDCE_def)

lemma dce_roots_GlobalDCE: "dce_roots (GlobalDCE M) = dce_roots M"
proof -
  have f: "filter (\<lambda>F. \<not> isDeclaration F \<and> \<not> isDiscardableIfUnused (fn_linkage F))
             (filter (\<lambda>F. VFunction (fn_name F) \<in> alive M) (mod_functions M)) =
           filter (\<lambda>F. \<not> isDeclaration F \<and> \<not> isDiscardableIfUnused (fn_linkage F))
             (mod_functions M)"
    unfolding filter_filter
    by (rule filter_cong[OF refl]) (use alive_root[of _ M] dce_roots_iff[of _ M] in blast)
  have g: "filter (\<lambda>G. gv_init G \<noteq> None \<and> \<not> isDiscardableIfUnused (gv_linkage G))
             (filter (\<lambda>G. VGlobalVariable (gv_name G) \<in> alive M) (mod_globals M)) =
           filter (\<lambda>G. gv_init G \<noteq> None \<and> \<not> isDiscardableIfUnused (gv_linkage G))
             (mod_globals M)"
    unfolding filter_filter
    by (rule filter_cong[OF refl]) (use alive_root[of _ M] dce_roots_iff[of _ M] in blast)
  show ?thesis
    unfolding dce_roots_def GlobalDCE_simps f g ..
qed

lemma dependencies_GlobalDCE:
  "set (dependencies (GlobalDCE M)) = {(x, y) \<in> set (dependencies M). x \<in> alive M}"
  by (auto simp: dependencies_iff GlobalDCE_simps)

lemma alive_GlobalDCE: "alive (GlobalDCE M) = alive M"
proof
  show "alive (GlobalDCE M) \<subseteq> alive M"
    by (rule alive_mono) (auto simp: dce_roots_GlobalDCE dependencies_GlobalDCE)
  show "alive M \<subseteq> alive (GlobalDCE M)"
  proof (rule alive_subsetI)
    show "set (dce_roots M) \<subseteq> alive (GlobalDCE M)"
      using alive_root[of _ "GlobalDCE M"] by (auto simp: dce_roots_GlobalDCE)
  next
    fix x y assume x: "x \<in> alive (GlobalDCE M)" and xy: "(x, y) \<in> set (dependencies M)"
    from x \<open>alive (GlobalDCE M) \<subseteq> alive M\<close> have "x \<in> alive M" by auto
    with xy have "(x, y) \<in> set (dependencies (GlobalDCE M))"
      by (simp add: dependencies_GlobalDCE)
    with x show "y \<in> alive (GlobalDCE M)" by (rule alive_step)
  qed
qed

lemma GlobalDCE_idem: "GlobalDCE (GlobalDCE M) = GlobalDCE M"
  by (simp add: GlobalDCE_def alive_GlobalDCE[unfolded GlobalDCE_def])

lemma find_filter_name:
  "find (\<lambda>F. f F = n) (filter (\<lambda>F. Q (f F)) xs) = (if Q n then find (\<lambda>F. f F = n) xs else None)"
  by (induction xs) auto

lemma getFunction_GlobalDCE:
  "getFunction (GlobalDCE M) n = (if VFunction n \<in> alive M then getFunction M n else None)"
  unfolding getFunction_def GlobalDCE_simps
  using find_filter_name[of fn_name n "\<lambda>n. VFunction n \<in> alive M" "mod_functions M"] by simp

lemma getNamedGlobal_GlobalDCE:
  "getNamedGlobal (GlobalDCE M) n = (if VGlobalVariable n \<in> alive M then getNamedGlobal M n else None)"
  unfolding getNamedGlobal_def GlobalDCE_simps
  using find_filter_name[of gv_name n "\<lambda>n. VGlobalVariable n \<in> alive M" "mod_globals M"] by simp

section \<open>Properties of the linkage normalizer\<close>

lemma lSetAsInternal_functions_nth:
  assumes "i < length (mod_functions module)"
  shows "mod_functions (lSetAsInternal module functions) ! i =
         (if \<not> isDeclaration (mod_functions module ! i) \<and>
             fn_name (mod_functions module ! i) \<in> functions
          then (mod_functions module ! i)\<lparr>fn_linkage := InternalLinkage\<rparr>
          else mod_functions module ! i)"
  using assms by (simp add: lSetAsInternal_def)

lemma lSetAsInternal_names:
  "map fn_name (mod_functions (lSetAsInternal module functions)) =
   map fn_name (mod_functions module)"
  by (simp add: lSetAsInternal_def comp_def if_distrib)

text \<open>
  C7. After lSetAsInternal every function with a body whose name is in the set has
  internal linkage and is otherwise as before; every declaration and every function whose
  name is not in the set is unchanged; no function is added, removed, renamed or
  reordered (so a name absent from the module has no effect), and nothing else of the
  module changes.
\<close>

theorem lSetAsInternal_demotes_exactly:
  "length (mod_functions (lSetAsInternal module functions)) = length (mod_functions module) \<and>
   (\<forall>i < length (mod_functions module).
      (\<not> isDeclaration (mod_functions module ! i) \<and> fn_name (mod_functions module ! i) \<in> functions
         \<longrightarrow> fn_linkage (mod_functions (lSetAsInternal module functions) ! i) = InternalLinkage \<and>
             mod_functions (lSetAsInternal module functions) ! i =
               (mod_functions module ! i)\<lparr>fn_linkage := InternalLinkage\<rparr>) \<and>
      (isDeclaration (mod_functions module ! i) \<or> fn_name (mod_functions module ! i) \<notin> functions
         \<longrightarrow> mod_functions (lSetAsInternal module functions) ! i = mod_functions module ! i)) \<and>
   map fn_name (mod_functions (lSetAsInternal module functions)) = map fn_name (mod_functions module) \<and>
   lSetAsInternal module functions =
     module\<lparr>mod_functions := mod_functions (lSetAsInternal module functions)\<rparr>"
proof (intro conjI allI impI)
  show "length (mod_functions (lSetAsInternal module functions)) = length (mod_functions module)"
    by (simp add: lSetAsInternal_def)
next
  fix i assume "i < length (mod_functions module)"
    and "\<not> isDeclaration (mod_functions module ! i) \<and> fn_name (mod_functions module ! i) \<in> functions"
  then show "fn_linkage (mod_functions (lSetAsInternal module functions) ! i) = InternalLinkage"
    and "mod_functions (lSetAsInternal module functions) ! i =
               (mod_functions module ! i)\<lparr>fn_linkage := InternalLinkage\<rparr>"
    by (simp_all add: lSetAsInternal_functions_nth)
next
  fix i assume "i < length (mod_functions module)"
    and "isDeclaration (mod_functions module ! i) \<or> fn_name (mod_functions module ! i) \<notin> functions"
  then show "mod_functions (lSetAsInternal module functions) ! i = mod_functions module ! i"
    by (auto simp add: lSetAsInternal_functions_nth)
next
  show "map fn_name (mod_functions (lSetAsInternal module functions)) = map fn_name (mod_functions module)"
    by (rule lSetAsInternal_names)
next
  show "lSetAsInternal module functions =
     module\<lparr>mod_functions := mod_functions (lSetAsInternal module functions)\<rparr>"
    by (simp add: lSetAsInternal_def)
qed

text \<open>
  The instance: of \<^verbatim>\<open>__do_print\<close> (defined, named), \<^verbatim>\<open>__num_cores\<close> (declared, named) and
  \<^verbatim>\<open>main\<close> (defined, not named), with a name \<^verbatim>\<open>__absent\<close> that the module does not have,
  only the first changes its linkage.
\<close>

theorem lSetAsInternal_demotes_exactly_witness:
  "\<not> isDeclaration (mod_functions ex_linkage_module ! 0) \<and>
   fn_name (mod_functions ex_linkage_module ! 0) \<in> {''__do_print'', ''__num_cores'', ''__absent''} \<and>
   isDeclaration (mod_functions ex_linkage_module ! 1) \<and>
   fn_name (mod_functions ex_linkage_module ! 2) \<notin> {''__do_print'', ''__num_cores'', ''__absent''} \<and>
   fn_linkage (mod_functions (lSetAsInternal ex_linkage_module
                  {''__do_print'', ''__num_cores'', ''__absent''}) ! 0) = InternalLinkage \<and>
   mod_functions (lSetAsInternal ex_linkage_module
                  {''__do_print'', ''__num_cores'', ''__absent''}) ! 1 =
     mod_functions ex_linkage_module ! 1 \<and>
   mod_functions (lSetAsInternal ex_linkage_module
                  {''__do_print'', ''__num_cores'', ''__absent''}) ! 2 =
     mod_functions ex_linkage_module ! 2"
proof -
  let ?names = "{''__do_print'', ''__num_cores'', ''__absent''}"
  have len: "length (mod_functions ex_linkage_module) = 3"
    by (simp add: ex_linkage_module_def mk_module_def)
  have h0: "\<not> isDeclaration (mod_functions ex_linkage_module ! 0) \<and>
            fn_name (mod_functions ex_linkage_module ! 0) \<in> ?names"
    by (simp add: ex_linkage_module_def mk_module_def mk_def_def isDeclaration_def)
  have h1: "isDeclaration (mod_functions ex_linkage_module ! 1)"
    by (simp add: ex_linkage_module_def mk_module_def mk_decl_def isDeclaration_def)
  have h2: "fn_name (mod_functions ex_linkage_module ! 2) \<notin> ?names"
    by (simp add: ex_linkage_module_def mk_module_def mk_def_def)
  from lSetAsInternal_demotes_exactly[of ex_linkage_module ?names]
  have all: "\<forall>i < length (mod_functions ex_linkage_module).
      (\<not> isDeclaration (mod_functions ex_linkage_module ! i) \<and>
       fn_name (mod_functions ex_linkage_module ! i) \<in> ?names
         \<longrightarrow> fn_linkage (mod_functions (lSetAsInternal ex_linkage_module ?names) ! i) = InternalLinkage \<and>
             mod_functions (lSetAsInternal ex_linkage_module ?names) ! i =
               (mod_functions ex_linkage_module ! i)\<lparr>fn_linkage := InternalLinkage\<rparr>) \<and>
      (isDeclaration (mod_functions ex_linkage_module ! i) \<or>
       fn_name (mod_functions ex_linkage_module ! i) \<notin> ?names
         \<longrightarrow> mod_functions (lSetAsInternal ex_linkage_module ?names) ! i =
             mod_functions ex_linkage_module ! i)"
    by blast
  from all len h0 have c0: "fn_linkage (mod_functions (lSetAsInternal ex_linkage_module ?names) ! 0) = InternalLinkage"
    by simp
  from all len h1 have c1: "mod_functions (lSetAsInternal ex_linkage_module ?names) ! 1 =
     mod_functions ex_linkage_module ! 1"
    by simp
  from all len h2 have c2: "mod_functions (lSetAsInternal ex_linkage_module ?names) ! 2 =
     mod_functions ex_linkage_module ! 2"
    by simp
  from h0 h1 h2 c0 c1 c2 show ?thesis by blast
qed

section \<open>Properties of the intrinsic signature checker\<close>








lemma lCheckModuleIntrinsics_ignores_function_type:
  "lCheckModuleIntrinsics be
     (module\<lparr>mod_functions :=
        map (\<lambda>func. func\<lparr>fn_ret := ret func, fn_params := params func\<rparr>) (mod_functions module)\<rparr>) =
   lCheckModuleIntrinsics be module"
proof -
  have one: "\<And>func. lCheckFunction be (func\<lparr>fn_ret := ret func, fn_params := params func\<rparr>) =
                     lCheckFunction be func"
    by (simp add: lCheckFunction_def isIntrinsic_def getIntrinsicID_def getType_def Let_def)
  have "\<And>fs. lCheckFunctions be
                (map (\<lambda>func. func\<lparr>fn_ret := ret func, fn_params := params func\<rparr>) fs) =
              lCheckFunctions be fs"
  proof -
    fix fs show "lCheckFunctions be
                (map (\<lambda>func. func\<lparr>fn_ret := ret func, fn_params := params func\<rparr>) fs) =
              lCheckFunctions be fs"
      by (induction fs) (simp_all add: one split: sum.splits)
  qed
  then show ?thesis by (simp add: lCheckModuleIntrinsics_def)
qed


section \<open>Properties of the re-closure's reading of the marker\<close>

lemma lExtractOperands_char:
  "lExtractOperands M ops S =
     (if \<exists>C \<in> set ops. numUses M (marker_operand_value C) > 1 \<and>
                        \<not> isa_Function (marker_operand_value C)
      then Inl (AssertFailed ''llvm::isa<llvm::Function>(val)'')
      else Inr (S \<union> {name. \<exists>C \<in> set ops. marker_operand_value C = VFunction name \<and>
                                  numUses M (VFunction name) > 1}))"
proof (induction ops arbitrary: S)
  case Nil
  show ?case by simp
next
  case (Cons C rest)
  show ?case
  proof (cases "numUses M (marker_operand_value C) > 1")
    case False
    then have "lExtractOperands M (C # rest) S = lExtractOperands M rest S"
      by (simp add: marker_operand_value_def)
    with False Cons.IH[of S] show ?thesis by auto
  next
    case True
    show ?thesis
    proof (cases "marker_operand_value C")
      case (VFunction name)
      with True have "lExtractOperands M (C # rest) S = lExtractOperands M rest (insert name S)"
        by (simp add: marker_operand_value_def)
      with True VFunction Cons.IH[of "insert name S"] show ?thesis
        by (auto simp: isa_Function_def)
    next
      case (VGlobalVariable n)
      with True show ?thesis by (auto simp: marker_operand_value_def isa_Function_def)
    next
      case (VConstantExpr v)
      with True show ?thesis by (auto simp: marker_operand_value_def isa_Function_def)
    next
      case (VConstantArray vs)
      with True show ?thesis by (auto simp: marker_operand_value_def isa_Function_def)
    next
      case (VConstantData d)
      with True show ?thesis by (auto simp: marker_operand_value_def isa_Function_def)
    qed
  qed
qed

lemma ex_marker_module_uses:
  "numUses ex_marker_module (VGlobalVariable ''__math_lib'') = 1"
  "numUses ex_marker_module (VFunction ''__keep'') = 1"
  "numUses ex_marker_module_used (VGlobalVariable ''__math_lib'') = 1"
  "numUses ex_marker_module_used (VFunction ''__keep'') = 2"
  by code_simp+

text \<open>
  C8, as the claim states it, fails: the marker of the example holds a global variable,
  which is no function, and the re-closure reads the marker to its end without aborting,
  since the variable has no use but the marker.
\<close>

theorem lExtractUsedFunctions_skips_unused_nonfunction:
  "gv_init ex_marker_with_variable =
     Some (VConstantArray [VGlobalVariable ''__math_lib'', VFunction ''__keep'']) \<and>
   \<not> isa_Function (marker_operand_value (VGlobalVariable ''__math_lib'')) \<and>
   lExtractUsedFunctions ex_marker_module ex_marker_with_variable {} = Inr {}"
  by (simp add: lExtractUsedFunctions_def ex_marker_with_variable_def mk_marker_def
      ex_marker_module_uses[unfolded ex_marker_with_variable_def mk_marker_def]
      isa_Function_def marker_operand_value_def)

text \<open>
  C8, amended. Reading the marker aborts exactly when some operand resolves to a value
  that has more than one use and is not a function; an operand with at most one use is
  passed over whatever it resolves to. When the reading does not abort, the functions
  it adds to the set are exactly those an operand resolves to and whose use count
  exceeds one.
\<close>

theorem lExtractUsedFunctions_aborts_on_used_nonfunction:
  "gv_init llvmUsed = Some (VConstantArray initList) \<Longrightarrow>
   ((\<exists>e. lExtractUsedFunctions M llvmUsed usedFunctions = Inl e) =
      (\<exists>C \<in> set initList. numUses M (marker_operand_value C) > 1 \<and>
                            \<not> isa_Function (marker_operand_value C))) \<and>
   (\<forall>used. lExtractUsedFunctions M llvmUsed usedFunctions = Inr used \<longrightarrow>
      used = usedFunctions \<union>
             {name. \<exists>C \<in> set initList. marker_operand_value C = VFunction name \<and>
                                          numUses M (VFunction name) > 1})"
  using lExtractOperands_char[of M initList usedFunctions]
  by (auto simp: lExtractUsedFunctions_def split: if_splits)

text \<open>
  The instance: with a second use of the function the reading gives the function; the
  variable, still used by the marker alone, is passed over.
\<close>

theorem lExtractUsedFunctions_aborts_on_used_nonfunction_witness:
  "gv_init ex_marker_with_variable =
     Some (VConstantArray [VGlobalVariable ''__math_lib'', VFunction ''__keep'']) \<and>
   lExtractUsedFunctions ex_marker_module_used ex_marker_with_variable {} = Inr {''__keep''} \<and>
   {''__keep''} = {} \<union> {name. \<exists>C \<in> set [VGlobalVariable ''__math_lib'', VFunction ''__keep''].
        marker_operand_value C = VFunction name \<and> numUses ex_marker_module_used (VFunction name) > 1}"
proof -
  have i: "gv_init ex_marker_with_variable =
     Some (VConstantArray [VGlobalVariable ''__math_lib'', VFunction ''__keep''])"
    by (simp add: ex_marker_with_variable_def mk_marker_def)
  have r: "lExtractUsedFunctions ex_marker_module_used ex_marker_with_variable {} = Inr {''__keep''}"
    by (simp add: lExtractUsedFunctions_def i ex_marker_module_uses insert_commute)
  from lExtractUsedFunctions_aborts_on_used_nonfunction[OF i, of ex_marker_module_used "{}"] i r
  show ?thesis by simp
qed

section \<open>Properties of the adaptation of intrinsic symbols\<close>

lemma lParamTypes_Inr:
  "list_all (representable T) ts \<Longrightarrow>
   lParamTypes T ts j acc = Inr (acc @ map (\<lambda>t. the (lLLVMTypeToISPCType T t False)) ts)"
  by (induction ts arbitrary: j acc) (auto simp: representable_def)

lemma lParamTypes_Inl:
  "k < length ts \<Longrightarrow> \<not> representable T (ts ! k) \<Longrightarrow> \<forall>i<k. representable T (ts ! i) \<Longrightarrow>
   lParamTypes T ts j acc = Inl (j + k)"
proof (induction ts arbitrary: j acc k)
  case Nil
  then show ?case by simp
next
  case (Cons t ts)
  show ?case
  proof (cases k)
    case 0
    with Cons.prems show ?thesis by (simp add: representable_def)
  next
    case (Suc k')
    with Cons.prems have r: "representable T t" by auto
    from Suc Cons.prems have "k' < length ts" "\<not> representable T (ts ! k')"
      "\<forall>i<k'. representable T (ts ! i)" by auto
    from Cons.IH[OF this] r Suc show ?thesis by (auto simp: representable_def)
  qed
qed

lemma lookup_registered:
  assumes "registered_by_adaptation T st" "LookupIntrinsics st func = Some s"
  shows "adapted_symbol T func = Some s"
proof -
  from assms(2) have "s \<in> set (intrinsics st)" "sym_function s = Some func"
    by (auto simp: LookupIntrinsics_def find_Some_iff)
  with assms(1) show ?thesis
    by (auto simp: registered_by_adaptation_def list_all_iff)
qed

lemma adapted_symbol_SomeD:
  "adapted_symbol T func = Some s \<Longrightarrow>
   \<exists>ty. translated_type T func = Some ty \<and> sym_name s = fn_name func \<and> sym_kind s = FunctionKind \<and>
        sym_type s = ty \<and> sym_function s = Some func"
  by (auto simp: adapted_symbol_def split: option.splits)

lemma translated_type_SomeD:
  "translated_type T func = Some ty \<Longrightarrow>
   representable T (fn_ret func) \<and> list_all (representable T) (fn_params func)"
  by (auto simp: translated_type_def representable_def split: option.splits if_splits)

lemma create_cached:
  "LookupIntrinsics st func = Some s \<Longrightarrow> CreateISPCSymbolForLLVMIntrinsic T func st = (Some s, st)"
  by (simp add: CreateISPCSymbolForLLVMIntrinsic_def)

lemma create_ret_unrepresentable:
  "LookupIntrinsics st func = None \<Longrightarrow> \<not> representable T (fn_ret func) \<Longrightarrow>
   CreateISPCSymbolForLLVMIntrinsic T func st =
     (None, st\<lparr>diagnostics := diagnostics st @
        [''Return type not representable for Intrinsic '' @ fn_name func @ ''.'']\<rparr>)"
  by (simp add: CreateISPCSymbolForLLVMIntrinsic_def representable_def Error_def)

lemma create_param_unrepresentable:
  "LookupIntrinsics st func = None \<Longrightarrow> representable T (fn_ret func) \<Longrightarrow>
   j < length (fn_params func) \<Longrightarrow> \<not> representable T (fn_params func ! j) \<Longrightarrow>
   \<forall>i<j. representable T (fn_params func ! i) \<Longrightarrow>
   CreateISPCSymbolForLLVMIntrinsic T func st =
     (None, st\<lparr>diagnostics := diagnostics st @
        [''Type of parameter '' @ decimal j @ '' not representable for Intrinsic '' @
         fn_name func]\<rparr>)"
  using lParamTypes_Inl[of j "fn_params func" T 0 "[]"]
  by (auto simp add: CreateISPCSymbolForLLVMIntrinsic_def representable_def Error_def Let_def)

lemma create_fresh:
  assumes "LookupIntrinsics st func = None" "adapted_symbol T func = Some s"
  shows "CreateISPCSymbolForLLVMIntrinsic T func st = (Some s, st\<lparr>intrinsics := intrinsics st @ [s]\<rparr>)"
proof -
  from assms(2) obtain ty where ty: "translated_type T func = Some ty"
    and s: "s = \<lparr>sym_name = fn_name func, sym_pos = ''LLVM Intrinsic'',
                  sym_kind = FunctionKind, sym_type = ty, sym_function = Some func\<rparr>"
    by (auto simp: adapted_symbol_def split: option.splits)
  from ty obtain r where r: "lLLVMTypeToISPCType T (fn_ret func) False = Some r"
    and ps: "list_all (representable T) (fn_params func)"
    and ty': "ty = FunctionType r (map (\<lambda>t. the (lLLVMTypeToISPCType T t False)) (fn_params func))"
    by (auto simp: translated_type_def split: option.splits if_splits)
  from lParamTypes_Inr[OF ps, of 0 "[]"]
  have "lParamTypes T (fn_params func) 0 [] =
          Inr (map (\<lambda>t. the (lLLVMTypeToISPCType T t False)) (fn_params func))"
    by simp
  with assms(1) r s ty' show ?thesis
    by (simp add: CreateISPCSymbolForLLVMIntrinsic_def AddIntrinsics_def Let_def)
qed


lemma registered_append:
  "registered_by_adaptation T st \<Longrightarrow> adapted_symbol T func = Some s \<Longrightarrow>
   registered_by_adaptation T (st\<lparr>intrinsics := intrinsics st @ [s]\<rparr>)"
  using adapted_symbol_SomeD[of T func s]
  by (auto simp: registered_by_adaptation_def)

lemma translated_type_None_iff:
  "(translated_type T func = None) =
   (\<not> representable T (fn_ret func) \<or>
    (\<exists>j < length (fn_params func). \<not> representable T (fn_params func ! j)))"
  by (auto simp: translated_type_def representable_def list_all_length split: option.splits)

text \<open>
  C9. On a symbol table whose intrinsic symbols were registered by this adaptation: if the
  return type has no source-language type, the call reports the diagnostic that names
  the symbol, returns no symbol and registers nothing; if the return type has one and
  parameter \<open>j\<close> is the first that has none, it reports the diagnostic that names the
  symbol and \<open>j\<close>, returns no symbol and registers nothing; if all types have one, it
  returns a function symbol of that name with the translated type, which is in the table
  afterwards (appended by this call when the function had no symbol yet) and reports
  nothing. The call always returns (the result is a pair, there is no abort), the three
  cases are all there are, and the table stays one registered by the adaptation.
\<close>

theorem CreateISPCSymbol_symbol_or_diagnostic:
  assumes reg: "registered_by_adaptation T symbolTable"
  shows
  "registered_by_adaptation T (snd (CreateISPCSymbolForLLVMIntrinsic T func symbolTable)) \<and>
   (\<not> representable T (fn_ret func) \<longrightarrow>
      CreateISPCSymbolForLLVMIntrinsic T func symbolTable =
        (None, symbolTable\<lparr>diagnostics := diagnostics symbolTable @
           [''Return type not representable for Intrinsic '' @ fn_name func @ ''.'']\<rparr>)) \<and>
   (\<forall>j. representable T (fn_ret func) \<and> j < length (fn_params func) \<and>
        \<not> representable T (fn_params func ! j) \<and>
        (\<forall>i<j. representable T (fn_params func ! i)) \<longrightarrow>
      CreateISPCSymbolForLLVMIntrinsic T func symbolTable =
        (None, symbolTable\<lparr>diagnostics := diagnostics symbolTable @
           [''Type of parameter '' @ decimal j @ '' not representable for Intrinsic '' @
            fn_name func]\<rparr>)) \<and>
   (\<forall>ty. translated_type T func = Some ty \<longrightarrow>
      (\<exists>s. fst (CreateISPCSymbolForLLVMIntrinsic T func symbolTable) = Some s \<and>
           sym_name s = fn_name func \<and> sym_kind s = FunctionKind \<and> sym_type s = ty \<and>
           sym_function s = Some func \<and>
           s \<in> set (intrinsics (snd (CreateISPCSymbolForLLVMIntrinsic T func symbolTable))) \<and>
           diagnostics (snd (CreateISPCSymbolForLLVMIntrinsic T func symbolTable)) =
             diagnostics symbolTable \<and>
           (LookupIntrinsics symbolTable func = None \<longrightarrow>
              intrinsics (snd (CreateISPCSymbolForLLVMIntrinsic T func symbolTable)) =
                intrinsics symbolTable @ [s]))) \<and>
   ((translated_type T func = None) =
      (\<not> representable T (fn_ret func) \<or>
       (\<exists>j < length (fn_params func). \<not> representable T (fn_params func ! j))))"
proof (cases "LookupIntrinsics symbolTable func")
  case (Some s)
  from lookup_registered[OF reg Some] have ad: "adapted_symbol T func = Some s" .
  from adapted_symbol_SomeD[OF ad] obtain ty where
    ty: "translated_type T func = Some ty" and
    sf: "sym_name s = fn_name func" "sym_kind s = FunctionKind" "sym_type s = ty"
        "sym_function s = Some func"
    by blast
  from translated_type_SomeD[OF ty] have
    rep: "representable T (fn_ret func)" "list_all (representable T) (fn_params func)" by auto
  from Some have mem: "s \<in> set (intrinsics symbolTable)"
    by (auto simp: LookupIntrinsics_def find_Some_iff)
  have res: "CreateISPCSymbolForLLVMIntrinsic T func symbolTable = (Some s, symbolTable)"
    by (rule create_cached[OF Some])
  from rep(2) have nobad: "\<And>j. j < length (fn_params func) \<Longrightarrow> representable T (fn_params func ! j)"
    by (simp add: list_all_length)
  show ?thesis
    using res reg rep(1) nobad ty sf mem Some translated_type_None_iff[of T func]
    by auto
next
  case None
  show ?thesis
  proof (cases "translated_type T func")
    case (Some ty)
    then obtain s where ad: "adapted_symbol T func = Some s"
      by (auto simp: adapted_symbol_def)
    from adapted_symbol_SomeD[OF ad] Some have
      sf: "sym_name s = fn_name func" "sym_kind s = FunctionKind" "sym_type s = ty"
          "sym_function s = Some func"
      by auto
    from translated_type_SomeD[OF Some] have
      rep: "representable T (fn_ret func)" "list_all (representable T) (fn_params func)" by auto
    from rep(2) have nobad: "\<And>j. j < length (fn_params func) \<Longrightarrow> representable T (fn_params func ! j)"
      by (simp add: list_all_length)
    have res: "CreateISPCSymbolForLLVMIntrinsic T func symbolTable =
                 (Some s, symbolTable\<lparr>intrinsics := intrinsics symbolTable @ [s]\<rparr>)"
      by (rule create_fresh[OF None ad])
    from registered_append[OF reg ad]
    have reg': "registered_by_adaptation T (symbolTable\<lparr>intrinsics := intrinsics symbolTable @ [s]\<rparr>)" .
    show ?thesis
      using res reg' rep(1) nobad Some sf translated_type_None_iff[of T func]
      by auto
  next
    case tnone: None
    show ?thesis
    proof (cases "representable T (fn_ret func)")
      case False
      from create_ret_unrepresentable[OF None False] reg tnone False
        translated_type_None_iff[of T func]
      show ?thesis by (auto simp: registered_by_adaptation_def)
    next
      case True
      have one: "\<And>j. j < length (fn_params func) \<Longrightarrow> \<not> representable T (fn_params func ! j) \<Longrightarrow>
        \<forall>i<j. representable T (fn_params func ! i) \<Longrightarrow>
        CreateISPCSymbolForLLVMIntrinsic T func symbolTable =
        (None, symbolTable\<lparr>diagnostics := diagnostics symbolTable @
           [''Type of parameter '' @ decimal j @ '' not representable for Intrinsic '' @
            fn_name func]\<rparr>)"
        by (rule create_param_unrepresentable[OF None True])
      from tnone True obtain j0 where j0: "j0 < length (fn_params func)"
        "\<not> representable T (fn_params func ! j0)"
        using translated_type_None_iff[of T func] by auto
      define k where "k = (LEAST j. j < length (fn_params func) \<and> \<not> representable T (fn_params func ! j))"
      have k: "k < length (fn_params func) \<and> \<not> representable T (fn_params func ! k)"
        unfolding k_def by (rule LeastI[of _ j0]) (use j0 in simp)
      have kmin: "\<forall>i<k. representable T (fn_params func ! i)"
      proof (intro allI impI)
        fix i assume "i < k"
        from not_less_Least[OF \<open>i < k\<close>[unfolded k_def]] k \<open>i < k\<close>
        show "representable T (fn_params func ! i)"
          by auto
      qed
      from one[OF _ _ kmin] k have resk: "CreateISPCSymbolForLLVMIntrinsic T func symbolTable =
        (None, symbolTable\<lparr>diagnostics := diagnostics symbolTable @
           [''Type of parameter '' @ decimal k @ '' not representable for Intrinsic '' @
            fn_name func]\<rparr>)" by simp
      have reg': "registered_by_adaptation T (snd (CreateISPCSymbolForLLVMIntrinsic T func symbolTable))"
        using resk reg by (simp add: registered_by_adaptation_def)
      from reg' one True tnone translated_type_None_iff[of T func]
      show ?thesis by auto
    qed
  qed
qed

lemma ex_rep:
  "representable ex_types (VectorTy FloatTy 4)" "representable ex_types (IntegerTy 32)"
  "representable ex_types VoidTy" "\<not> representable ex_types (IntegerTy 128)"
  by (simp_all add: representable_def lLLVMTypeToISPCType_def ex_types_def)

text \<open>
  The instance, on the empty table: the declaration with a 128-bit return type and the
  one with a 128-bit second parameter give no symbol and one diagnostic each; the
  declaration over float vectors gives the symbol with the translated type, registered.
\<close>

theorem CreateISPCSymbol_symbol_or_diagnostic_witness:
  "registered_by_adaptation ex_types ex_frontend \<and>
   \<not> representable ex_types (fn_ret ex_intr_bad_ret) \<and>
   CreateISPCSymbolForLLVMIntrinsic ex_types ex_intr_bad_ret ex_frontend =
     (None, ex_frontend\<lparr>diagnostics :=
        [''Return type not representable for Intrinsic llvm.bad.ret.'']\<rparr>) \<and>
   representable ex_types (fn_ret ex_intr_bad_param) \<and>
   \<not> representable ex_types (fn_params ex_intr_bad_param ! 1) \<and>
   CreateISPCSymbolForLLVMIntrinsic ex_types ex_intr_bad_param ex_frontend =
     (None, ex_frontend\<lparr>diagnostics :=
        [''Type of parameter 1 not representable for Intrinsic llvm.bad.param'']\<rparr>) \<and>
   translated_type ex_types ex_intr_ok =
     Some (FunctionType (Atomic VaryingFloat) [Atomic VaryingFloat, Atomic VaryingFloat]) \<and>
   (\<exists>s. fst (CreateISPCSymbolForLLVMIntrinsic ex_types ex_intr_ok ex_frontend) = Some s \<and>
        sym_name s = ''llvm.x86.sse.max.ps'' \<and>
        sym_type s = FunctionType (Atomic VaryingFloat) [Atomic VaryingFloat, Atomic VaryingFloat] \<and>
        intrinsics (snd (CreateISPCSymbolForLLVMIntrinsic ex_types ex_intr_ok ex_frontend)) = [s] \<and>
        diagnostics (snd (CreateISPCSymbolForLLVMIntrinsic ex_types ex_intr_ok ex_frontend)) = [])"
proof -
  have reg: "registered_by_adaptation ex_types ex_frontend"
    by (simp add: registered_by_adaptation_def ex_frontend_def)
  have look: "\<And>f. LookupIntrinsics ex_frontend f = None"
    by (simp add: LookupIntrinsics_def ex_frontend_def)
  have r1: "\<not> representable ex_types (fn_ret ex_intr_bad_ret)"
    by (simp add: ex_intr_bad_ret_def mk_decl_def ex_rep)
  have r2: "representable ex_types (fn_ret ex_intr_bad_param) \<and>
            1 < length (fn_params ex_intr_bad_param) \<and>
            \<not> representable ex_types (fn_params ex_intr_bad_param ! 1) \<and>
            (\<forall>i<1. representable ex_types (fn_params ex_intr_bad_param ! i))"
    by (simp add: ex_intr_bad_param_def mk_decl_def ex_rep)
  have r3: "translated_type ex_types ex_intr_ok =
     Some (FunctionType (Atomic VaryingFloat) [Atomic VaryingFloat, Atomic VaryingFloat])"
    by code_simp
  note thm1 = CreateISPCSymbol_symbol_or_diagnostic[OF reg, of ex_intr_bad_ret]
  note thm2 = CreateISPCSymbol_symbol_or_diagnostic[OF reg, of ex_intr_bad_param]
  note thm3 = CreateISPCSymbol_symbol_or_diagnostic[OF reg, of ex_intr_ok]
  from thm1 r1 have c1: "CreateISPCSymbolForLLVMIntrinsic ex_types ex_intr_bad_ret ex_frontend =
     (None, ex_frontend\<lparr>diagnostics :=
        [''Return type not representable for Intrinsic llvm.bad.ret.'']\<rparr>)"
    by (simp add: ex_frontend_def ex_intr_bad_ret_def mk_decl_def)
  from thm2 r2 have "CreateISPCSymbolForLLVMIntrinsic ex_types ex_intr_bad_param ex_frontend =
        (None, ex_frontend\<lparr>diagnostics := diagnostics ex_frontend @
           [''Type of parameter '' @ decimal 1 @ '' not representable for Intrinsic '' @
            fn_name ex_intr_bad_param]\<rparr>)"
    by blast
  then have c2: "CreateISPCSymbolForLLVMIntrinsic ex_types ex_intr_bad_param ex_frontend =
     (None, ex_frontend\<lparr>diagnostics :=
        [''Type of parameter 1 not representable for Intrinsic llvm.bad.param'']\<rparr>)"
    by (simp add: ex_frontend_def ex_intr_bad_param_def mk_decl_def decimal.simps
        digit_char_def)
  from thm3 r3 look[of ex_intr_ok]
  have c3: "\<exists>s. fst (CreateISPCSymbolForLLVMIntrinsic ex_types ex_intr_ok ex_frontend) = Some s \<and>
        sym_name s = ''llvm.x86.sse.max.ps'' \<and>
        sym_type s = FunctionType (Atomic VaryingFloat) [Atomic VaryingFloat, Atomic VaryingFloat] \<and>
        intrinsics (snd (CreateISPCSymbolForLLVMIntrinsic ex_types ex_intr_ok ex_frontend)) = [s] \<and>
        diagnostics (snd (CreateISPCSymbolForLLVMIntrinsic ex_types ex_intr_ok ex_frontend)) = []"
    by (auto simp: ex_frontend_def ex_intr_ok_def mk_decl_def)
  from reg r1 c1 r2 c2 r3 c3 show ?thesis by blast
qed

section \<open>The protect-prune engine: persistent groups\<close>

subsection \<open>The marker's operands\<close>

lemma lFuncsAsConstPtrs_set:
  "set (lFuncsAsConstPtrs M names) = {VFunction n | n. n \<in> set names \<and> getFunction M n \<noteq> None}"
  by (auto simp: lFuncsAsConstPtrs_def set_map_filter_eq lFuncAsConstInt8Ptr_def
      split: option.splits)

lemma lAnchorConstPtrs_set:
  "set (lAnchorConstPtrs reg M) =
     {VFunction n | n. getFunction M n \<noteq> None \<and>
        ((\<exists>(g, fs) \<in> set (persistentGroups reg). isGroupUsed M fs \<and> n \<in> set fs) \<or>
         n \<in> fst ` set (persistentFuncs reg))}"
  by (auto simp: lAnchorConstPtrs_def lFuncsAsConstPtrs_set split: if_splits)

lemma lCollectPreservedFunctions_set:
  "set (lCollectPreservedFunctions reg M used) =
     {VFunction n | n. getFunction M n \<noteq> None \<and>
        ((\<exists>(g, fs) \<in> set (persistentGroups reg). g \<in> set used \<and> n \<in> set fs) \<or>
         n \<in> fst ` set (persistentFuncs reg))}"
  by (auto simp: lCollectPreservedFunctions_def lFuncsAsConstPtrs_set split: if_splits)

lemma subvalues_function_list:
  assumes "set P \<subseteq> range VFunction"
  shows "set (concat (map subvalues P)) = set P"
proof -
  have "\<And>op. op \<in> set P \<Longrightarrow> subvalues op = [op]" using assms by auto
  then show ?thesis by auto
qed

lemma value_refs_functions:
  assumes "set P \<subseteq> range VFunction"
  shows "set (value_refs P) = set P"
proof -
  have "set (value_refs P) = {r \<in> set (concat (map subvalues P)). isGlobalValue r}"
    by (simp add: value_refs_def)
  also have "\<dots> = {r \<in> set P. isGlobalValue r}"
    unfolding subvalues_function_list[OF assms] ..
  also have "\<dots> = set P" using assms by auto
  finally show ?thesis .
qed

lemma value_refs_array:
  assumes "set P \<subseteq> range VFunction"
  shows "set (value_refs [VConstantArray P]) = set P"
proof -
  have "set (value_refs [VConstantArray P]) = {r \<in> set (concat (map subvalues P)). isGlobalValue r}"
    by (auto simp: value_refs_def)
  also have "\<dots> = {r \<in> set P. isGlobalValue r}"
    unfolding subvalues_function_list[OF assms] ..
  also have "\<dots> = set P" using assms by auto
  finally show ?thesis .
qed

subsection \<open>Creating and erasing the marker\<close>

lemma lCreateLLVMUsed_simps:
  "mod_functions (lCreateLLVMUsed M P) = mod_functions M"
  "mod_globals (lCreateLLVMUsed M P) = mod_globals M @
     [\<lparr>gv_name = unique_name (all_names M) ''llvm.compiler.used'', gv_linkage = AppendingLinkage,
       gv_section = ''llvm.metadata'', gv_init = Some (VConstantArray P)\<rparr>]"
  by (simp_all add: lCreateLLVMUsed_def)

lemma getFunction_cong: "mod_functions M = mod_functions M' \<Longrightarrow> getFunction M n = getFunction M' n"
  by (simp add: getFunction_def)

lemma marker_keeps_alive:
  assumes G: "G \<in> set (mod_globals M)" and lk: "gv_linkage G = AppendingLinkage"
    and init: "gv_init G = Some (VConstantArray P)" and op: "VFunction n \<in> set P"
  shows "VFunction n \<in> alive M"
proof -
  from G lk init have "VGlobalVariable (gv_name G) \<in> set (dce_roots M)"
    by (auto simp: dce_roots_iff isDiscardableIfUnused_def)
  then have "VGlobalVariable (gv_name G) \<in> alive M" by (rule alive_root)
  moreover have "VFunction n \<in> set (value_refs (gv_operands G))"
    using op by (auto simp: gv_operands_def init value_refs_set intro!: bexI[of _ "VFunction n"])
  with G have "(VGlobalVariable (gv_name G), VFunction n) \<in> set (dependencies M)"
    by (auto simp: dependencies_iff)
  ultimately show ?thesis by (rule alive_step)
qed

lemma alive_lCreateLLVMUsed: "alive M \<subseteq> alive (lCreateLLVMUsed M P)"
  by (rule alive_mono) (auto simp: dce_roots_iff dependencies_iff lCreateLLVMUsed_simps)

lemma getFunction_Some_mem: "getFunction M n = Some F \<Longrightarrow> F \<in> set (mod_functions M) \<and> fn_name F = n"
  by (auto simp: getFunction_def find_Some_iff)

lemma getFunction_None_iff: "(getFunction M n = None) = (n \<notin> fn_name ` set (mod_functions M))"
  by (auto simp: getFunction_def find_None_iff)

lemma getNamedGlobal_Some_mem:
  "getNamedGlobal M n = Some G \<Longrightarrow> G \<in> set (mod_globals M) \<and> gv_name G = n"
  by (auto simp: getNamedGlobal_def find_Some_iff)

subsection \<open>A second use\<close>

lemma sum_two_le:
  fixes f :: "'a \<Rightarrow> nat"
  assumes "finite S" "a \<in> S" "b \<in> S" "a \<noteq> b"
  shows "f a + f b \<le> sum f S"
proof -
  have "sum f {a, b} \<le> sum f S" by (rule sum_mono2) (use assms in auto)
  with assms(4) show ?thesis by simp
qed

lemma holds_besides_iff:
  "holds_besides A val op =
     (op = val \<or> (\<exists>c \<in> set (subvalues op). c \<noteq> A \<and> val \<in> set (constant_operands c)))"
  by (simp add: holds_besides_def list_ex_iff)

lemma holds_besides_subvalues: "holds_besides A val op \<Longrightarrow> val \<in> set (subvalues op)"
  by (auto simp: holds_besides_iff intro: subvalues_self subvalues_operand)

text \<open>
  A value that an array of the module holds and that an operand holds besides this array
  has two uses at least.
\<close>

lemma numUses_two:
  assumes K: "VConstantArray P \<in> set (all_operands M)" and v: "v \<in> set P"
    and op: "op \<in> set (all_operands M)" and h: "holds_besides (VConstantArray P) v op"
  shows "numUses M v > 1"
proof -
  let ?C = "set (concat (map subvalues (all_operands M)))"
  let ?f = "\<lambda>c. count_list (constant_operands c) v"
  have fin: "finite ?C" by simp
  from K have KC: "VConstantArray P \<in> ?C"
    using subvalues_self[of "VConstantArray P"] by (auto simp del: subvalues.simps)
  from v have fK: "?f (VConstantArray P) > 0"
    using count_list_0_iff[of P v] by auto
  from h consider "op = v"
    | c where "c \<in> set (subvalues op)" "c \<noteq> VConstantArray P" "v \<in> set (constant_operands c)"
    by (auto simp: holds_besides_iff)
  then show ?thesis
  proof cases
    case 1
    with op have "count_list (all_operands M) v > 0"
      using count_list_0_iff[of "all_operands M" v] by auto
    moreover from member_le_sum[OF KC, of ?f] fin have "?f (VConstantArray P) \<le> sum ?f ?C"
      by simp
    ultimately show ?thesis using fK by (simp add: numUses_alt)
  next
    case 2
    from 2(1) op have cC: "c \<in> ?C" by auto
    from 2(3) have fc: "?f c > 0"
      using count_list_0_iff[of "constant_operands c" v] by auto
    from sum_two_le[OF fin cC KC 2(2), of ?f] fc fK show ?thesis
      by (simp add: numUses_alt)
  qed
qed

lemma lUpdateLLVMUsed_simps:
  "mod_functions (lUpdateLLVMUsed M U P) = mod_functions M"
  "mod_globals (lUpdateLLVMUsed M U P) = remove1 U (mod_globals M) @
     [\<lparr>gv_name = unique_name (all_names (eraseFromParent M U)) ''llvm.compiler.used'',
       gv_linkage = AppendingLinkage, gv_section = ''llvm.metadata'',
       gv_init = Some (VConstantArray P)\<rparr>]"
  by (simp_all add: lUpdateLLVMUsed_def lCreateLLVMUsed_simps eraseFromParent_def)

lemma lExtractUsedFunctions_Inr:
  assumes "gv_init U = Some (VConstantArray ops)" "lExtractUsedFunctions M U S = Inr used"
  shows "used = S \<union> {name. \<exists>C \<in> set ops. marker_operand_value C = VFunction name \<and>
                                  numUses M (VFunction name) > 1}"
  using assms lExtractOperands_char[of M ops S]
  by (auto simp: lExtractUsedFunctions_def split: if_splits)

lemma lFindUsedPersistentGroups_set:
  "set (lFindUsedPersistentGroups reg M used) =
     {g. \<exists>fs. (g, fs) \<in> set (persistentGroups reg) \<and>
              (\<exists>n \<in> set fs. getFunction M n \<noteq> None \<and> n \<in> used)}"
  by (force simp: lFindUsedPersistentGroups_def list_ex_iff)

subsection \<open>A group with a member that live code uses\<close>

lemma group_member_survives:
  assumes pp: "protect_prune reg M = Inr M'"
    and grp: "(g, fs) \<in> set (persistentGroups reg)"
    and A: "A \<in> set fs" "getFunction M A \<noteq> None" "used_by_live reg M (VFunction A)"
    and B: "B \<in> set fs" "getFunction M B \<noteq> None"
  shows "getFunction M' B \<noteq> None"
proof -
  define P1 where "P1 = lAnchorConstPtrs reg M"
  define K1 where "K1 = \<lparr>gv_name = unique_name (all_names M) ''llvm.compiler.used'',
       gv_linkage = AppendingLinkage, gv_section = ''llvm.metadata'',
       gv_init = Some (VConstantArray P1)\<rparr>"
  define M1 where "M1 = lAddPersistentToLLVMUsed reg M"
  define M2 where "M2 = lRemoveUnused M1"
  define old where "old = filter (\<lambda>G. VGlobalVariable (gv_name G) \<in> alive M1) (mod_globals M)"
  \<comment> \<open>the live user of A\<close>
  from A(3) obtain op where
    op: "holds_besides (VConstantArray P1) (VFunction A) op" and
    user: "(\<exists>F \<in> set (mod_functions M). VFunction (fn_name F) \<in> alive M1 \<and> op \<in> set (fn_operands F)) \<or>
           (\<exists>G \<in> set (mod_globals M). VGlobalVariable (gv_name G) \<in> alive M1 \<and> op \<in> set (gv_operands G))"
    unfolding used_by_live_def Let_def list_ex_iff M1_def P1_def by blast
  from user have opM: "op \<in> set (all_operands M)"
    by (auto simp: all_operands_def)
  from numUses_pos[OF opM holds_besides_subvalues[OF op]] have usesA: "numUses M (VFunction A) > 0" .
  with A(1,2) have gu: "isGroupUsed M fs"
    by (auto simp: isGroupUsed_def list_ex_iff intro!: bexI[of _ A])
  from gu grp A(1,2) have PA: "VFunction A \<in> set P1"
    by (auto simp: P1_def lAnchorConstPtrs_set)
  from gu grp B have PB: "VFunction B \<in> set P1"
    by (auto simp: P1_def lAnchorConstPtrs_set)
  from PA have M1: "M1 = lCreateLLVMUsed M P1"
    by (auto simp: M1_def lAddPersistentToLLVMUsed_def P1_def Let_def)
  have fM1: "mod_functions M1 = mod_functions M" and gM1: "mod_globals M1 = mod_globals M @ [K1]"
    by (simp_all add: M1 lCreateLLVMUsed_simps K1_def)
  have K1in: "K1 \<in> set (mod_globals M1)" by (simp add: gM1)
  have K1f: "gv_linkage K1 = AppendingLinkage" "gv_init K1 = Some (VConstantArray P1)"
    by (simp_all add: K1_def)
  have K1alive: "VGlobalVariable (gv_name K1) \<in> alive M1"
    using K1in K1f by (intro alive_root) (force simp: dce_roots_iff isDiscardableIfUnused_def)
  have aA: "VFunction A \<in> alive M1" and aB: "VFunction B \<in> alive M1"
    using marker_keeps_alive[OF K1in K1f] PA PB by auto
  have M2: "M2 = GlobalDCE M1" by (simp add: M2_def lRemoveUnused_def)
  have fA2: "getFunction M2 A \<noteq> None" and fB2: "getFunction M2 B \<noteq> None"
    using aA aB A(2) B(2) getFunction_cong[OF fM1]
    by (simp_all add: M2 getFunction_GlobalDCE)
  have gM2: "mod_globals M2 = old @ [K1]"
    using K1alive by (simp add: M2 GlobalDCE_simps gM1 old_def)
  have arr2: "VConstantArray P1 \<in> set (all_operands M2)"
    by (simp add: all_operands_def gM2 gv_operands_def K1f)
  have op2: "op \<in> set (all_operands M2)"
    using user
  proof
    assume "\<exists>F \<in> set (mod_functions M). VFunction (fn_name F) \<in> alive M1 \<and> op \<in> set (fn_operands F)"
    then obtain F where "F \<in> set (mod_functions M2)" "op \<in> set (fn_operands F)"
      by (auto simp: M2 GlobalDCE_simps fM1)
    then show ?thesis by (auto simp: all_operands_def)
  next
    assume "\<exists>G \<in> set (mod_globals M). VGlobalVariable (gv_name G) \<in> alive M1 \<and> op \<in> set (gv_operands G)"
    then obtain G where "G \<in> set old" "op \<in> set (gv_operands G)"
      by (auto simp: old_def)
    then have "\<exists>G \<in> set (mod_globals M2). op \<in> set (gv_operands G)"
      by (auto simp: gM2)
    then show ?thesis by (auto simp: all_operands_def)
  qed
  from numUses_two[OF arr2 PA op2 op] have uses2: "numUses M2 (VFunction A) > 1" .
  \<comment> \<open>the re-closure\<close>
  from pp have rc: "lRemoveUnusedPersistentFunctions reg M2 = Inr M'"
    by (simp add: protect_prune_def M2_def M1_def)
  show ?thesis
  proof (cases "getNamedGlobal M2 ''llvm.compiler.used''")
    case None
    with rc have "M' = M2" by (simp add: lRemoveUnusedPersistentFunctions_def)
    with fB2 show ?thesis by simp
  next
    case (Some U)
    with rc obtain used where
      ex: "lExtractUsedFunctions M2 U {} = Inr used" and
      M': "M' = lRemoveUnused (lUpdateLLVMUsed M2 U
                  (lCollectPreservedFunctions reg M2 (lFindUsedPersistentGroups reg M2 used)))"
      by (auto simp: lRemoveUnusedPersistentFunctions_def Let_def split: sum.splits)
    define P2 where "P2 = lCollectPreservedFunctions reg M2 (lFindUsedPersistentGroups reg M2 used)"
    define M3 where "M3 = lUpdateLLVMUsed M2 U P2"
    have fM3: "mod_functions M3 = mod_functions M2" by (simp add: M3_def lUpdateLLVMUsed_simps)
    have "\<exists>K \<in> set (mod_globals M3). gv_linkage K = AppendingLinkage \<and>
             (\<exists>P. gv_init K = Some (VConstantArray P) \<and> VFunction B \<in> set P)"
    proof (cases "U = K1")
      case False
      then have "K1 \<in> set (remove1 U (mod_globals M2))" by (simp add: gM2)
      then have "K1 \<in> set (mod_globals M3)" by (simp add: M3_def lUpdateLLVMUsed_simps)
      with K1f PB show ?thesis by blast
    next
      case True
      from lExtractUsedFunctions_Inr[OF K1f(2)[folded True] ex]
      have "used = {name. \<exists>C \<in> set P1. marker_operand_value C = VFunction name \<and>
                                  numUses M2 (VFunction name) > 1}" by simp
      with PA uses2 have "A \<in> used"
        by (auto simp: marker_operand_value_def intro!: bexI[of _ "VFunction A"])
      with grp A(1) fA2 have "g \<in> set (lFindUsedPersistentGroups reg M2 used)"
        by (auto simp: lFindUsedPersistentGroups_set)
      with grp B(1) fB2 have "VFunction B \<in> set P2"
        by (auto simp: P2_def lCollectPreservedFunctions_set)
      then show ?thesis
        by (auto simp: M3_def lUpdateLLVMUsed_simps)
    qed
    then obtain K P where "K \<in> set (mod_globals M3)" "gv_linkage K = AppendingLinkage"
      "gv_init K = Some (VConstantArray P)" "VFunction B \<in> set P" by blast
    from marker_keeps_alive[OF this] have "VFunction B \<in> alive M3" .
    with fB2 show ?thesis
      using getFunction_cong[OF fM3]
      by (simp add: M' P2_def[symmetric] M3_def[symmetric] lRemoveUnused_def getFunction_GlobalDCE)
  qed
qed

subsection \<open>A group that nothing refers to, and the definitions that are kept anyway\<close>

lemma getFunction_filter_None:
  assumes "getFunction M n = None" "mod_functions M' = filter Q (mod_functions M)"
  shows "getFunction M' n = None"
  using assms by (auto simp: getFunction_None_iff)

lemma unreferenced_not_alive:
  assumes uses: "numUses M (VFunction B) = 0"
    and notroot: "VFunction B \<notin> set (dce_roots M)"
  shows "VFunction B \<notin> alive M"
proof
  assume "VFunction B \<in> alive M"
  from alive_cases[OF this] notroot obtain x where
    "(x, VFunction B) \<in> set (dependencies M)" by blast
  then obtain op where "op \<in> set (all_operands M)" "VFunction B \<in> set (subvalues op)"
    by (auto simp: dependencies_iff value_refs_set all_operands_def)
  with numUses_pos[of op M "VFunction B"] uses show False by simp
qed

lemma numUses_zero_lCreateLLVMUsed:
  assumes "numUses M (VFunction B) = 0" "VFunction B \<notin> set P" "set P \<subseteq> range VFunction"
  shows "numUses (lCreateLLVMUsed M P) (VFunction B) = 0"
proof -
  have ops: "all_operands (lCreateLLVMUsed M P) = all_operands M @ [VConstantArray P]"
    by (simp add: all_operands_def lCreateLLVMUsed_simps gv_operands_def)
  have "VFunction B \<notin> set (subvalues (VConstantArray P))"
    using assms(2) subvalues_function_list[OF assms(3)] by simp
  moreover from assms(1) have "\<forall>op \<in> set (all_operands M). VFunction B \<notin> set (subvalues op)"
    using numUses_pos_iff[of M "VFunction B"] by simp
  ultimately have "\<not> (\<exists>op \<in> set (all_operands (lCreateLLVMUsed M P)).
                        VFunction B \<in> set (subvalues op))"
    unfolding ops by (auto simp del: subvalues.simps)
  then show ?thesis
    using numUses_pos_iff[of "lCreateLLVMUsed M P" "VFunction B"] by simp
qed

lemma dce_roots_lCreateLLVMUsed:
  "VFunction B \<in> set (dce_roots (lCreateLLVMUsed M P)) = (VFunction B \<in> set (dce_roots M))"
  by (auto simp: dce_roots_iff lCreateLLVMUsed_simps)

lemma lAnchorConstPtrs_functions: "set (lAnchorConstPtrs reg M) \<subseteq> range VFunction"
  by (auto simp: lAnchorConstPtrs_set)

lemma unreferenced_member_pruned:
  assumes pp: "protect_prune reg M = Inr M'"
    and grp: "(g, fs) \<in> set (persistentGroups reg)" "B \<in> set fs"
    and unref: "\<forall>(g', fs') \<in> set (persistentGroups reg).
                  B \<in> set fs' \<longrightarrow> (\<forall>n \<in> set fs'. numUses M (VFunction n) = 0)"
    and notpf: "B \<notin> fst ` set (persistentFuncs reg)"
    and notroot: "VFunction B \<notin> set (dce_roots M)"
  shows "getFunction M' B = None"
proof -
  define P1 where "P1 = lAnchorConstPtrs reg M"
  define M1 where "M1 = lAddPersistentToLLVMUsed reg M"
  define M2 where "M2 = lRemoveUnused M1"
  from unref grp have usesB: "numUses M (VFunction B) = 0" by auto
  have notP: "VFunction B \<notin> set P1"
  proof
    assume "VFunction B \<in> set P1"
    with notpf obtain g' fs' where g': "(g', fs') \<in> set (persistentGroups reg)"
      "isGroupUsed M fs'" "B \<in> set fs'"
      by (auto simp: P1_def lAnchorConstPtrs_set)
    from g'(2) obtain n where "n \<in> set fs'" "numUses M (VFunction n) > 0"
      by (auto simp: isGroupUsed_def list_ex_iff split: option.splits)
    with unref g'(1,3) show False by auto
  qed
  have dead: "VFunction B \<notin> alive M1"
  proof (cases "P1 = []")
    case True
    then have "M1 = M" by (simp add: M1_def lAddPersistentToLLVMUsed_def P1_def)
    with unreferenced_not_alive[OF usesB notroot] show ?thesis by simp
  next
    case False
    then have M1: "M1 = lCreateLLVMUsed M P1"
      by (simp add: M1_def lAddPersistentToLLVMUsed_def P1_def Let_def)
    have "numUses M1 (VFunction B) = 0"
      unfolding M1 using numUses_zero_lCreateLLVMUsed[OF usesB notP]
        lAnchorConstPtrs_functions[of reg M] by (simp add: P1_def)
    moreover have "VFunction B \<notin> set (dce_roots M1)"
      unfolding M1 using notroot by (simp add: dce_roots_lCreateLLVMUsed)
    ultimately show ?thesis by (rule unreferenced_not_alive)
  qed
  then have f2: "getFunction M2 B = None"
    by (simp add: M2_def lRemoveUnused_def getFunction_GlobalDCE)
  from pp have rc: "lRemoveUnusedPersistentFunctions reg M2 = Inr M'"
    by (simp add: protect_prune_def M2_def M1_def)
  show ?thesis
  proof (cases "getNamedGlobal M2 ''llvm.compiler.used''")
    case None
    with rc have "M' = M2" by (simp add: lRemoveUnusedPersistentFunctions_def)
    with f2 show ?thesis by simp
  next
    case (Some U)
    with rc obtain P2 where M': "M' = lRemoveUnused (lUpdateLLVMUsed M2 U P2)"
      by (auto simp: lRemoveUnusedPersistentFunctions_def Let_def split: sum.splits)
    have "mod_functions M' =
            filter (\<lambda>F. VFunction (fn_name F) \<in> alive (lUpdateLLVMUsed M2 U P2)) (mod_functions M2)"
      by (simp add: M' lRemoveUnused_def GlobalDCE_simps lUpdateLLVMUsed_simps)
    from getFunction_filter_None[OF f2 this] show ?thesis .
  qed
qed

text \<open>
  The functions that dead-code elimination never discards (the definitions with a linkage
  other than internal) go through the whole sequence as they are.
\<close>

lemma function_root_cong:
  "mod_functions M = mod_functions M' \<Longrightarrow>
   (VFunction B \<in> set (dce_roots M)) = (VFunction B \<in> set (dce_roots M'))"
  by (auto simp: dce_roots_iff)

lemma root_kept_by_GlobalDCE:
  "VFunction B \<in> set (dce_roots M) \<Longrightarrow>
   getFunction (GlobalDCE M) B = getFunction M B \<and> VFunction B \<in> set (dce_roots (GlobalDCE M))"
  by (simp add: getFunction_GlobalDCE alive_root dce_roots_GlobalDCE)

lemma root_survives:
  assumes pp: "protect_prune reg M = Inr M'"
    and root: "VFunction B \<in> set (dce_roots M)"
  shows "getFunction M' B = getFunction M B"
proof -
  define M1 where "M1 = lAddPersistentToLLVMUsed reg M"
  define M2 where "M2 = lRemoveUnused M1"
  have fM1: "mod_functions M1 = mod_functions M"
    by (simp add: M1_def lAddPersistentToLLVMUsed_def Let_def lCreateLLVMUsed_simps)
  from root function_root_cong[OF fM1] have r1: "VFunction B \<in> set (dce_roots M1)" by simp
  from root_kept_by_GlobalDCE[OF r1] getFunction_cong[OF fM1]
  have f2: "getFunction M2 B = getFunction M B" and r2: "VFunction B \<in> set (dce_roots M2)"
    by (simp_all add: M2_def lRemoveUnused_def)
  from pp have rc: "lRemoveUnusedPersistentFunctions reg M2 = Inr M'"
    by (simp add: protect_prune_def M2_def M1_def)
  show ?thesis
  proof (cases "getNamedGlobal M2 ''llvm.compiler.used''")
    case None
    with rc have "M' = M2" by (simp add: lRemoveUnusedPersistentFunctions_def)
    with f2 show ?thesis by simp
  next
    case (Some U)
    with rc obtain P2 where M': "M' = lRemoveUnused (lUpdateLLVMUsed M2 U P2)"
      by (auto simp: lRemoveUnusedPersistentFunctions_def Let_def split: sum.splits)
    have fM3: "mod_functions (lUpdateLLVMUsed M2 U P2) = mod_functions M2"
      by (simp add: lUpdateLLVMUsed_simps)
    from r2 function_root_cong[OF fM3] have "VFunction B \<in> set (dce_roots (lUpdateLLVMUsed M2 U P2))"
      by simp
    from root_kept_by_GlobalDCE[OF this] getFunction_cong[OF fM3] f2 show ?thesis
      by (simp add: M' lRemoveUnused_def)
  qed
qed

text \<open>
  C1, as the claim states it, fails in its second half: in the example no member of the
  group \<^verbatim>\<open>gather_32\<close> is referenced anywhere, and its member \<^verbatim>\<open>__scatter32\<close>, an
  externally visible definition, is in the module after the protect-prune sequence.
\<close>

theorem unreferenced_external_member_survives:
  "numUses ex_pp_module_ext (VFunction ''__gather32'') = 0 \<and>
   numUses ex_pp_module_ext (VFunction ''__scatter32'') = 0 \<and>
   protect_prune ex_registry ex_pp_module_ext = Inr ex_pp_result_ext \<and>
   getFunction ex_pp_result_ext ''__scatter32'' = Some (mk_def ''__scatter32'' ExternalLinkage [])"
  by code_simp

text \<open>
  What counts as a use in the first half is a use by code that is still there when the
  re-closure counts: in the first example below the only user of a member is a function
  that the first prune removes, and the group is dropped; in the second the only user
  of a member that the first prune keeps holds it in an array equal to the anchor's, the
  member has the one use by this array, and the group is dropped as well.
\<close>

lemma use_by_dead_code_does_not_count:
  "numUses ex_pp_module_dead_user (VFunction ''__masked_load_32'') = 1 \<and>
   \<not> used_by_live ex_registry ex_pp_module_dead_user (VFunction ''__masked_load_32'') \<and>
   protect_prune ex_registry ex_pp_module_dead_user =
     Inr (mk_module [mk_def ''main'' ExternalLinkage []] [mk_marker ''llvm.compiler.used'' []])"
  by code_simp

lemma use_by_equal_array_does_not_count:
  "lAnchorConstPtrs ex_registry ex_pp_module_equal_array =
     [VFunction ''__masked_load_32'', VFunction ''__masked_store_32'', VFunction ''__gather32''] \<and>
   VFunction ''__gather32'' \<in>
     alive (lAddPersistentToLLVMUsed ex_registry ex_pp_module_equal_array) \<and>
   \<not> used_by_live ex_registry ex_pp_module_equal_array (VFunction ''__masked_load_32'') \<and>
   numUses (lRemoveUnused (lAddPersistentToLLVMUsed ex_registry ex_pp_module_equal_array))
     (VFunction ''__masked_load_32'') = 1 \<and>
   protect_prune ex_registry ex_pp_module_equal_array =
     Inr (mk_module [mk_def ''main'' ExternalLinkage []] [mk_marker ''llvm.compiler.used'' []])"
  by code_simp

text \<open>
  C1, amended. Let the protect-prune sequence (anchor, dead-code elimination, re-closure
  with its second prune) end without abort, and take a persistent group. If a member that
  is a function of the module is used by live code, every member that is a function of
  the module is a function of the module afterwards. If no member of the group (and of
  any other group the member is in) is referenced anywhere, a member that is not a
  persistent function and not an externally visible definition (a root of dead-code
  elimination) is not in the module afterwards. An externally visible definition is in
  the module afterwards as it was before, referenced or not.
\<close>

theorem persistent_group_all_or_nothing:
  assumes "protect_prune reg M = Inr M'" and "(g, fs) \<in> set (persistentGroups reg)"
  shows
   "(\<forall>A B. A \<in> set fs \<and> getFunction M A \<noteq> None \<and> used_by_live reg M (VFunction A) \<and>
           B \<in> set fs \<and> getFunction M B \<noteq> None
        \<longrightarrow> getFunction M' B \<noteq> None) \<and>
    (\<forall>B. B \<in> set fs \<and>
         (\<forall>(g', fs') \<in> set (persistentGroups reg).
             B \<in> set fs' \<longrightarrow> (\<forall>n \<in> set fs'. numUses M (VFunction n) = 0)) \<and>
         B \<notin> fst ` set (persistentFuncs reg) \<and>
         VFunction B \<notin> set (dce_roots M)
        \<longrightarrow> getFunction M' B = None) \<and>
    (\<forall>B. VFunction B \<in> set (dce_roots M) \<longrightarrow> getFunction M' B = getFunction M B)"
  using group_member_survives[OF assms] unreferenced_member_pruned[OF assms]
    root_survives[OF assms(1)]
  by blast

text \<open>
  The instance: \<^verbatim>\<open>main\<close> calls \<^verbatim>\<open>__masked_load_32\<close> only; the group's other member
  \<^verbatim>\<open>__masked_store_32\<close> is kept, \<^verbatim>\<open>__scatter32\<close>, of the group nobody references, is
  gone, and \<^verbatim>\<open>main\<close>, an externally visible definition, is there as before.
\<close>

theorem persistent_group_all_or_nothing_witness:
  "protect_prune ex_registry ex_pp_module = Inr ex_pp_result \<and>
   used_by_live ex_registry ex_pp_module (VFunction ''__masked_load_32'') \<and>
   getFunction ex_pp_module ''__masked_store_32'' \<noteq> None \<and>
   getFunction ex_pp_result ''__masked_store_32'' \<noteq> None \<and>
   numUses ex_pp_module (VFunction ''__gather32'') = 0 \<and>
   numUses ex_pp_module (VFunction ''__scatter32'') = 0 \<and>
   VFunction ''__scatter32'' \<notin> set (dce_roots ex_pp_module) \<and>
   getFunction ex_pp_module ''__scatter32'' \<noteq> None \<and>
   getFunction ex_pp_result ''__scatter32'' = None \<and>
   VFunction ''main'' \<in> set (dce_roots ex_pp_module) \<and>
   getFunction ex_pp_result ''main'' = getFunction ex_pp_module ''main''"
proof -
  have run: "protect_prune ex_registry ex_pp_module = Inr ex_pp_result"
    by code_simp
  have g1: "(''masked_32'', [''__masked_load_32'', ''__masked_store_32'']) \<in>
              set (persistentGroups ex_registry)"
    and g2: "(''gather_32'', [''__gather32'', ''__scatter32'']) \<in>
              set (persistentGroups ex_registry)"
    by (simp_all add: ex_registry_def)
  have live: "used_by_live ex_registry ex_pp_module (VFunction ''__masked_load_32'')"
    by code_simp
  have present: "getFunction ex_pp_module ''__masked_load_32'' \<noteq> None"
    "getFunction ex_pp_module ''__masked_store_32'' \<noteq> None"
    "getFunction ex_pp_module ''__scatter32'' \<noteq> None"
    by code_simp+
  have unused: "numUses ex_pp_module (VFunction ''__gather32'') = 0"
    "numUses ex_pp_module (VFunction ''__scatter32'') = 0"
    by code_simp+
  have groups: "\<forall>(g', fs') \<in> set (persistentGroups ex_registry).
      ''__scatter32'' \<in> set fs' \<longrightarrow> (\<forall>n \<in> set fs'. numUses ex_pp_module (VFunction n) = 0)"
    using unused by (simp add: ex_registry_def)
  have notpf: "''__scatter32'' \<notin> fst ` set (persistentFuncs ex_registry)"
    by (simp add: ex_registry_def)
  have notroot: "VFunction ''__scatter32'' \<notin> set (dce_roots ex_pp_module)"
    by code_simp
  have root: "VFunction ''main'' \<in> set (dce_roots ex_pp_module)"
    by code_simp
  have kept: "getFunction ex_pp_result ''__masked_store_32'' \<noteq> None"
    using persistent_group_all_or_nothing[OF run g1, THEN conjunct1, rule_format,
            of "''__masked_load_32''" "''__masked_store_32''"] live present
    by simp
  have gone: "getFunction ex_pp_result ''__scatter32'' = None"
    using persistent_group_all_or_nothing[OF run g2, THEN conjunct2, THEN conjunct1, rule_format,
            of "''__scatter32''"] groups notpf notroot
    by simp
  have same: "getFunction ex_pp_result ''main'' = getFunction ex_pp_module ''main''"
    using persistent_group_all_or_nothing[OF run g1, THEN conjunct2, THEN conjunct2, rule_format,
            of "''main''"] root
    by simp
  from run live present unused notroot kept gone root same show ?thesis by blast
qed

section \<open>The marker is erased and rebuilt by the re-closure only\<close>

lemma unique_name_free: "base \<notin> set taken \<Longrightarrow> unique_name taken base = base"
  by (simp add: unique_name_def)

lemma name_free_after_remove1:
  assumes "distinct (map f xs)" "x \<in> set xs"
  shows "f x \<notin> f ` set (remove1 x xs)"
proof -
  from assms(1) have d: "distinct xs" and inj: "inj_on f (set xs)"
    by (auto simp: distinct_map)
  from d have "set (remove1 x xs) = set xs - {x}" by simp
  with inj assms(2) show ?thesis by (auto dest: inj_onD)
qed

lemma marker_name_free_after_erase:
  assumes U: "getNamedGlobal M ''llvm.compiler.used'' = Some llvmUsed"
    and d: "distinct (all_names M)"
  shows "''llvm.compiler.used'' \<notin> set (all_names (eraseFromParent M llvmUsed))"
proof -
  from U have mem: "llvmUsed \<in> set (mod_globals M)" and nm: "gv_name llvmUsed = ''llvm.compiler.used''"
    by (auto dest: getNamedGlobal_Some_mem)
  from d have dg: "distinct (map gv_name (mod_globals M))"
    and disj: "set (map fn_name (mod_functions M)) \<inter> set (map gv_name (mod_globals M)) = {}"
    by (simp_all add: all_names_def)
  from mem nm disj have "''llvm.compiler.used'' \<notin> set (map fn_name (mod_functions M))"
    by force
  moreover from name_free_after_remove1[OF dg mem] nm
  have "''llvm.compiler.used'' \<notin> set (map gv_name (remove1 llvmUsed (mod_globals M)))"
    by simp
  ultimately show ?thesis
    by (simp add: all_names_def eraseFromParent_def)
qed

text \<open>
  C3, as the claim states it, fails: the anchor step, on a module that has a marker and a
  persistent function, builds a second marker and leaves the first where it was.
\<close>

theorem anchor_keeps_existing_marker:
  "getNamedGlobal ex_module_with_marker ''llvm.compiler.used'' =
     Some (mk_marker ''llvm.compiler.used'' [VFunction ''__keep'']) \<and>
   mod_globals (lAddPersistentToLLVMUsed ex_keep_registry ex_module_with_marker) =
     [mk_marker ''llvm.compiler.used'' [VFunction ''__keep''],
      mk_marker ''llvm.compiler.used.1'' [VFunction ''__keep'']]"
  by code_simp

text \<open>
  C3, amended. The re-closure rebuilds the marker wholesale: lUpdateLLVMUsed takes the
  existing marker out of the module and appends a new variable \<^verbatim>\<open>llvm.compiler.used\<close>
  initialized with the list it is given, so that the module then has this one variable
  of that name, and its functions are untouched. The anchor step erases nothing: it
  leaves the global variables as they are and appends at most one.
\<close>

theorem marker_rebuilt_wholesale_by_reclosure:
  assumes U: "getNamedGlobal M ''llvm.compiler.used'' = Some llvmUsed"
    and d: "distinct (all_names M)"
  shows
   "mod_globals (lUpdateLLVMUsed M llvmUsed newElements) =
      remove1 llvmUsed (mod_globals M) @
        [\<lparr>gv_name = ''llvm.compiler.used'', gv_linkage = AppendingLinkage,
          gv_section = ''llvm.metadata'', gv_init = Some (VConstantArray newElements)\<rparr>] \<and>
    llvmUsed \<notin> set (remove1 llvmUsed (mod_globals M)) \<and>
    filter (\<lambda>G. gv_name G = ''llvm.compiler.used'')
           (mod_globals (lUpdateLLVMUsed M llvmUsed newElements)) =
        [\<lparr>gv_name = ''llvm.compiler.used'', gv_linkage = AppendingLinkage,
          gv_section = ''llvm.metadata'', gv_init = Some (VConstantArray newElements)\<rparr>] \<and>
    mod_functions (lUpdateLLVMUsed M llvmUsed newElements) = mod_functions M \<and>
    mod_functions (lAddPersistentToLLVMUsed reg M) = mod_functions M \<and>
    mod_globals (lAddPersistentToLLVMUsed reg M) =
      mod_globals M @
        (if lAnchorConstPtrs reg M = [] then []
         else [\<lparr>gv_name = unique_name (all_names M) ''llvm.compiler.used'',
                 gv_linkage = AppendingLinkage, gv_section = ''llvm.metadata'',
                 gv_init = Some (VConstantArray (lAnchorConstPtrs reg M))\<rparr>])"
proof -
  from U have mem: "llvmUsed \<in> set (mod_globals M)" and nm: "gv_name llvmUsed = ''llvm.compiler.used''"
    by (auto dest: getNamedGlobal_Some_mem)
  from d have dg: "distinct (map gv_name (mod_globals M))"
    by (simp add: all_names_def)
  then have dgs: "distinct (mod_globals M)" by (simp add: distinct_map)
  have free: "unique_name (all_names (eraseFromParent M llvmUsed)) ''llvm.compiler.used'' =
                ''llvm.compiler.used''"
    by (rule unique_name_free[OF marker_name_free_after_erase[OF U d]])
  have g: "mod_globals (lUpdateLLVMUsed M llvmUsed newElements) =
      remove1 llvmUsed (mod_globals M) @
        [\<lparr>gv_name = ''llvm.compiler.used'', gv_linkage = AppendingLinkage,
          gv_section = ''llvm.metadata'', gv_init = Some (VConstantArray newElements)\<rparr>]"
    by (simp add: lUpdateLLVMUsed_simps free)
  from dgs have gone: "llvmUsed \<notin> set (remove1 llvmUsed (mod_globals M))" by simp
  from name_free_after_remove1[OF dg mem]
  have "\<forall>G \<in> set (remove1 llvmUsed (mod_globals M)). gv_name G \<noteq> gv_name llvmUsed"
    by (metis imageI)
  then have "filter (\<lambda>G. gv_name G = ''llvm.compiler.used'') (remove1 llvmUsed (mod_globals M)) = []"
    unfolding nm by (simp add: filter_empty_conv)
  with g have one: "filter (\<lambda>G. gv_name G = ''llvm.compiler.used'')
           (mod_globals (lUpdateLLVMUsed M llvmUsed newElements)) =
        [\<lparr>gv_name = ''llvm.compiler.used'', gv_linkage = AppendingLinkage,
          gv_section = ''llvm.metadata'', gv_init = Some (VConstantArray newElements)\<rparr>]"
    by simp
  have anchor: "mod_functions (lAddPersistentToLLVMUsed reg M) = mod_functions M"
    "mod_globals (lAddPersistentToLLVMUsed reg M) =
      mod_globals M @
        (if lAnchorConstPtrs reg M = [] then []
         else [\<lparr>gv_name = unique_name (all_names M) ''llvm.compiler.used'',
                 gv_linkage = AppendingLinkage, gv_section = ''llvm.metadata'',
                 gv_init = Some (VConstantArray (lAnchorConstPtrs reg M))\<rparr>])"
    by (simp_all add: lAddPersistentToLLVMUsed_def Let_def lCreateLLVMUsed_simps)
  from g gone one anchor show ?thesis
    by (simp add: lUpdateLLVMUsed_simps)
qed

text \<open>
  The instance: the re-closure's update of the example's marker with the empty list
  leaves the one, new, empty marker.
\<close>

theorem marker_rebuilt_wholesale_by_reclosure_witness:
  "getNamedGlobal ex_module_with_marker ''llvm.compiler.used'' =
     Some (mk_marker ''llvm.compiler.used'' [VFunction ''__keep'']) \<and>
   distinct (all_names ex_module_with_marker) \<and>
   mod_globals (lUpdateLLVMUsed ex_module_with_marker
                  (mk_marker ''llvm.compiler.used'' [VFunction ''__keep'']) []) =
     [mk_marker ''llvm.compiler.used'' []]"
proof -
  have U: "getNamedGlobal ex_module_with_marker ''llvm.compiler.used'' =
     Some (mk_marker ''llvm.compiler.used'' [VFunction ''__keep''])"
    by code_simp
  have d: "distinct (all_names ex_module_with_marker)"
    by code_simp
  have r: "remove1 (mk_marker ''llvm.compiler.used'' [VFunction ''__keep''])
             (mod_globals ex_module_with_marker) = []"
    by (simp add: ex_module_with_marker_def mk_module_def)
  from marker_rebuilt_wholesale_by_reclosure[OF U d, of "[]"] r
  have "mod_globals (lUpdateLLVMUsed ex_module_with_marker
                  (mk_marker ''llvm.compiler.used'' [VFunction ''__keep'']) []) =
     [mk_marker ''llvm.compiler.used'' []]"
    by (simp add: mk_marker_def)
  with U d show ?thesis by blast
qed

section \<open>The protect-prune engine run twice\<close>

subsection \<open>Pruned modules\<close>

lemma all_alive_iff:
  "all_alive M =
     ((\<forall>F \<in> set (mod_functions M). VFunction (fn_name F) \<in> alive M) \<and>
      (\<forall>G \<in> set (mod_globals M). VGlobalVariable (gv_name G) \<in> alive M))"
  by (simp add: all_alive_def list_all_iff)

lemma all_alive_GlobalDCE: "all_alive (GlobalDCE M)"
  by (simp add: all_alive_iff alive_GlobalDCE GlobalDCE_simps)

lemma GlobalDCE_id: "all_alive M \<Longrightarrow> GlobalDCE M = M"
  by (simp add: all_alive_iff GlobalDCE_def filter_id_conv)

lemma all_alive_lCreateLLVMUsed:
  assumes "all_alive M"
  shows "all_alive (lCreateLLVMUsed M P)"
proof -
  have "VGlobalVariable (unique_name (all_names M) ''llvm.compiler.used'') \<in>
          alive (lCreateLLVMUsed M P)"
    by (rule alive_root) (simp add: dce_roots_iff lCreateLLVMUsed_simps isDiscardableIfUnused_def)
  with assms alive_lCreateLLVMUsed[of M P] show ?thesis
    by (auto simp: all_alive_iff lCreateLLVMUsed_simps)
qed

lemma all_alive_anchor: "all_alive M \<Longrightarrow> all_alive (lAddPersistentToLLVMUsed reg M)"
  by (simp add: lAddPersistentToLLVMUsed_def Let_def all_alive_lCreateLLVMUsed)

subsection \<open>Markers in order\<close>

lemma persistent_name_iff:
  "persistent_name reg n =
     (n \<in> fst ` set (persistentFuncs reg) \<or> (\<exists>(g, fs) \<in> set (persistentGroups reg). n \<in> set fs))"
  by (simp add: persistent_name_def list_ex_iff)

lemma case_VFunction_iff:
  "(case op of VFunction n \<Rightarrow> Q n | _ \<Rightarrow> False) = (\<exists>n. op = VFunction n \<and> Q n)"
  by (cases op) auto

lemma good_operands_iff:
  "good_operands reg M P =
     (\<forall>op \<in> set P. \<exists>n. op = VFunction n \<and> persistent_name reg n \<and> getFunction M n \<noteq> None)"
  by (simp add: good_operands_def list_all_iff case_VFunction_iff)

lemma marker_in_order_iff:
  "marker_in_order reg M =
     (\<forall>G \<in> set (mod_globals M). gv_name G = ''llvm.compiler.used'' \<longrightarrow>
        (\<exists>P. gv_init G = Some (VConstantArray P) \<and> good_operands reg M P))"
proof -
  have "\<And>G. (case gv_init G of Some (VConstantArray P) \<Rightarrow> good_operands reg M P | _ \<Rightarrow> False) =
             (\<exists>P. gv_init G = Some (VConstantArray P) \<and> good_operands reg M P)"
    by (auto split: option.splits llvm_value.splits)
  then show ?thesis by (auto simp: marker_in_order_def list_all_iff)
qed

lemma good_operands_anchor: "good_operands reg M (lAnchorConstPtrs reg M)"
  by (auto simp: good_operands_iff lAnchorConstPtrs_set persistent_name_iff)

lemma good_operands_collect: "good_operands reg M (lCollectPreservedFunctions reg M used)"
  by (auto simp: good_operands_iff lCollectPreservedFunctions_set persistent_name_iff)

lemma good_operands_cong:
  "mod_functions M = mod_functions M' \<Longrightarrow> good_operands reg M P = good_operands reg M' P"
  by (simp add: good_operands_iff getFunction_def)

lemma good_operands_functions: "good_operands reg M P \<Longrightarrow> set P \<subseteq> range VFunction"
  by (auto simp: good_operands_iff)

lemma marker_in_order_anchor:
  assumes "marker_in_order reg M"
  shows "marker_in_order reg (lAddPersistentToLLVMUsed reg M)"
proof (cases "lAnchorConstPtrs reg M = []")
  case True
  with assms show ?thesis by (simp add: lAddPersistentToLLVMUsed_def)
next
  case False
  then have eq: "lAddPersistentToLLVMUsed reg M = lCreateLLVMUsed M (lAnchorConstPtrs reg M)"
    by (simp add: lAddPersistentToLLVMUsed_def Let_def)
  have c: "\<And>P. good_operands reg (lCreateLLVMUsed M (lAnchorConstPtrs reg M)) P = good_operands reg M P"
    by (rule good_operands_cong) (simp add: lCreateLLVMUsed_simps)
  from assms good_operands_anchor[of reg M] show ?thesis
    unfolding eq by (auto simp: marker_in_order_iff c lCreateLLVMUsed_simps)
qed

lemma lExtractOperands_functions:
  assumes "set P \<subseteq> range VFunction"
  shows "lExtractOperands M P S =
           Inr (S \<union> {n. VFunction n \<in> set P \<and> numUses M (VFunction n) > 1})"
proof -
  have a: "\<And>C. C \<in> set P \<Longrightarrow> marker_operand_value C = C \<and> isa_Function C"
    using assms by (auto simp: marker_operand_value_def isa_Function_def)
  then have "\<not> (\<exists>C \<in> set P. numUses M (marker_operand_value C) > 1 \<and>
                      \<not> isa_Function (marker_operand_value C))" by auto
  moreover have "{name. \<exists>C \<in> set P. marker_operand_value C = VFunction name \<and>
                                  numUses M (VFunction name) > 1} =
                 {n. VFunction n \<in> set P \<and> numUses M (VFunction n) > 1}"
    using a by force
  ultimately show ?thesis
    using lExtractOperands_char[of M P S] by simp
qed

lemma in_set_remove1_or: "G \<in> set xs \<Longrightarrow> G \<in> set (remove1 U xs) \<or> G = U"
  by (cases "G = U") simp_all

lemma find_Some_mem: "find Q xs = Some U \<Longrightarrow> U \<in> set xs \<and> Q U"
  by (induction xs) (auto split: if_splits)

lemma find_append_first:
  assumes "find Q (xs @ ys) = Some U"
  shows "U \<in> set xs \<or> ((\<forall>x \<in> set xs. \<not> Q x) \<and> U \<in> set ys)"
  using assms by (induction xs) (auto split: if_splits dest: find_Some_mem)

lemma second_run_keeps_functions:
  assumes aa: "all_alive M1" and mo: "marker_in_order reg M1"
  shows "\<exists>M2. protect_prune reg M1 = Inr M2 \<and> mod_functions M2 = mod_functions M1 \<and>
              (\<forall>G \<in> set (mod_globals M1).
                  gv_name G \<noteq> ''llvm.compiler.used'' \<longrightarrow> G \<in> set (mod_globals M2))"
proof -
  define P' where "P' = lAnchorConstPtrs reg M1"
  define Ma where "Ma = lAddPersistentToLLVMUsed reg M1"
  define K3 where "K3 = \<lparr>gv_name = unique_name (all_names M1) ''llvm.compiler.used'',
       gv_linkage = AppendingLinkage, gv_section = ''llvm.metadata'',
       gv_init = Some (VConstantArray P')\<rparr>"
  define Ks where "Ks = (if P' = [] then [] else [K3])"
  have fMa: "mod_functions Ma = mod_functions M1"
    by (simp add: Ma_def lAddPersistentToLLVMUsed_def Let_def lCreateLLVMUsed_simps)
  have gMa: "mod_globals Ma = mod_globals M1 @ Ks"
    by (simp add: Ma_def lAddPersistentToLLVMUsed_def Let_def lCreateLLVMUsed_simps Ks_def K3_def
        P'_def)
  have K3f: "gv_linkage K3 = AppendingLinkage" "gv_init K3 = Some (VConstantArray P')"
    by (simp_all add: K3_def)
  have getF: "\<And>n. getFunction Ma n = getFunction M1 n"
    by (rule getFunction_cong[OF fMa])
  from aa have aaMa: "all_alive Ma" unfolding Ma_def by (rule all_alive_anchor)
  from mo have moMa: "marker_in_order reg Ma" unfolding Ma_def by (rule marker_in_order_anchor)
  from aaMa have dce: "lRemoveUnused Ma = Ma" by (simp add: lRemoveUnused_def GlobalDCE_id)
  have pp: "protect_prune reg M1 = lRemoveUnusedPersistentFunctions reg Ma"
    by (simp add: protect_prune_def Ma_def[symmetric] dce)
  show ?thesis
  proof (cases "getNamedGlobal Ma ''llvm.compiler.used''")
    case None
    then have "protect_prune reg M1 = Inr Ma"
      by (simp add: pp lRemoveUnusedPersistentFunctions_def)
    with fMa gMa show ?thesis by simp
  next
    case (Some U)
    then have Umem: "U \<in> set (mod_globals Ma)" and Unm: "gv_name U = ''llvm.compiler.used''"
      by (auto dest: getNamedGlobal_Some_mem)
    with moMa obtain PU where PU: "gv_init U = Some (VConstantArray PU)"
      and goodU: "good_operands reg Ma PU"
      by (auto simp: marker_in_order_iff)
    define used where "used = {n. VFunction n \<in> set PU \<and> numUses Ma (VFunction n) > 1}"
    have ex: "lExtractUsedFunctions Ma U {} = Inr used"
      using lExtractOperands_functions[OF good_operands_functions[OF goodU], of Ma "{}"]
      by (simp add: lExtractUsedFunctions_def PU used_def)
    define P2 where "P2 = lCollectPreservedFunctions reg Ma (lFindUsedPersistentGroups reg Ma used)"
    define M3 where "M3 = lUpdateLLVMUsed Ma U P2"
    have res: "protect_prune reg M1 = Inr (GlobalDCE M3)"
      by (simp add: pp lRemoveUnusedPersistentFunctions_def Some ex Let_def P2_def M3_def
          lRemoveUnused_def)
    have fM3: "mod_functions M3 = mod_functions Ma"
      by (simp add: M3_def lUpdateLLVMUsed_simps)
    obtain K2 where gM3: "mod_globals M3 = remove1 U (mod_globals Ma) @ [K2]"
      and K2f: "gv_linkage K2 = AppendingLinkage" "gv_init K2 = Some (VConstantArray P2)"
      by (simp add: M3_def lUpdateLLVMUsed_simps)
    have K2in: "K2 \<in> set (mod_globals M3)" by (simp add: gM3)
    have viaP2: "\<And>n. VFunction n \<in> set P2 \<Longrightarrow> VFunction n \<in> alive M3"
      by (rule marker_keeps_alive[OF K2in K2f])
    have first: "(U \<in> set (mod_globals M1)) \<or>
                 ((\<forall>G \<in> set (mod_globals M1). gv_name G \<noteq> ''llvm.compiler.used'') \<and> U \<in> set Ks)"
      using find_append_first[OF Some[unfolded getNamedGlobal_def gMa]]
      by blast
    \<comment> \<open>what a marker of the module before the run holds is kept: a persistent function by
        the marker the re-closure builds, a member of a group by the marker of the anchor\<close>
    have key: "VFunction n \<in> alive M3"
      if G: "G \<in> set (mod_globals M1)" "gv_name G = ''llvm.compiler.used''"
        and P: "gv_init G = Some (VConstantArray P)" "VFunction n \<in> set P" for G P n
    proof -
      from mo G P(1) have "good_operands reg M1 P" by (auto simp: marker_in_order_iff)
      with P(2) have pn: "persistent_name reg n" and present: "getFunction M1 n \<noteq> None"
        by (auto simp: good_operands_iff)
      show ?thesis
      proof (cases "n \<in> fst ` set (persistentFuncs reg)")
        case True
        with present have "VFunction n \<in> set P2"
          by (auto simp: P2_def lCollectPreservedFunctions_set getF)
        then show ?thesis by (rule viaP2)
      next
        case False
        with pn obtain g fs where grp: "(g, fs) \<in> set (persistentGroups reg)" "n \<in> set fs"
          by (auto simp: persistent_name_iff)
        from first G have U1: "U \<in> set (mod_globals M1)" by blast
        from G(1) P(1) have "VConstantArray P \<in> set (all_operands M1)"
          by (auto simp: all_operands_def gv_operands_def intro!: bexI[of _ G])
        moreover from P(2) have "VFunction n \<in> set (subvalues (VConstantArray P))"
          by (auto intro!: bexI[of _ "VFunction n"])
        ultimately have "numUses M1 (VFunction n) > 0" by (rule numUses_pos)
        with present grp(2) have "isGroupUsed M1 fs"
          by (auto simp: isGroupUsed_def list_ex_iff intro!: bexI[of _ n])
        with grp present have inP': "VFunction n \<in> set P'"
          by (auto simp: P'_def lAnchorConstPtrs_set)
        then have "Ks = [K3]" by (auto simp: Ks_def)
        with U1 have "K3 \<in> set (mod_globals M3)"
          by (simp add: gM3 gMa remove1_append)
        from marker_keeps_alive[OF this K3f inP'] show ?thesis .
      qed
    qed
    define S where "S = alive M3 \<union> {VGlobalVariable ''llvm.compiler.used''}"
    have "alive M1 \<subseteq> S"
    proof (rule alive_subsetI)
      show "set (dce_roots M1) \<subseteq> S"
      proof
        fix r assume "r \<in> set (dce_roots M1)"
        then consider F where "F \<in> set (mod_functions M1)" "r = VFunction (fn_name F)"
            "\<not> isDeclaration F" "\<not> isDiscardableIfUnused (fn_linkage F)"
          | G where "G \<in> set (mod_globals M1)" "r = VGlobalVariable (gv_name G)"
            "gv_init G \<noteq> None" "\<not> isDiscardableIfUnused (gv_linkage G)"
          by (auto simp: dce_roots_iff)
        then show "r \<in> S"
        proof cases
          case 1
          then have "r \<in> set (dce_roots M3)" by (auto simp: dce_roots_iff fM3 fMa)
          then show ?thesis by (auto simp: S_def intro: alive_root)
        next
          case 2
          from 2(1) have "G \<in> set (mod_globals Ma)" by (simp add: gMa)
          from in_set_remove1_or[OF this, of U] show ?thesis
          proof
            assume "G \<in> set (remove1 U (mod_globals Ma))"
            with 2 have "r \<in> set (dce_roots M3)" by (auto simp: dce_roots_iff gM3)
            then show ?thesis by (auto simp: S_def intro: alive_root)
          next
            assume "G = U"
            with 2(2) Unm show ?thesis by (simp add: S_def)
          qed
        qed
      qed
    next
      fix x y assume xS: "x \<in> S" and xy: "(x, y) \<in> set (dependencies M1)"
      from xy consider F where "F \<in> set (mod_functions M1)" "x = VFunction (fn_name F)"
            "y \<in> set (value_refs (fn_operands F))"
          | G where "G \<in> set (mod_globals M1)" "x = VGlobalVariable (gv_name G)"
            "y \<in> set (value_refs (gv_operands G))"
        by (auto simp: dependencies_iff)
      then show "y \<in> S"
      proof cases
        case 1
        with xS have "x \<in> alive M3" by (simp add: S_def)
        moreover from 1 have "(x, y) \<in> set (dependencies M3)"
          by (auto simp: dependencies_iff fM3 fMa)
        ultimately show ?thesis by (auto simp: S_def intro: alive_step)
      next
        case 2
        show ?thesis
        proof (cases "gv_name G = ''llvm.compiler.used''")
          case True
          with mo 2(1) obtain P where P: "gv_init G = Some (VConstantArray P)"
            "good_operands reg M1 P"
            by (auto simp: marker_in_order_iff)
          from 2(3) P(1) have "y \<in> set (value_refs [VConstantArray P])"
            by (simp add: gv_operands_def)
          with value_refs_array[OF good_operands_functions[OF P(2)]] P(2)
          obtain n where "y = VFunction n" "VFunction n \<in> set P"
            by (auto simp: good_operands_iff)
          with key[OF 2(1) True P(1)] show ?thesis by (simp add: S_def)
        next
          case False
          with Unm have "G \<noteq> U" by auto
          with 2(1) have "G \<in> set (mod_globals M3)" by (simp add: gM3 gMa)
          with 2 have "(x, y) \<in> set (dependencies M3)" by (auto simp: dependencies_iff)
          moreover from xS False 2(2) have "x \<in> alive M3" by (simp add: S_def)
          ultimately show ?thesis by (auto simp: S_def intro: alive_step)
        qed
      qed
    qed
    with aa have fs: "\<forall>F \<in> set (mod_functions M1). VFunction (fn_name F) \<in> alive M3"
      and gs: "\<forall>G \<in> set (mod_globals M1). gv_name G \<noteq> ''llvm.compiler.used'' \<longrightarrow>
                 VGlobalVariable (gv_name G) \<in> alive M3"
      by (auto simp: all_alive_iff S_def)
    from fs have f: "mod_functions (GlobalDCE M3) = mod_functions M1"
      by (simp add: GlobalDCE_simps fM3 fMa filter_id_conv)
    have g: "G \<in> set (mod_globals (GlobalDCE M3))"
      if G: "G \<in> set (mod_globals M1)" "gv_name G \<noteq> ''llvm.compiler.used''" for G
    proof -
      from G(1) have Ga: "G \<in> set (mod_globals Ma)" by (simp add: gMa)
      from G(2) Unm have "G \<noteq> U" by auto
      with Ga have "G \<in> set (mod_globals M3)" by (simp add: gM3)
      with gs G show ?thesis by (simp add: GlobalDCE_simps)
    qed
    from res f g show ?thesis by simp
  qed
qed


lemma length_filter_conj_le: "length (filter (\<lambda>x. R x \<and> Q x) xs) \<le> length (filter Q xs)"
  by (induction xs) auto

lemma filter_remove1_single:
  "length (filter Q xs) \<le> 1 \<Longrightarrow> U \<in> set xs \<Longrightarrow> Q U \<Longrightarrow> filter Q (remove1 U xs) = []"
proof (induction xs)
  case Nil
  then show ?case by simp
next
  case (Cons x xs)
  show ?case
  proof (cases "x = U")
    case True
    with Cons.prems have "filter Q xs = []" by simp
    with True show ?thesis by simp
  next
    case False
    with Cons.prems have "U \<in> set xs" by simp
    with Cons.prems(3) have "filter Q xs \<noteq> []" by (auto simp: filter_empty_conv)
    with Cons.prems(1) have "\<not> Q x" by (cases "filter Q xs") (auto split: if_splits)
    with Cons False \<open>U \<in> set xs\<close> show ?thesis by (auto split: if_splits)
  qed
qed

lemma first_run_invariant:
  assumes one: "length (filter (\<lambda>G. gv_name G = ''llvm.compiler.used'') (mod_globals M)) \<le> 1"
    and pp: "protect_prune reg M = Inr M1"
  shows "all_alive M1 \<and> marker_in_order reg M1"
proof -
  define P1 where "P1 = lAnchorConstPtrs reg M"
  define Mx where "Mx = lAddPersistentToLLVMUsed reg M"
  define K1 where "K1 = \<lparr>gv_name = unique_name (all_names M) ''llvm.compiler.used'',
       gv_linkage = AppendingLinkage, gv_section = ''llvm.metadata'',
       gv_init = Some (VConstantArray P1)\<rparr>"
  define Ks where "Ks = (if P1 = [] then [] else [K1])"
  define M2 where "M2 = lRemoveUnused Mx"
  define old where "old = filter (\<lambda>G. VGlobalVariable (gv_name G) \<in> alive Mx) (mod_globals M)"
  have fMx: "mod_functions Mx = mod_functions M"
    by (simp add: Mx_def lAddPersistentToLLVMUsed_def Let_def lCreateLLVMUsed_simps)
  have gMx: "mod_globals Mx = mod_globals M @ Ks"
    by (simp add: Mx_def lAddPersistentToLLVMUsed_def Let_def lCreateLLVMUsed_simps Ks_def K1_def
        P1_def)
  have K1f: "gv_linkage K1 = AppendingLinkage" "gv_init K1 = Some (VConstantArray P1)"
    by (simp_all add: K1_def)
  have M2: "M2 = GlobalDCE Mx" by (simp add: M2_def lRemoveUnused_def)
  have K1alive: "VGlobalVariable (gv_name K1) \<in> alive Mx" if "P1 \<noteq> []"
    by (rule alive_root) (use that K1f in \<open>force simp: dce_roots_iff gMx Ks_def isDiscardableIfUnused_def\<close>)
  have gM2: "mod_globals M2 = old @ Ks"
    using K1alive by (auto simp: M2 GlobalDCE_simps gMx old_def Ks_def)
  have P1M2: "getFunction M2 n \<noteq> None" if "VFunction n \<in> set P1" for n
  proof -
    from that have ne: "P1 \<noteq> []" by auto
    then have "K1 \<in> set (mod_globals Mx)" by (simp add: gMx Ks_def)
    from marker_keeps_alive[OF this K1f that] have "VFunction n \<in> alive Mx" .
    moreover from that have "getFunction M n \<noteq> None"
      by (auto simp: P1_def lAnchorConstPtrs_set)
    ultimately show ?thesis
      using getFunction_cong[OF fMx] by (simp add: M2 getFunction_GlobalDCE)
  qed
  from pp have rc: "lRemoveUnusedPersistentFunctions reg M2 = Inr M1"
    by (simp add: protect_prune_def M2_def Mx_def)
  show ?thesis
  proof (cases "getNamedGlobal M2 ''llvm.compiler.used''")
    case None
    with rc have M1: "M1 = M2" by (simp add: lRemoveUnusedPersistentFunctions_def)
    from None have "\<forall>G \<in> set (mod_globals M2). gv_name G \<noteq> ''llvm.compiler.used''"
      by (auto simp: getNamedGlobal_def find_None_iff)
    then have "marker_in_order reg M2" by (auto simp: marker_in_order_iff)
    with M1 M2 all_alive_GlobalDCE[of Mx] show ?thesis by simp
  next
    case (Some U)
    then have Umem: "U \<in> set (mod_globals M2)" and Unm: "gv_name U = ''llvm.compiler.used''"
      by (auto dest: getNamedGlobal_Some_mem)
    from Some rc obtain used where
      M1: "M1 = lRemoveUnused (lUpdateLLVMUsed M2 U
                  (lCollectPreservedFunctions reg M2 (lFindUsedPersistentGroups reg M2 used)))"
      by (auto simp: lRemoveUnusedPersistentFunctions_def Let_def split: sum.splits)
    define P2 where "P2 = lCollectPreservedFunctions reg M2 (lFindUsedPersistentGroups reg M2 used)"
    define M3 where "M3 = lUpdateLLVMUsed M2 U P2"
    have M1': "M1 = GlobalDCE M3" by (simp add: M1 P2_def M3_def lRemoveUnused_def)
    have fM3: "mod_functions M3 = mod_functions M2"
      by (simp add: M3_def lUpdateLLVMUsed_simps)
    obtain K2 where gM3: "mod_globals M3 = remove1 U (mod_globals M2) @ [K2]"
      and K2f: "gv_linkage K2 = AppendingLinkage" "gv_init K2 = Some (VConstantArray P2)"
      by (simp add: M3_def lUpdateLLVMUsed_simps)
    have kept: "getFunction M1 n \<noteq> None"
      if "K \<in> set (mod_globals M3)" "gv_linkage K = AppendingLinkage"
         "gv_init K = Some (VConstantArray P)"
         "VFunction n \<in> set P" "getFunction M2 n \<noteq> None" for K P n
      using marker_keeps_alive[OF that(1-4)] that(5) getFunction_cong[OF fM3]
      by (simp add: M1' getFunction_GlobalDCE)
    have goodK2: "good_operands reg M1 P2"
    proof -
      have "good_operands reg M2 P2" unfolding P2_def by (rule good_operands_collect)
      moreover have "getFunction M1 n \<noteq> None" if "VFunction n \<in> set P2" for n
        using kept[of K2 P2 n] that K2f
        by (auto simp: gM3 P2_def lCollectPreservedFunctions_set)
      ultimately show ?thesis by (auto simp: good_operands_iff)
    qed
    have goodK1: "good_operands reg M1 P1" if "K1 \<in> set (mod_globals M3)"
    proof -
      have "good_operands reg M P1" unfolding P1_def by (rule good_operands_anchor)
      moreover have "getFunction M1 n \<noteq> None" if n: "VFunction n \<in> set P1" for n
        using kept[OF \<open>K1 \<in> set (mod_globals M3)\<close> K1f n P1M2[OF n]] .
      ultimately show ?thesis by (auto simp: good_operands_iff)
    qed
    have oldone: "length (filter (\<lambda>G. gv_name G = ''llvm.compiler.used'') old) \<le> 1"
    proof -
      have "length (filter (\<lambda>G. gv_name G = ''llvm.compiler.used'') old) \<le>
            length (filter (\<lambda>G. gv_name G = ''llvm.compiler.used'') (mod_globals M))"
        unfolding old_def filter_filter
        by (rule length_filter_conj_le)
      with one show ?thesis by simp
    qed
    have rest: "G \<in> set Ks"
      if G: "G \<in> set (remove1 U (mod_globals M2))" "gv_name G = ''llvm.compiler.used''" for G
    proof -
      from find_append_first[OF Some[unfolded getNamedGlobal_def gM2]]
      consider "U \<in> set old" | "\<forall>x \<in> set old. gv_name x \<noteq> ''llvm.compiler.used''" "U \<in> set Ks"
        by blast
      then show ?thesis
      proof cases
        case 1
        from filter_remove1_single[of "\<lambda>G. gv_name G = ''llvm.compiler.used''" old U,
                OF oldone 1 Unm] G(2)
        have "G \<notin> set (remove1 U old)" by (auto simp: filter_empty_conv)
        with G(1) 1 show ?thesis by (simp add: gM2 remove1_append)
      next
        case 2
        with Unm have "U \<notin> set old" by auto
        with G(1) have "G \<in> set old \<or> G \<in> set (remove1 U Ks)"
          by (simp add: gM2 remove1_append)
        with 2(1) G(2) have "G \<in> set (remove1 U Ks)" by auto
        then show ?thesis by (auto simp: Ks_def split: if_splits)
      qed
    qed
    have "marker_in_order reg M1"
      unfolding marker_in_order_iff
    proof (intro ballI impI)
      fix G assume G: "G \<in> set (mod_globals M1)" "gv_name G = ''llvm.compiler.used''"
      from G(1) have G3: "G \<in> set (mod_globals M3)" by (simp add: M1' GlobalDCE_simps)
      then consider "G \<in> set (remove1 U (mod_globals M2))" | "G = K2" by (auto simp: gM3)
      then show "\<exists>P. gv_init G = Some (VConstantArray P) \<and> good_operands reg M1 P"
      proof cases
        case 1
        from rest[OF 1 G(2)] have "G = K1" by (auto simp: Ks_def split: if_splits)
        with G3 goodK1 K1f show ?thesis by simp
      next
        case 2
        with goodK2 K2f show ?thesis by simp
      qed
    qed
    with M1' all_alive_GlobalDCE[of M3] show ?thesis by simp
  qed
qed

text \<open>
  C6, as the claim states it, fails: a second run of the engine on the module the first
  run ended with ends with another module. The anchor of the second run, finding the
  persistent function used by the marker of the first, builds a marker of its own next
  to it.
\<close>

theorem second_run_changes_module:
  "protect_prune ex_keep_registry ex_keep_module = Inr ex_module_with_marker \<and>
   protect_prune ex_keep_registry ex_module_with_marker = Inr ex_module_with_two_markers \<and>
   ex_module_with_two_markers \<noteq> ex_module_with_marker"
proof -
  have "protect_prune ex_keep_registry ex_keep_module = Inr ex_module_with_marker"
    by code_simp
  moreover have "protect_prune ex_keep_registry ex_module_with_marker =
                   Inr ex_module_with_two_markers"
    by code_simp
  moreover have "ex_module_with_two_markers \<noteq> ex_module_with_marker"
    by (simp add: ex_module_with_two_markers_def ex_module_with_marker_def mk_module_def)
  ultimately show ?thesis by blast
qed

text \<open>
  C6, amended. On a module with at most one global variable named
  \<^verbatim>\<open>llvm.compiler.used\<close>, when a run of the engine ends without abort, a second run on its
  result ends without abort too and removes nothing but the marker it rebuilds: the
  functions are the same, and every global variable of another name is still there.
\<close>

theorem protect_prune_second_run_removes_nothing:
  assumes "length (filter (\<lambda>G. gv_name G = ''llvm.compiler.used'') (mod_globals M)) \<le> 1"
    and "protect_prune reg M = Inr M1"
  shows "\<exists>M2. protect_prune reg M1 = Inr M2 \<and> mod_functions M2 = mod_functions M1 \<and>
              (\<forall>G \<in> set (mod_globals M1).
                  gv_name G \<noteq> ''llvm.compiler.used'' \<longrightarrow> G \<in> set (mod_globals M2))"
  using first_run_invariant[OF assms] second_run_keeps_functions by blast

text \<open>
  The instance: the module with the persistent function alone; the second run keeps the
  function.
\<close>

theorem protect_prune_second_run_removes_nothing_witness:
  "length (filter (\<lambda>G. gv_name G = ''llvm.compiler.used'') (mod_globals ex_keep_module)) \<le> 1 \<and>
   protect_prune ex_keep_registry ex_keep_module = Inr ex_module_with_marker \<and>
   (\<exists>M2. protect_prune ex_keep_registry ex_module_with_marker = Inr M2 \<and>
         mod_functions M2 = [mk_def ''__keep'' InternalLinkage []])"
proof -
  have h1: "length (filter (\<lambda>G. gv_name G = ''llvm.compiler.used'')
              (mod_globals ex_keep_module)) \<le> 1"
    by (simp add: ex_keep_module_def mk_module_def)
  have h2: "protect_prune ex_keep_registry ex_keep_module = Inr ex_module_with_marker"
    by code_simp
  have f: "mod_functions ex_module_with_marker = [mk_def ''__keep'' InternalLinkage []]"
    by (simp add: ex_module_with_marker_def mk_module_def)
  from protect_prune_second_run_removes_nothing[OF h1 h2] f
  have "\<exists>M2. protect_prune ex_keep_registry ex_module_with_marker = Inr M2 \<and>
         mod_functions M2 = [mk_def ''__keep'' InternalLinkage []]"
    by auto
  with h1 h2 show ?thesis by blast
qed

section \<open>The bitcode merge and the library's declarations\<close>

lemma getOrInsertFunction_globals [simp]:
  "mod_globals (getOrInsertFunction M n r ps at) = mod_globals M"
  by (simp add: getOrInsertFunction_def split: option.splits)

lemma getFunction_append_keep:
  "getFunction M n \<noteq> None \<Longrightarrow> mod_functions M' = mod_functions M @ fs \<Longrightarrow> getFunction M' n \<noteq> None"
  by (auto simp: getFunction_None_iff)

lemma getOrInsertFunction_keeps:
  "getFunction M n' \<noteq> None \<Longrightarrow> getFunction (getOrInsertFunction M n r ps at) n' \<noteq> None"
  by (auto simp: getOrInsertFunction_def getFunction_None_iff split: option.splits)

lemma getOrInsertFunction_names:
  "fn_name ` set (mod_functions (getOrInsertFunction M n r ps at)) =
     fn_name ` set (mod_functions M) \<union> (if getNamedGlobal M n = None then {n} else {})"
proof (cases "getFunction M n")
  case None
  then show ?thesis by (simp add: getOrInsertFunction_def split: option.splits)
next
  case (Some F)
  then have "n \<in> fn_name ` set (mod_functions M)"
    using getFunction_None_iff[of M n] by simp
  with Some show ?thesis by (auto simp: getOrInsertFunction_def)
qed

lemma getOrInsertFunction_has:
  assumes "getNamedGlobal M n = None"
  shows "getFunction (getOrInsertFunction M n r ps at) n \<noteq> None"
  using assms getOrInsertFunction_names[of M n r ps at]
  by (simp add: getFunction_None_iff)

lemma getNamedGlobal_cong:
  "mod_globals M = mod_globals M' \<Longrightarrow> getNamedGlobal M n = getNamedGlobal M' n"
  by (simp add: getNamedGlobal_def)

lemma lMoveUnusedDeclarations_globals [simp]:
  "mod_globals (lMoveUnusedDeclarations bc fs M) = mod_globals M"
  by (induction fs arbitrary: M) simp_all

lemma lMoveUnusedDeclarations_keeps:
  "getFunction M n \<noteq> None \<Longrightarrow> getFunction (lMoveUnusedDeclarations bc fs M) n \<noteq> None"
proof (induction fs arbitrary: M)
  case Nil
  then show ?case by simp
next
  case (Cons f' fs)
  define M' where "M' = (if isDeclaration f' then
          (if numUses bc (VFunction (fn_name f')) > 0 then M
           else getOrInsertFunction M (fn_name f') (fn_ret f') (fn_params f') (fn_attrs f'))
        else M)"
  from Cons.prems have "getFunction M' n \<noteq> None"
    unfolding M'_def using getOrInsertFunction_keeps[of M n] by (simp del: not_None_eq)
  from Cons.IH[OF this] show ?case by (simp add: M'_def)
qed

lemma lMoveUnusedDeclarations_has:
  assumes "f \<in> set fs" "isDeclaration f" "numUses bc (VFunction (fn_name f)) = 0"
    "getNamedGlobal M (fn_name f) = None"
  shows "getFunction (lMoveUnusedDeclarations bc fs M) (fn_name f) \<noteq> None"
  using assms
proof (induction fs arbitrary: M)
  case Nil
  then show ?case by simp
next
  case (Cons f' fs)
  define M' where "M' = (if isDeclaration f' then
          (if numUses bc (VFunction (fn_name f')) > 0 then M
           else getOrInsertFunction M (fn_name f') (fn_ret f') (fn_params f') (fn_attrs f'))
        else M)"
  have g: "getNamedGlobal M' (fn_name f) = None"
    using Cons.prems(4) getNamedGlobal_cong[of M' M] by (simp add: M'_def)
  have step: "lMoveUnusedDeclarations bc (f' # fs) M = lMoveUnusedDeclarations bc fs M'"
    by (simp add: M'_def)
  show ?case
  proof (cases "f = f'")
    case True
    with Cons.prems have "getFunction M' (fn_name f) \<noteq> None"
      by (simp add: M'_def getOrInsertFunction_has)
    then show ?thesis unfolding step by (rule lMoveUnusedDeclarations_keeps)
  next
    case False
    with Cons.prems have "f \<in> set fs" by simp
    from Cons.IH[OF this Cons.prems(2,3) g] show ?thesis unfolding step .
  qed
qed

lemma lMoveUnusedDeclarations_names:
  "fn_name ` set (mod_functions (lMoveUnusedDeclarations bc fs M)) =
     fn_name ` set (mod_functions M) \<union>
     {fn_name f | f. f \<in> set fs \<and> isDeclaration f \<and> numUses bc (VFunction (fn_name f)) = 0 \<and>
                     getNamedGlobal M (fn_name f) = None}"
proof (induction fs arbitrary: M)
  case Nil
  show ?case by simp
next
  case (Cons f' fs)
  define M' where "M' = (if isDeclaration f' then
          (if numUses bc (VFunction (fn_name f')) > 0 then M
           else getOrInsertFunction M (fn_name f') (fn_ret f') (fn_params f') (fn_attrs f'))
        else M)"
  have g: "\<And>n. getNamedGlobal M' n = getNamedGlobal M n"
    by (rule getNamedGlobal_cong) (simp add: M'_def)
  have step: "lMoveUnusedDeclarations bc (f' # fs) M = lMoveUnusedDeclarations bc fs M'"
    by (simp add: M'_def)
  have M'names: "fn_name ` set (mod_functions M') =
      fn_name ` set (mod_functions M) \<union>
      (if isDeclaration f' \<and> numUses bc (VFunction (fn_name f')) = 0 \<and>
          getNamedGlobal M (fn_name f') = None then {fn_name f'} else {})"
    by (simp add: M'_def getOrInsertFunction_names)
  show ?case
    unfolding step Cons.IH[of M'] M'names g by auto
qed

lemma link_function_name [simp]: "fn_name (link_function src needed D) = fn_name D"
  by (auto simp: link_function_def split: option.splits dest: find_Some_mem)

lemma linkModules_keeps:
  assumes "getFunction dst n \<noteq> None"
  shows "getFunction (fst (linkModules dst src)) n \<noteq> None"
proof -
  from assms have "n \<in> fn_name ` set (mod_functions dst)" by (simp add: getFunction_None_iff)
  then have "n \<in> fn_name ` set (map (link_function src (link_needed dst src)) (mod_functions dst))"
    by (force simp: image_iff)
  then show ?thesis
    by (auto simp: linkModules_def Let_def getFunction_None_iff assms)
qed

lemma linkModules_names:
  "fn_name ` set (mod_functions (fst (linkModules dst src))) =
     fn_name ` set (mod_functions dst) \<union>
     (if link_fails dst src then {}
      else {fn_name F | F. F \<in> set (mod_functions src) \<and> VFunction (fn_name F) \<in> link_needed dst src})"
proof (cases "link_fails dst src")
  case True
  then show ?thesis by (simp add: linkModules_def)
next
  case False
  let ?needed = "link_needed dst src"
  have a: "fn_name ` set (map (link_function src ?needed) (mod_functions dst)) =
           fn_name ` set (mod_functions dst)"
    by (force simp: image_iff)
  have b: "fn_name ` set (mod_functions dst) \<union>
           fn_name ` {F \<in> set (mod_functions src). VFunction (fn_name F) \<in> ?needed \<and>
                                                  getFunction dst (fn_name F) = None} =
           fn_name ` set (mod_functions dst) \<union>
           {fn_name F | F. F \<in> set (mod_functions src) \<and> VFunction (fn_name F) \<in> ?needed}"
    by (auto simp: getFunction_None_iff)
  from False have "fn_name ` set (mod_functions (fst (linkModules dst src))) =
        fn_name ` set (map (link_function src ?needed) (mod_functions dst)) \<union>
        fn_name ` {F \<in> set (mod_functions src). VFunction (fn_name F) \<in> ?needed \<and>
                                               getFunction dst (fn_name F) = None}"
    by (simp add: linkModules_def Let_def image_Un)
  with a b False show ?thesis by simp
qed

lemma lLinkBitcode_names:
  "fn_name ` set (mod_functions (fst (lLinkBitcode xe bc M))) =
     fn_name ` set (mod_functions M) \<union>
     {fn_name f | f. f \<in> set (mod_functions bc) \<and> isDeclaration f \<and>
                     numUses bc (VFunction (fn_name f)) = 0 \<and> getNamedGlobal M (fn_name f) = None} \<union>
     {fn_name F | F. F \<in> set (mod_functions bc) \<and> VFunction (fn_name F) \<in> needed_by_link xe bc M}"
  unfolding lLinkBitcode_def needed_by_link_def Let_def lUpdateIntrinsicsAttributes_def
    linkModules_names lMoveUnusedDeclarations_names
  by auto

lemma lLinkBitcode_used_declaration:
  assumes "f \<in> set (mod_functions bc)" "numUses bc (VFunction (fn_name f)) > 0"
  shows "(getFunction (fst (lLinkBitcode xe bc M)) (fn_name f) \<noteq> None) =
         (getFunction M (fn_name f) \<noteq> None \<or> VFunction (fn_name f) \<in> needed_by_link xe bc M)"
proof -
  have "(getFunction (fst (lLinkBitcode xe bc M)) (fn_name f) \<noteq> None) =
        (fn_name f \<in> fn_name ` set (mod_functions (fst (lLinkBitcode xe bc M))))"
    by (simp add: getFunction_None_iff)
  also have "\<dots> = (fn_name f \<in> fn_name ` set (mod_functions M) \<or>
                     VFunction (fn_name f) \<in> needed_by_link xe bc M)"
    unfolding lLinkBitcode_names using assms by auto
  finally show ?thesis by (simp add: getFunction_None_iff)
qed

lemma lLinkBitcode_has:
  assumes "f \<in> set (mod_functions bc)" "isDeclaration f" "numUses bc (VFunction (fn_name f)) = 0"
    "getNamedGlobal M (fn_name f) = None"
  shows "getFunction (fst (lLinkBitcode xe bc M)) (fn_name f) \<noteq> None"
  using lMoveUnusedDeclarations_has[OF assms]
  by (simp add: lLinkBitcode_def lUpdateIntrinsicsAttributes_def Let_def linkModules_keeps)

lemma lLinkBitcode_keeps:
  "getFunction M n \<noteq> None \<Longrightarrow> getFunction (fst (lLinkBitcode xe bc M)) n \<noteq> None"
  by (simp add: lLinkBitcode_def lUpdateIntrinsicsAttributes_def Let_def linkModules_keeps
      lMoveUnusedDeclarations_keeps)

lemma lAddBitcodeToModule_module:
  "deref w bcModule = Some bc \<Longrightarrow>
   the_module (lAddBitcodeToModule g bcModule w) = fst (lLinkBitcode (isXeTarget g) bc (the_module w))"
  by (simp add: lAddBitcodeToModule_def report_def Let_def split: prod.splits)

text \<open>
  C10, as the claim states it, fails: the library of the example declares
  \<^verbatim>\<open>llvm.sqrt.f32\<close>, which its function \<^verbatim>\<open>__helper\<close> uses; the target module does not ask
  for \<^verbatim>\<open>__helper\<close>, the needed-only link leaves both behind, and the target module has no
  function \<^verbatim>\<open>llvm.sqrt.f32\<close> after the merge.
\<close>

theorem used_declaration_not_moved:
  "deref ex_world (Some 0) = Some ex_library \<and>
   mk_decl ''llvm.sqrt.f32'' \<in> set (mod_functions ex_library) \<and>
   isDeclaration (mk_decl ''llvm.sqrt.f32'') \<and>
   numUses ex_library (VFunction ''llvm.sqrt.f32'') = 1 \<and>
   getFunction (the_module ex_world) ''llvm.sqrt.f32'' = None \<and>
   the_module (lAddBitcodeToModule ex_globals (Some 0) ex_world) =
     mk_module [mk_def ''main'' ExternalLinkage [], mk_decl ''__unused_decl''] [] \<and>
   getFunction (the_module (lAddBitcodeToModule ex_globals (Some 0) ex_world)) ''llvm.sqrt.f32'' = None"
  by code_simp

text \<open>
  C10, amended. For every function that a library module declares without defining it
  and that has no use inside the library, the target module has a function of that name
  after the merge, whether the link fails or not, provided the name is not that of a
  global variable of the target module; and every function the target module had
  before, it still has. A declaration that has a use inside the library is in the target
  module after the merge exactly when the target module had a function of that name
  before or the link brings the declaration in, as one of the global values that the
  needed-only link needs.
\<close>

theorem lAddBitcodeToModule_keeps_unused_declarations:
  assumes "deref w bcModule = Some bc"
  shows "(\<forall>f \<in> set (mod_functions bc).
            isDeclaration f \<and> numUses bc (VFunction (fn_name f)) = 0 \<and>
            getNamedGlobal (the_module w) (fn_name f) = None
            \<longrightarrow> getFunction (the_module (lAddBitcodeToModule g bcModule w)) (fn_name f) \<noteq> None) \<and>
         (\<forall>n. getFunction (the_module w) n \<noteq> None
            \<longrightarrow> getFunction (the_module (lAddBitcodeToModule g bcModule w)) n \<noteq> None) \<and>
         (\<forall>f \<in> set (mod_functions bc).
            isDeclaration f \<and> numUses bc (VFunction (fn_name f)) > 0
            \<longrightarrow> (getFunction (the_module (lAddBitcodeToModule g bcModule w)) (fn_name f) \<noteq> None) =
                (getFunction (the_module w) (fn_name f) \<noteq> None \<or>
                 VFunction (fn_name f) \<in> needed_by_link (isXeTarget g) bc (the_module w)))"
  unfolding lAddBitcodeToModule_module[OF assms]
  using lLinkBitcode_has[of _ bc "the_module w" "isXeTarget g"]
        lLinkBitcode_keeps[of "the_module w" _ "isXeTarget g" bc]
        lLinkBitcode_used_declaration[of _ bc "isXeTarget g" "the_module w"]
  by blast

text \<open>
  The instances: the declaration \<^verbatim>\<open>__unused_decl\<close> of the example's library has no use and
  is a function of the target module after the merge. The declaration \<^verbatim>\<open>llvm.sqrt.f32\<close>
  has a use by \<^verbatim>\<open>__helper\<close>; the link needs it for the target module that declares and
  calls \<^verbatim>\<open>__helper\<close>, and there it is a function of the target module after the merge.
\<close>

theorem lAddBitcodeToModule_keeps_unused_declarations_witness:
  "deref ex_world (Some 0) = Some ex_library \<and>
   mk_decl ''__unused_decl'' \<in> set (mod_functions ex_library) \<and>
   isDeclaration (mk_decl ''__unused_decl'') \<and>
   numUses ex_library (VFunction ''__unused_decl'') = 0 \<and>
   getNamedGlobal (the_module ex_world) ''__unused_decl'' = None \<and>
   getFunction (the_module (lAddBitcodeToModule ex_globals (Some 0) ex_world)) ''__unused_decl'' \<noteq> None \<and>
   deref ex_world_with_call (Some 0) = Some ex_library \<and>
   mk_decl ''llvm.sqrt.f32'' \<in> set (mod_functions ex_library) \<and>
   isDeclaration (mk_decl ''llvm.sqrt.f32'') \<and>
   numUses ex_library (VFunction ''llvm.sqrt.f32'') > 0 \<and>
   VFunction ''llvm.sqrt.f32'' \<in> needed_by_link False ex_library (the_module ex_world_with_call) \<and>
   getFunction (the_module (lAddBitcodeToModule ex_globals (Some 0) ex_world_with_call))
     ''llvm.sqrt.f32'' \<noteq> None"
proof -
  have d: "deref ex_world (Some 0) = Some ex_library" by code_simp
  have m: "mk_decl ''__unused_decl'' \<in> set (mod_functions ex_library)"
    by (simp add: ex_library_def mk_module_def)
  have i: "isDeclaration (mk_decl ''__unused_decl'')" by (simp add: isDeclaration_def mk_decl_def)
  have u: "numUses ex_library (VFunction ''__unused_decl'') = 0" by code_simp
  have n: "getNamedGlobal (the_module ex_world) ''__unused_decl'' = None" by code_simp
  have nm: "fn_name (mk_decl ''__unused_decl'') = ''__unused_decl''" by (simp add: mk_decl_def)
  have xe: "isXeTarget ex_globals = False" by (simp add: ex_globals_def)
  from lAddBitcodeToModule_keeps_unused_declarations[OF d, of ex_globals, THEN conjunct1,
        THEN bspec, OF m] i u n nm
  have one: "getFunction (the_module (lAddBitcodeToModule ex_globals (Some 0) ex_world))
          ''__unused_decl'' \<noteq> None"
    by simp
  have d2: "deref ex_world_with_call (Some 0) = Some ex_library" by code_simp
  have m2: "mk_decl ''llvm.sqrt.f32'' \<in> set (mod_functions ex_library)"
    by (simp add: ex_library_def mk_module_def)
  have i2: "isDeclaration (mk_decl ''llvm.sqrt.f32'')" by (simp add: isDeclaration_def mk_decl_def)
  have u2: "numUses ex_library (VFunction ''llvm.sqrt.f32'') > 0" by code_simp
  have nm2: "fn_name (mk_decl ''llvm.sqrt.f32'') = ''llvm.sqrt.f32''" by (simp add: mk_decl_def)
  have needed: "VFunction ''llvm.sqrt.f32'' \<in>
                  needed_by_link False ex_library (the_module ex_world_with_call)"
    by code_simp
  from lAddBitcodeToModule_keeps_unused_declarations[OF d2, of ex_globals, THEN conjunct2,
        THEN conjunct2, THEN bspec, OF m2] i2 u2 nm2 needed xe
  have two: "getFunction (the_module (lAddBitcodeToModule ex_globals (Some 0) ex_world_with_call))
          ''llvm.sqrt.f32'' \<noteq> None"
    by simp
  from d m i u n one d2 m2 i2 u2 needed two show ?thesis by blast
qed

section \<open>The composition with and without the standard library\<close>

subsection \<open>The order of the stages\<close>

lemma and_then_Inr [simp]: "and_then (Inr x) f = f x"
  by (simp add: and_then_def)

lemma and_then_Inl [simp]: "and_then (Inl e) f = Inl e"
  by (simp add: and_then_def)

lemma and_then_assoc: "and_then (and_then r f) h = and_then r (\<lambda>x. and_then (f x) h)"
  by (cases r) simp_all

lemma protect_prune_on_module:
  "on_module_fatal (protect_prune reg) w =
   on_module_fatal (lRemoveUnusedPersistentFunctions reg)
     (on_module lRemoveUnused (on_module (lAddPersistentToLLVMUsed reg) w))"
  by (simp add: on_module_fatal_def on_module_def protect_prune_def split: sum.splits)

lemma builtin_stages_unfold:
  "builtin_stages g (w5, debug_num1) =
          and_then (lLinkCommonBuiltins g w5) (\<lambda>w6.
          and_then (Inr (on_module lRemoveUnused w6)) (\<lambda>w7.
          and_then (Inr (debugDumpModule g ''LinkCommonBuiltins'' debug_num1 w7)) (\<lambda>w8.
          and_then (lLinkTargetBuiltins g w8) (\<lambda>w9.
          and_then (Inr (on_module lRemoveUnused w9)) (\<lambda>w10.
          and_then (Inr (debugDumpModule g ''LinkTargetBuiltins'' (debug_num1 + 1) w10)) (\<lambda>w11.
          and_then (Inr (on_module lSetInternalLinkageGlobals w11)) (\<lambda>w12.
          and_then (lCheckModuleIntrinsics (toolkit g) (the_module w12)) (\<lambda>u.
          Inr (w12, debug_num1 + 2)))))))))"
  by (simp add: builtin_stages_def Let_def)

lemma LinkStandardLibraries_stages:
  "LinkStandardLibraries g w debug_num =
     and_then
       (if includeStdlib g then stdlib_stage g w debug_num
        else Inr (on_module (lAddPersistentToLLVMUsed (preservation g)) w, debug_num))
       (builtin_stages g)"
proof -
  have b: "builtin_stages g = (\<lambda>(w5, debug_num1).
          and_then (lLinkCommonBuiltins g w5) (\<lambda>w6.
          and_then (Inr (on_module lRemoveUnused w6)) (\<lambda>w7.
          and_then (Inr (debugDumpModule g ''LinkCommonBuiltins'' debug_num1 w7)) (\<lambda>w8.
          and_then (lLinkTargetBuiltins g w8) (\<lambda>w9.
          and_then (Inr (on_module lRemoveUnused w9)) (\<lambda>w10.
          and_then (Inr (debugDumpModule g ''LinkTargetBuiltins'' (debug_num1 + 1) w10)) (\<lambda>w11.
          and_then (Inr (on_module lSetInternalLinkageGlobals w11)) (\<lambda>w12.
          and_then (lCheckModuleIntrinsics (toolkit g) (the_module w12)) (\<lambda>u.
          Inr (w12, debug_num1 + 2))))))))))"
    by (rule ext) (auto simp: builtin_stages_unfold)
  have s: "stdlib_stage g w debug_num =
          and_then (lLinkStdlib g w) (\<lambda>w1.
          and_then (Inr (on_module (lAddPersistentToLLVMUsed (preservation g)) w1)) (\<lambda>w2.
          and_then (Inr (on_module lRemoveUnused w2)) (\<lambda>w3.
          and_then (on_module_fatal (lRemoveUnusedPersistentFunctions (preservation g)) w3) (\<lambda>w4.
          Inr (debugDumpModule g ''LinkStdlib'' debug_num w4, debug_num + 1)))))"
    by (simp add: stdlib_stage_def protect_prune_on_module)
  show ?thesis
    unfolding LinkStandardLibraries_def b s ..
qed

lemma anchor_only:
  "store (on_module (lAddPersistentToLLVMUsed reg) w) = store w \<and>
   reported (on_module (lAddPersistentToLLVMUsed reg) w) = reported w \<and>
   dumped (on_module (lAddPersistentToLLVMUsed reg) w) = dumped w \<and>
   mod_functions (the_module (on_module (lAddPersistentToLLVMUsed reg) w)) =
     mod_functions (the_module w) \<and>
   mod_globals (the_module (on_module (lAddPersistentToLLVMUsed reg) w)) =
     mod_globals (the_module w) @
       (if lAnchorConstPtrs reg (the_module w) = [] then []
        else [\<lparr>gv_name = unique_name (all_names (the_module w)) ''llvm.compiler.used'',
                gv_linkage = AppendingLinkage, gv_section = ''llvm.metadata'',
                gv_init = Some (VConstantArray (lAnchorConstPtrs reg (the_module w)))\<rparr>])"
  by (simp add: on_module_def lAddPersistentToLLVMUsed_def Let_def lCreateLLVMUsed_simps)

text \<open>The builtin stages do not read the flag.\<close>

lemma lAddBitcodeToModule_flag:
  "lAddBitcodeToModule (g\<lparr>includeStdlib := b\<rparr>) p w = lAddBitcodeToModule g p w"
  by (simp add: lAddBitcodeToModule_def Let_def split: option.splits prod.splits)

lemma debugDumpModule_flag:
  "debugDumpModule (g\<lparr>includeStdlib := b\<rparr>) name stage w = debugDumpModule g name stage w"
  by (simp add: debugDumpModule_def Let_def)

lemma lLinkCommonBuiltins_flag:
  "lLinkCommonBuiltins (g\<lparr>includeStdlib := b\<rparr>) w = lLinkCommonBuiltins g w"
  by (simp add: lLinkCommonBuiltins_def lAddBitcodeToModule_flag Let_def
      split: option.splits prod.splits)

lemma lLinkTargetBuiltins_flag:
  "lLinkTargetBuiltins (g\<lparr>includeStdlib := b\<rparr>) w = lLinkTargetBuiltins g w"
  by (simp add: lLinkTargetBuiltins_def lAddBitcodeToModule_flag Let_def
      split: option.splits prod.splits)

lemma builtin_stages_flag: "builtin_stages (g\<lparr>includeStdlib := b\<rparr>) = builtin_stages g"
  by (simp add: builtin_stages_def lLinkCommonBuiltins_flag lLinkTargetBuiltins_flag
      debugDumpModule_flag Let_def)

text \<open>
  C5. Without the standard library, LinkStandardLibraries is the anchor step followed by
  the builtin stages (the link of the common builtins and its prune, the link of the
  target builtins and its prune, the demotion of the global variables, the intrinsic
  check). The anchor step reads no library, leaves the functions of the module as they
  are, reports and dumps nothing, and adds at most the marker to the global variables:
  nothing is linked, pruned or re-closed. With the standard library, the same builtin
  stages run on what the standard-library stage (link, anchor, prune, re-closure, dump)
  ends with; the builtin stages themselves are the same function of the module and the
  counter whatever the flag is.
\<close>

theorem LinkStandardLibraries_stdlib_optional:
  "(\<not> includeStdlib g \<longrightarrow>
      LinkStandardLibraries g w debug_num =
        builtin_stages g (on_module (lAddPersistentToLLVMUsed (preservation g)) w, debug_num) \<and>
      store (on_module (lAddPersistentToLLVMUsed (preservation g)) w) = store w \<and>
      reported (on_module (lAddPersistentToLLVMUsed (preservation g)) w) = reported w \<and>
      dumped (on_module (lAddPersistentToLLVMUsed (preservation g)) w) = dumped w \<and>
      mod_functions (the_module (on_module (lAddPersistentToLLVMUsed (preservation g)) w)) =
        mod_functions (the_module w) \<and>
      mod_globals (the_module (on_module (lAddPersistentToLLVMUsed (preservation g)) w)) =
        mod_globals (the_module w) @
          (if lAnchorConstPtrs (preservation g) (the_module w) = [] then []
           else [\<lparr>gv_name = unique_name (all_names (the_module w)) ''llvm.compiler.used'',
                   gv_linkage = AppendingLinkage, gv_section = ''llvm.metadata'',
                   gv_init = Some (VConstantArray (lAnchorConstPtrs (preservation g) (the_module w)))\<rparr>])) \<and>
   (includeStdlib g \<longrightarrow>
      LinkStandardLibraries g w debug_num =
        and_then (stdlib_stage g w debug_num) (builtin_stages g)) \<and>
   builtin_stages (g\<lparr>includeStdlib := True\<rparr>) = builtin_stages (g\<lparr>includeStdlib := False\<rparr>)"
  using anchor_only[of "preservation g" w]
  by (simp add: LinkStandardLibraries_stages builtin_stages_flag)

text \<open>
  The instances: the composition of the example without the standard library is the
  builtin stages after the anchor, and ends with the members of the used group linked
  in and demoted; with the standard library it is the builtin stages after the
  standard-library stage.
\<close>

theorem LinkStandardLibraries_stdlib_optional_witness:
  "\<not> includeStdlib ex_globals \<and>
   LinkStandardLibraries ex_globals ex_compose_world 0 =
     builtin_stages ex_globals
       (on_module (lAddPersistentToLLVMUsed (preservation ex_globals)) ex_compose_world, 0) \<and>
   LinkStandardLibraries ex_globals ex_compose_world 0 =
     Inr (ex_compose_world\<lparr>the_module := ex_composed_module,
                            store := [Some ex_builtins_library, None, None]\<rparr>, 2) \<and>
   includeStdlib (ex_globals\<lparr>includeStdlib := True\<rparr>) \<and>
   LinkStandardLibraries (ex_globals\<lparr>includeStdlib := True\<rparr>) ex_compose_world 0 =
     and_then (stdlib_stage (ex_globals\<lparr>includeStdlib := True\<rparr>) ex_compose_world 0)
              (builtin_stages (ex_globals\<lparr>includeStdlib := True\<rparr>))"
proof -
  have no: "\<not> includeStdlib ex_globals" by (simp add: ex_globals_def)
  have yes: "includeStdlib (ex_globals\<lparr>includeStdlib := True\<rparr>)" by simp
  have run: "LinkStandardLibraries ex_globals ex_compose_world 0 =
     Inr (ex_compose_world\<lparr>the_module := ex_composed_module,
                            store := [Some ex_builtins_library, None, None]\<rparr>, 2)"
    by code_simp
  from LinkStandardLibraries_stdlib_optional[of ex_globals ex_compose_world 0] no
  have a: "LinkStandardLibraries ex_globals ex_compose_world 0 =
     builtin_stages ex_globals
       (on_module (lAddPersistentToLLVMUsed (preservation ex_globals)) ex_compose_world, 0)"
    by blast
  from LinkStandardLibraries_stdlib_optional[of "ex_globals\<lparr>includeStdlib := True\<rparr>"
         ex_compose_world 0] yes
  have b: "LinkStandardLibraries (ex_globals\<lparr>includeStdlib := True\<rparr>) ex_compose_world 0 =
     and_then (stdlib_stage (ex_globals\<lparr>includeStdlib := True\<rparr>) ex_compose_world 0)
              (builtin_stages (ex_globals\<lparr>includeStdlib := True\<rparr>))"
    by blast
  from no a run yes b show ?thesis by blast
qed

section \<open>The library modules are left as they are\<close>

subsection \<open>The store\<close>

lemma objects_untouched_refl: "objects_untouched w w"
  by (simp add: objects_untouched_def)

lemma objects_untouched_trans:
  assumes "objects_untouched w w'" "objects_untouched w' w''"
  shows "objects_untouched w w''"
proof -
  from assms have l: "length (store w) \<le> length (store w')" "length (store w') \<le> length (store w'')"
    and t1: "take (length (store w)) (store w') = store w"
    and t2: "take (length (store w')) (store w'') = store w'"
    by (simp_all add: objects_untouched_def)
  have "take (length (store w)) (store w'') =
        take (length (store w)) (take (length (store w')) (store w''))"
    using l(1) by (simp add: min_absorb1)
  also have "\<dots> = store w" by (simp only: t2 t1)
  finally show ?thesis using l by (simp add: objects_untouched_def)
qed

lemma objects_untouched_same: "store w' = store w \<Longrightarrow> objects_untouched w w'"
  by (simp add: objects_untouched_def)

lemma objects_untouched_new:
  assumes "store w1 = store w @ [x]"
    and "store w' = store w1 \<or> (\<exists>y. store w' = (store w1)[length (store w) := y])"
  shows "objects_untouched w w'"
proof -
  from assms obtain z where "store w' = store w @ [z]"
    by (metis list_update_length)
  then show ?thesis by (simp add: objects_untouched_def)
qed


lemma getLLVMModule_cases:
  assumes "getLLVMModule lib w = (p, w1)"
  shows "(p = None \<and> w1 = w) \<or>
         (\<exists>M. p = Some (length (store w)) \<and> store w1 = store w @ [Some M])"
  using assms by (auto simp: getLLVMModule_def split: option.splits)

lemma deref_Some_bound: "deref w ptr = Some M \<Longrightarrow> \<exists>p. ptr = Some p \<and> p < length (store w)"
  by (auto simp: deref_def split: option.splits if_splits)

lemma lAddBitcodeToModule_store:
  "store (lAddBitcodeToModule g bcModule w) = store w \<or>
   (\<exists>p. bcModule = Some p \<and> store (lAddBitcodeToModule g bcModule w) = (store w)[p := None])"
proof (cases "deref w bcModule")
  case None
  then show ?thesis by (simp add: lAddBitcodeToModule_def report_def)
next
  case (Some bc)
  from deref_Some_bound[OF Some] obtain p where "bcModule = Some p" by blast
  with Some show ?thesis
    by (simp add: lAddBitcodeToModule_def report_def Let_def split: prod.splits)
qed

lemma lAddDeclarationsToModule_store:
  "store (lAddDeclarationsToModule g bcModule w) = store w \<or>
   (\<exists>p y. bcModule = Some p \<and> store (lAddDeclarationsToModule g bcModule w) = (store w)[p := y])"
proof (cases "deref w bcModule")
  case None
  then show ?thesis by (simp add: lAddDeclarationsToModule_def report_def)
next
  case (Some bc)
  from deref_Some_bound[OF Some] obtain p where "bcModule = Some p" by blast
  with Some show ?thesis
    by (auto simp: lAddDeclarationsToModule_def Let_def)
qed

lemma store_on_module [simp]: "store (on_module f w) = store w"
  by (simp add: on_module_def)

lemma store_debugDumpModule [simp]: "store (debugDumpModule g name stage w) = store w"
  by (simp add: debugDumpModule_def Let_def)

lemma store_on_module_fatal: "on_module_fatal f w = Inr w' \<Longrightarrow> store w' = store w"
  by (auto simp: on_module_fatal_def split: sum.splits)

text \<open>A call that writes to nothing but the cell it has made leaves the objects before untouched.\<close>

definition one_new_cell :: "world \<Rightarrow> world \<Rightarrow> bool" where
  "one_new_cell w w' = (\<exists>z. store w' = store w @ [z])"

lemma one_new_cell_update:
  "one_new_cell w w1 \<Longrightarrow> store w2 = store w1 \<or> (\<exists>y. store w2 = (store w1)[length (store w) := y]) \<Longrightarrow>
   one_new_cell w w2"
  unfolding one_new_cell_def by (metis list_update_length)

lemma one_new_cell_untouched: "one_new_cell w w' \<Longrightarrow> objects_untouched w w'"
  by (auto simp: one_new_cell_def objects_untouched_def)

lemma bitcode_after_new_cell:
  assumes "one_new_cell w w1"
  shows "one_new_cell w (lAddBitcodeToModule g (Some (length (store w))) w1)"
  using lAddBitcodeToModule_store[of g "Some (length (store w))" w1]
  by (intro one_new_cell_update[OF assms]) auto

lemma declarations_after_new_cell:
  assumes "one_new_cell w w1"
  shows "one_new_cell w (lAddDeclarationsToModule g (Some (length (store w))) w1)"
  using lAddDeclarationsToModule_store[of g "Some (length (store w))" w1]
  by (intro one_new_cell_update[OF assms]) auto

lemma bitcode_null: "store (lAddBitcodeToModule g None w) = store w"
  by (simp add: lAddBitcodeToModule_def deref_def report_def)

lemma declarations_null: "store (lAddDeclarationsToModule g None w) = store w"
  by (simp add: lAddDeclarationsToModule_def deref_def report_def)

lemma lLinkCommonBuiltins_untouched:
  assumes "lLinkCommonBuiltins g w = Inr w'"
  shows "objects_untouched w w'"
proof -
  from assms obtain lib where lib: "BuiltinsCLib g = Some lib"
    by (auto simp: lLinkCommonBuiltins_def split: option.splits)
  obtain p w1 where get: "getLLVMModule lib w = (p, w1)" by (cases "getLLVMModule lib w")
  from assms lib get have w': "store w' = store (lAddBitcodeToModule g p w1)"
    by (auto simp: lLinkCommonBuiltins_def Let_def)
  from getLLVMModule_cases[OF get] show ?thesis
  proof
    assume "p = None \<and> w1 = w"
    with w' show ?thesis by (simp add: bitcode_null objects_untouched_same)
  next
    assume "\<exists>M. p = Some (length (store w)) \<and> store w1 = store w @ [Some M]"
    then have p: "p = Some (length (store w))" and "one_new_cell w w1"
      by (auto simp: one_new_cell_def)
    from bitcode_after_new_cell[OF this(2), of g] w' p have "one_new_cell w w'"
      by (simp add: one_new_cell_def)
    then show ?thesis by (rule one_new_cell_untouched)
  qed
qed

lemma LinkDispatcher_untouched:
  assumes "LinkDispatcher g w = Inr w'"
  shows "objects_untouched w w'"
proof -
  from assms obtain lib where lib: "DispatchLib g = Some lib"
    by (auto simp: LinkDispatcher_def split: option.splits)
  obtain p w1 where get: "getLLVMModule lib w = (p, w1)" by (cases "getLLVMModule lib w")
  from assms lib get have w': "w' = lAddBitcodeToModule g p (lAddDeclarationsToModule g p w1)"
    by (auto simp: LinkDispatcher_def Let_def)
  from getLLVMModule_cases[OF get] show ?thesis
  proof
    assume "p = None \<and> w1 = w"
    with w' show ?thesis by (simp add: bitcode_null declarations_null objects_untouched_same)
  next
    assume "\<exists>M. p = Some (length (store w)) \<and> store w1 = store w @ [Some M]"
    then have p: "p = Some (length (store w))" and "one_new_cell w w1"
      by (auto simp: one_new_cell_def)
    from bitcode_after_new_cell[OF declarations_after_new_cell[OF this(2)], of g g] w' p
    have "one_new_cell w w'" by simp
    then show ?thesis by (rule one_new_cell_untouched)
  qed
qed

lemma lLinkStdlib_untouched:
  assumes "lLinkStdlib g w = Inr w'"
  shows "objects_untouched w w'"
proof -
  from assms obtain lib where lib: "ISPCStdLib g = Some lib"
    by (auto simp: lLinkStdlib_def split: option.splits)
  obtain p w1 where get: "getLLVMModule lib w = (p, w1)" by (cases "getLLVMModule lib w")
  from assms lib get obtain bc where bc: "deref w1 p = Some bc"
    by (auto simp: lLinkStdlib_def Let_def split: option.splits)
  then have "p \<noteq> None" by (auto simp: deref_def split: option.splits)
  with getLLVMModule_cases[OF get] have p: "p = Some (length (store w))"
    and new: "one_new_cell w w1"
    by (auto simp: one_new_cell_def)
  from assms lib get bc obtain bc1 where
    w': "store w' = store (lAddBitcodeToModule g p
                     (w1\<lparr>store := (store w1)[the p := Some bc1]\<rparr>))"
    by (auto simp: lLinkStdlib_def Let_def)
  have "one_new_cell w (w1\<lparr>store := (store w1)[the p := Some bc1]\<rparr>)"
    by (rule one_new_cell_update[OF new]) (auto simp: p)
  from bitcode_after_new_cell[OF this, of g] w' p have "one_new_cell w w'"
    by (simp add: one_new_cell_def)
  then show ?thesis by (rule one_new_cell_untouched)
qed

lemma lLinkTargetBuiltins_untouched:
  assumes "lLinkTargetBuiltins g w = Inr w'"
  shows "objects_untouched w w'"
proof -
  from assms obtain lib where lib: "ISPCTargetLib g = Some lib"
    by (auto simp: lLinkTargetBuiltins_def split: option.splits)
  obtain p w1 where get: "getLLVMModule lib w = (p, w1)" by (cases "getLLVMModule lib w")
  from assms lib get obtain bc where bc: "deref w1 p = Some bc"
    by (auto simp: lLinkTargetBuiltins_def Let_def split: option.splits)
  then have "p \<noteq> None" by (auto simp: deref_def split: option.splits)
  with getLLVMModule_cases[OF get] have p: "p = Some (length (store w))"
    and new: "one_new_cell w w1"
    by (auto simp: one_new_cell_def)
  from assms lib get bc obtain bc1 where
    w': "store w' = store (lAddBitcodeToModule g p
                     (w1\<lparr>store := (store w1)[the p := Some bc1]\<rparr>))"
    by (auto simp: lLinkTargetBuiltins_def Let_def)
  have "one_new_cell w (w1\<lparr>store := (store w1)[the p := Some bc1]\<rparr>)"
    by (rule one_new_cell_update[OF new]) (auto simp: p)
  from bitcode_after_new_cell[OF this, of g] w' p have "one_new_cell w w'"
    by (simp add: one_new_cell_def)
  then show ?thesis by (rule one_new_cell_untouched)
qed

subsection \<open>The stages in sequence\<close>

lemma and_then_InrE:
  assumes "and_then r f = Inr y"
  obtains x where "r = Inr x" "f x = Inr y"
  using assms by (cases r) simp_all

lemma objects_untouched_store_cong:
  "store a = store b \<Longrightarrow> objects_untouched w a = objects_untouched w b"
  by (simp add: objects_untouched_def)

lemma stdlib_stage_untouched:
  assumes "stdlib_stage g w n = Inr (w', n')"
  shows "objects_untouched w w'"
proof -
  from assms obtain w1 where w1: "lLinkStdlib g w = Inr w1"
    and rest: "and_then (on_module_fatal (protect_prune (preservation g)) w1)
                 (\<lambda>w4. Inr (debugDumpModule g ''LinkStdlib'' n w4, n + 1)) = Inr (w', n')"
    unfolding stdlib_stage_def by (rule and_then_InrE)
  from rest obtain w4 where w4: "on_module_fatal (protect_prune (preservation g)) w1 = Inr w4"
    and w': "Inr (debugDumpModule g ''LinkStdlib'' n w4, n + 1) = (Inr (w', n') :: fatal + world \<times> int)"
    by (rule and_then_InrE)
  from w' have "store w' = store w4" by auto
  with store_on_module_fatal[OF w4] have "store w' = store w1" by simp
  from objects_untouched_store_cong[OF this, of w] lLinkStdlib_untouched[OF w1]
  show ?thesis by simp
qed

lemma builtin_stages_untouched:
  assumes "builtin_stages g (w, n) = Inr (w', n')"
  shows "objects_untouched w w'"
proof -
  from assms have a: "and_then (lLinkCommonBuiltins g w) (\<lambda>w1.
        and_then (lLinkTargetBuiltins g
                    (debugDumpModule g ''LinkCommonBuiltins'' n (on_module lRemoveUnused w1)))
          (\<lambda>w2.
             let w3 = on_module lSetInternalLinkageGlobals
                        (debugDumpModule g ''LinkTargetBuiltins'' (n + 1)
                           (on_module lRemoveUnused w2))
             in and_then (lCheckModuleIntrinsics (toolkit g) (the_module w3))
                         (\<lambda>u. Inr (w3, n + 2)))) = Inr (w', n')"
    by (simp add: builtin_stages_def)
  from a obtain w1 where w1: "lLinkCommonBuiltins g w = Inr w1"
    and b: "and_then (lLinkTargetBuiltins g
                    (debugDumpModule g ''LinkCommonBuiltins'' n (on_module lRemoveUnused w1)))
          (\<lambda>w2.
             let w3 = on_module lSetInternalLinkageGlobals
                        (debugDumpModule g ''LinkTargetBuiltins'' (n + 1)
                           (on_module lRemoveUnused w2))
             in and_then (lCheckModuleIntrinsics (toolkit g) (the_module w3))
                         (\<lambda>u. Inr (w3, n + 2))) = Inr (w', n')"
    by (rule and_then_InrE)
  define v where "v = debugDumpModule g ''LinkCommonBuiltins'' n (on_module lRemoveUnused w1)"
  from b obtain w2 where w2: "lLinkTargetBuiltins g v = Inr w2"
    and c: "(let w3 = on_module lSetInternalLinkageGlobals
                        (debugDumpModule g ''LinkTargetBuiltins'' (n + 1)
                           (on_module lRemoveUnused w2))
             in and_then (lCheckModuleIntrinsics (toolkit g) (the_module w3))
                         (\<lambda>u. Inr (w3, n + 2))) = Inr (w', n')"
    unfolding v_def by (rule and_then_InrE)
  define w3 where "w3 = on_module lSetInternalLinkageGlobals
                        (debugDumpModule g ''LinkTargetBuiltins'' (n + 1)
                           (on_module lRemoveUnused w2))"
  from c have "and_then (lCheckModuleIntrinsics (toolkit g) (the_module w3))
                 (\<lambda>u. Inr (w3, n + 2)) = Inr (w', n')"
    by (simp add: w3_def Let_def)
  then have "w' = w3" by (rule and_then_InrE) simp
  then have s3: "store w' = store w2" by (simp add: w3_def)
  have sv: "store v = store w1" by (simp add: v_def)
  from lLinkCommonBuiltins_untouched[OF w1] objects_untouched_store_cong[OF sv, of w]
  have "objects_untouched w v" by simp
  moreover from lLinkTargetBuiltins_untouched[OF w2] objects_untouched_store_cong[OF s3, of v]
  have "objects_untouched v w'" by simp
  ultimately show ?thesis by (rule objects_untouched_trans)
qed

lemma LinkStandardLibraries_untouched:
  assumes "LinkStandardLibraries g w n = Inr (w', n')"
  shows "objects_untouched w w'"
proof -
  from assms obtain x where x: "(if includeStdlib g then stdlib_stage g w n
        else Inr (on_module (lAddPersistentToLLVMUsed (preservation g)) w, n)) = Inr x"
    and rest: "builtin_stages g x = Inr (w', n')"
    unfolding LinkStandardLibraries_stages by (rule and_then_InrE)
  obtain w0 n0 where x0: "x = (w0, n0)" by (cases x)
  have "objects_untouched w w0"
  proof (cases "includeStdlib g")
    case True
    with x x0 have "stdlib_stage g w n = Inr (w0, n0)" by simp
    then show ?thesis by (rule stdlib_stage_untouched)
  next
    case False
    with x x0 have "w0 = on_module (lAddPersistentToLLVMUsed (preservation g)) w" by simp
    then show ?thesis by (simp add: objects_untouched_same)
  qed
  moreover from rest x0 have "objects_untouched w0 w'"
    by (auto intro: builtin_stages_untouched)
  ultimately show ?thesis by (rule objects_untouched_trans)
qed

lemma objects_untouched_deref:
  assumes "objects_untouched w w'" "deref w (Some p) = Some M"
  shows "deref w' (Some p) = Some M"
proof -
  from assms(2) have p: "p < length (store w)" and M: "store w ! p = Some M"
    by (auto simp: deref_def split: if_splits)
  from assms(1) have l: "length (store w) \<le> length (store w')"
    and t: "take (length (store w)) (store w') = store w"
    by (simp_all add: objects_untouched_def)
  from p have "store w' ! p = take (length (store w)) (store w') ! p" by simp
  with t M have "store w' ! p = Some M" by simp
  with p l show ?thesis by (simp add: deref_def)
qed

text \<open>
  C4. Every link stage that ends, and the whole of LinkStandardLibraries, leaves every
  module object that was there before as it was: the store afterwards begins with the
  store before. The stages write to the module object that getLLVMModule has made for
  them and to no other; so the module of every library reads afterwards as it read
  before, whatever the stage has done to its copy (the target triple and the data layout
  set by lAddDeclarationsToModule, the data layout set by lLinkTargetBuiltins, the
  renaming for a multi-target compilation by lLinkStdlib, the link that consumes the
  copy).
\<close>

theorem link_stages_leave_libraries_unchanged:
  "(\<forall>w'. lLinkStdlib g w = Inr w' \<longrightarrow> objects_untouched w w') \<and>
   (\<forall>w'. lLinkCommonBuiltins g w = Inr w' \<longrightarrow> objects_untouched w w') \<and>
   (\<forall>w'. lLinkTargetBuiltins g w = Inr w' \<longrightarrow> objects_untouched w w') \<and>
   (\<forall>w'. LinkDispatcher g w = Inr w' \<longrightarrow> objects_untouched w w') \<and>
   (\<forall>w' n'. LinkStandardLibraries g w n = Inr (w', n') \<longrightarrow> objects_untouched w w') \<and>
   (\<forall>w' lib M. objects_untouched w w' \<and> deref w (Some (lib_module lib)) = Some M
       \<longrightarrow> deref w' (Some (lib_module lib)) = Some M)"
  using lLinkStdlib_untouched[of g w] lLinkCommonBuiltins_untouched[of g w]
    lLinkTargetBuiltins_untouched[of g w] LinkDispatcher_untouched[of g w]
    LinkStandardLibraries_untouched[of g w n] objects_untouched_deref[of w]
  by blast

text \<open>
  The instances: the link of the standard library for a multi-target compilation renames
  the definitions of its copy, and the library's module is as before; so it is after the
  whole composition.
\<close>

theorem link_stages_leave_libraries_unchanged_witness:
  "lRenameForTarget ''_sse4'' [0 ..< 4] ex_builtins_library \<noteq> ex_builtins_library \<and>
   lLinkStdlib (ex_globals\<lparr>isMultiTargetCompilation := True\<rparr>) ex_compose_world =
     Inr (ex_compose_world\<lparr>store := [Some ex_builtins_library, None]\<rparr>) \<and>
   objects_untouched ex_compose_world (ex_compose_world\<lparr>store := [Some ex_builtins_library, None]\<rparr>) \<and>
   LinkStandardLibraries ex_globals ex_compose_world 0 =
     Inr (ex_compose_world\<lparr>the_module := ex_composed_module,
                            store := [Some ex_builtins_library, None, None]\<rparr>, 2) \<and>
   deref ex_compose_world (Some (lib_module \<lparr>lib_module = 0\<rparr>)) = Some ex_builtins_library \<and>
   deref (ex_compose_world\<lparr>the_module := ex_composed_module,
                           store := [Some ex_builtins_library, None, None]\<rparr>)
         (Some (lib_module \<lparr>lib_module = 0\<rparr>)) = Some ex_builtins_library"
proof -
  let ?g = "ex_globals\<lparr>isMultiTargetCompilation := True\<rparr>"
  let ?w1 = "ex_compose_world\<lparr>store := [Some ex_builtins_library, None]\<rparr>"
  let ?w2 = "ex_compose_world\<lparr>the_module := ex_composed_module,
                              store := [Some ex_builtins_library, None, None]\<rparr>"
  have ren: "lRenameForTarget ''_sse4'' [0 ..< 4] ex_builtins_library \<noteq> ex_builtins_library"
    by code_simp
  have r1: "lLinkStdlib ?g ex_compose_world = Inr ?w1" by code_simp
  have r2: "LinkStandardLibraries ex_globals ex_compose_world 0 = Inr (?w2, 2)" by code_simp
  have d: "deref ex_compose_world (Some (lib_module \<lparr>lib_module = 0\<rparr>)) = Some ex_builtins_library"
    by (simp add: deref_def ex_compose_world_def)
  note t = link_stages_leave_libraries_unchanged[of ?g ex_compose_world 0]
  note u = link_stages_leave_libraries_unchanged[of ex_globals ex_compose_world 0]
  from t r1 have o1: "objects_untouched ex_compose_world ?w1" by blast
  from u r2 have o2: "objects_untouched ex_compose_world ?w2" by blast
  from u o2 d have "deref ?w2 (Some (lib_module \<lparr>lib_module = 0\<rparr>)) = Some ex_builtins_library"
    by blast
  with ren r1 o1 r2 d show ?thesis by blast
qed

end
